(* ===== verification/Prelude.thy ===== *)
theory Prelude
  imports Main "HOL-Library.Word"
begin

unbundle bit_operations_syntax

text \<open>
  Shared vocabulary of the development: the machine integers of the consoles, little endian
  encodings, the byte memories the two processors share, and the list and memory lemmas the
  component theories use. Sizes and indices (\<open>size_t\<close> and \<open>u32\<close> used as an index) are
  \<^typ>\<open>nat\<close> with the wrap-around at 32 bits written out by \<open>u32_add\<close>; values that are stored
  in memory are words of their width.
\<close>

section \<open>Machine integers\<close>

type_synonym u8 = "8 word"
type_synonym u16 = "16 word"
type_synonym u32 = "32 word"

text \<open>Addition of two 32 bit unsigned integers.\<close>

definition u32_add :: "nat \<Rightarrow> nat \<Rightarrow> nat" where
  "u32_add a b = (a + b) mod 4294967296"

lemma u32_add_small [simp]: "a + b < 4294967296 \<Longrightarrow> u32_add a b = a + b"
  by (simp add: u32_add_def)

lemma u32_add_less: "u32_add a b < 4294967296"
  by (simp add: u32_add_def)

lemma unat_u8_less: "unat (b :: u8) < 256"
proof -
  have "unat b < 2 ^ LENGTH(8)" by (rule unsigned_less)
  then show ?thesis by simp
qed

lemma unat_u16_less: "unat (b :: u16) < 65536"
proof -
  have "unat b < 2 ^ LENGTH(16)" by (rule unsigned_less)
  then show ?thesis by simp
qed

text \<open>Bit \<open>n\<close> of a 16 bit mask, \<open>BIT(n)\<close> of the source, truncated like the store to a \<open>u16\<close>.\<close>

definition BIT16 :: "nat \<Rightarrow> u16" where
  "BIT16 n = push_bit n 1"

lemma bit_BIT16 [simp]: "bit (BIT16 n) k \<longleftrightarrow> k = n \<and> n < 16"
  by (auto simp: BIT16_def bit_simps)

lemma mask_set_bit_iff [simp]: "bit (m OR BIT16 n) k \<longleftrightarrow> bit m k \<or> (k = n \<and> n < 16)"
  by (auto simp: bit_simps)

lemma mask_clear_bit_iff [simp]:
  "bit (m AND NOT (BIT16 n)) k \<longleftrightarrow> bit m k \<and> k \<noteq> n" for m :: u16
  by (auto simp: bit_simps dest: bit_imp_le_length)

lemma mask_test_iff: "m AND BIT16 n \<noteq> 0 \<longleftrightarrow> bit m n"
proof -
  have b: "bit (m AND BIT16 n) k \<longleftrightarrow> bit m n \<and> k = n" for k
    by (auto simp: bit_and_iff dest: bit_imp_le_length)
  show ?thesis
  proof
    assume "m AND BIT16 n \<noteq> 0"
    then obtain k where "bit (m AND BIT16 n) k" using bit_eqI [of "m AND BIT16 n" 0] by auto
    then show "bit m n" by (simp add: b)
  next
    assume "bit m n"
    then have "bit (m AND BIT16 n) n" by (simp add: b)
    then show "m AND BIT16 n \<noteq> 0" by auto
  qed
qed

section \<open>Little endian encodings\<close>

definition le16 :: "u16 \<Rightarrow> u8 list" where
  "le16 v = [ucast v, ucast (drop_bit 8 v)]"

definition of_le16 :: "u8 \<Rightarrow> u8 \<Rightarrow> u16" where
  "of_le16 b0 b1 = ucast b0 OR push_bit 8 (ucast b1)"

definition le32 :: "u32 \<Rightarrow> u8 list" where
  "le32 v = [ucast v, ucast (drop_bit 8 v), ucast (drop_bit 16 v), ucast (drop_bit 24 v)]"

definition of_le32 :: "u8 \<Rightarrow> u8 \<Rightarrow> u8 \<Rightarrow> u8 \<Rightarrow> u32" where
  "of_le32 b0 b1 b2 b3 =
     ucast b0 OR push_bit 8 (ucast b1) OR push_bit 16 (ucast b2) OR push_bit 24 (ucast b3)"

lemma length_le16 [simp]: "length (le16 v) = 2"
  by (simp add: le16_def)

lemma length_le32 [simp]: "length (le32 v) = 4"
  by (simp add: le32_def)

lemma of_le16_le16: "of_le16 (le16 v ! 0) (le16 v ! 1) = v"
proof (rule bit_word_eqI)
  fix n assume "n < LENGTH(16)"
  then consider "n < 8" | "8 \<le> n" "n < 16" by fastforce
  then show "bit (of_le16 (le16 v ! 0) (le16 v ! 1)) n = bit v n"
    by cases (auto simp: of_le16_def le16_def bit_simps)
qed

lemma of_le32_le32 [simplified]: "of_le32 (le32 v ! 0) (le32 v ! 1) (le32 v ! 2) (le32 v ! 3) = v"
proof (rule bit_word_eqI)
  fix n assume "n < LENGTH(32)"
  then consider "n < 8" | "8 \<le> n" "n < 16" | "16 \<le> n" "n < 24" | "24 \<le> n" "n < 32"
    by fastforce
  then show "bit (of_le32 (le32 v ! 0) (le32 v ! 1) (le32 v ! 2) (le32 v ! 3)) n = bit v n"
    by cases (auto simp: of_le32_def le32_def bit_simps)
qed

section \<open>Byte memories\<close>

type_synonym mem = "nat \<Rightarrow> u8"

text \<open>\<open>memcpy\<close> of a byte string to a memory, and of a piece of memory to a byte string.\<close>

definition mem_write :: "mem \<Rightarrow> nat \<Rightarrow> u8 list \<Rightarrow> mem" where
  "mem_write m a bs = (\<lambda>i. if a \<le> i \<and> i < a + length bs then bs ! (i - a) else m i)"

definition mem_read :: "mem \<Rightarrow> nat \<Rightarrow> nat \<Rightarrow> u8 list" where
  "mem_read m a n = map (\<lambda>i. m (a + i)) [0..<n]"

definition read_u32 :: "mem \<Rightarrow> nat \<Rightarrow> u32" where
  "read_u32 m a = of_le32 (m a) (m (a + 1)) (m (a + 2)) (m (a + 3))"

definition write_u32 :: "mem \<Rightarrow> nat \<Rightarrow> u32 \<Rightarrow> mem" where
  "write_u32 m a v = mem_write m a (le32 v)"

lemma length_mem_read [simp]: "length (mem_read m a n) = n"
  by (simp add: mem_read_def)

lemma nth_mem_read [simp]: "i < n \<Longrightarrow> mem_read m a n ! i = m (a + i)"
  by (simp add: mem_read_def)

text \<open>Two memories that agree on a range: what every frame property is stated with.\<close>

definition agree_on :: "mem \<Rightarrow> mem \<Rightarrow> nat \<Rightarrow> nat \<Rightarrow> bool" where
  "agree_on m m' a b \<longleftrightarrow> (\<forall>i. a \<le> i \<and> i < b \<longrightarrow> m i = m' i)"

lemma agree_on_refl [simp]: "agree_on m m a b"
  by (simp add: agree_on_def)

lemma agree_on_trans: "agree_on m m' a b \<Longrightarrow> agree_on m' m'' a b \<Longrightarrow> agree_on m m'' a b"
  by (simp add: agree_on_def)

lemma agree_on_sub: "agree_on m m' a b \<Longrightarrow> a \<le> c \<Longrightarrow> d \<le> b \<Longrightarrow> agree_on m m' c d"
  by (simp add: agree_on_def)

lemma agree_on_write: "b \<le> c \<or> c + length bs \<le> a \<Longrightarrow> agree_on m (mem_write m c bs) a b"
  by (auto simp: agree_on_def mem_write_def)

lemma agree_on_write_u32: "b \<le> c \<or> c + 4 \<le> a \<Longrightarrow> agree_on m (write_u32 m c v) a b"
  by (simp add: write_u32_def agree_on_write)

lemma mem_read_agree: "agree_on m m' a b \<Longrightarrow> a \<le> c \<Longrightarrow> c + n \<le> b \<Longrightarrow> mem_read m c n = mem_read m' c n"
  by (simp add: agree_on_def mem_read_def)

lemma read_u32_agree: "agree_on m m' a b \<Longrightarrow> a \<le> c \<Longrightarrow> c + 4 \<le> b \<Longrightarrow> read_u32 m c = read_u32 m' c"
  by (simp add: agree_on_def read_u32_def)

lemma read_write_u32 [simp]: "read_u32 (write_u32 m a v) a = v"
proof -
  have "read_u32 (write_u32 m a v) a = of_le32 (le32 v ! 0) (le32 v ! 1) (le32 v ! 2) (le32 v ! 3)"
    by (simp add: read_u32_def write_u32_def mem_write_def)
  then show ?thesis by (simp add: of_le32_le32)
qed

lemma read_write_u32_other: "c + 4 \<le> a \<or> a + 4 \<le> c \<Longrightarrow> read_u32 (write_u32 m a v) c = read_u32 m c"
  by (rule read_u32_agree [symmetric, OF agree_on_write_u32 [of "c + 4" _ c]]) auto

lemma mem_read_write [simp]: "mem_read (mem_write m a bs) a (length bs) = bs"
  by (rule nth_equalityI) (simp_all add: mem_write_def)

lemma mem_read_append: "mem_read m a (n + k) = mem_read m a n @ mem_read m (a + n) k"
  by (rule nth_equalityI) (simp_all add: nth_append)

text \<open>Writing over a part of a byte string.\<close>

definition overwrite :: "nat \<Rightarrow> u8 list \<Rightarrow> u8 list \<Rightarrow> u8 list" where
  "overwrite k bs buf = take k buf @ bs @ drop (k + length bs) buf"

lemma take_overwrite: "k + length bs \<le> n \<Longrightarrow> take n (overwrite k bs buf) = overwrite k bs (take n buf)"
  by (cases "n = k") (auto simp: overwrite_def min_def drop_take)

lemma overwrite_append: "k + length bs \<le> length xs \<Longrightarrow> overwrite k bs (xs @ ys) = overwrite k bs xs @ ys"
  by (simp add: overwrite_def)

lemma length_overwrite [simp]: "k + length bs \<le> length xs \<Longrightarrow> length (overwrite k bs xs) = length xs"
  by (auto simp: overwrite_def)

end
