(* ===== verification/Packet_Ring.thy ===== *)
theory Packet_Ring
  imports Prelude
begin

text \<open>
  The circular packet buffers of \<open>Wifi_MainStruct\<close> (source/common/wifi_shared.h): one carries
  frames from the ARM9 to the ARM7 (\<open>txbuf*\<close>), one from the ARM7 to the ARM9 (\<open>rxbuf*\<close>). Both
  use the same allocator (source/arm9/ipc.c, source/arm7/ipc.c), which is modelled once with the
  size of the buffer as an argument. A packet is a 32 bit status word (its size and flags)
  followed by its bytes, padded to 32 bits; a status word of zero ends the queue and
  \<open>WIFI_SIZE_WRAP\<close> sends the reader back to the start. \<open>ring_holds\<close> relates a buffer to the
  list of packets queued in it; the operations refine appending to and removing from that list.
\<close>

section \<open>Definitions\<close>

record ring =
  ring_write :: nat
  ring_read :: nat
  ring_data :: mem

definition WIFI_RXBUFFER_SIZE :: nat where "WIFI_RXBUFFER_SIZE = 1024 * 12"
definition WIFI_TXBUFFER_SIZE :: nat where "WIFI_TXBUFFER_SIZE = 1024 * 24"
definition WIFI_SIZE_WRAP :: u32 where "WIFI_SIZE_WRAP = 0xFFFFFFFF"

definition round_up_32 :: "nat \<Rightarrow> nat" where
  "round_up_32 v = u32_add v 3 div 4 * 4"

text \<open>\<open>Wifi_TxBufferAllocBuffer\<close> and \<open>Wifi_RxBufferAllocBuffer\<close>: \<^const>\<open>None\<close> is -1.\<close>

definition ring_alloc :: "nat \<Rightarrow> ring \<Rightarrow> nat \<Rightarrow> (ring \<times> nat) option" where
  "ring_alloc sz r needed =
     (let w = ring_write r; rd = ring_read r in
      if rd \<le> w then
        if u32_add w needed \<ge> sz then
          if needed \<ge> rd then None
          else Some (r\<lparr>ring_data := write_u32 (write_u32 (ring_data r) 0 0) w WIFI_SIZE_WRAP\<rparr>, 0)
        else Some (r, w)
      else
        if u32_add w needed \<ge> rd then None
        else Some (r, w))"

text \<open>
  What every producer does with the space: the bytes of the frame go after the status word, the
  next status word is cleared, the write index moves, and the status word is stored last.
  \<open>frame_size\<close> is the size announced; \<open>bytes\<close> may be shorter (the checksum is left out).
\<close>

definition ring_store :: "ring \<Rightarrow> nat \<Rightarrow> u8 list \<Rightarrow> nat \<Rightarrow> u32 \<Rightarrow> ring" where
  "ring_store r idx bytes frame_size status =
     (let m1 = mem_write (ring_data r) (idx + 4) bytes;
          w = round_up_32 (u32_add (idx + 4) frame_size);
          m2 = write_u32 m1 w 0;
          m3 = write_u32 m2 idx status
      in r\<lparr>ring_write := w, ring_data := m3\<rparr>)"

definition ring_push :: "nat \<Rightarrow> ring \<Rightarrow> u8 list \<Rightarrow> nat \<Rightarrow> u32 \<Rightarrow> ring option" where
  "ring_push sz r bytes frame_size status =
     (case ring_alloc sz r (u32_add (u32_add 4 (round_up_32 frame_size)) 4) of
        None \<Rightarrow> None
      | Some (r', idx) \<Rightarrow> Some (ring_store r' idx bytes frame_size status))"

text \<open>What every consumer starts with: following a wrap marker, reading the status word.\<close>

definition ring_follow :: "ring \<Rightarrow> ring" where
  "ring_follow r =
     (if read_u32 (ring_data r) (ring_read r) = WIFI_SIZE_WRAP then r\<lparr>ring_read := 0\<rparr> else r)"

definition ring_status :: "ring \<Rightarrow> u32" where
  "ring_status r = read_u32 (ring_data r) (ring_read r)"

text \<open>Removing the packet of \<open>n\<close> bytes at the read index.\<close>

definition ring_skip :: "ring \<Rightarrow> nat \<Rightarrow> ring" where
  "ring_skip r n = r\<lparr>ring_read := ring_read r + 4 + round_up_32 n\<rparr>"

definition ring_bytes :: "ring \<Rightarrow> nat \<Rightarrow> u8 list" where
  "ring_bytes r n = mem_read (ring_data r) (ring_read r + 4) n"

definition ring_get :: "(u32 \<Rightarrow> nat) \<Rightarrow> ring \<Rightarrow> ((u32 \<times> u8 list) \<times> ring) option" where
  "ring_get f r =
     (let r1 = ring_follow r; st = ring_status r1 in
      if st = 0 then None
      else Some ((st, ring_bytes r1 (f st)), ring_skip r1 (f st)))"

section \<open>What a buffer holds\<close>

type_synonym packet = "u32 \<times> u8 list"

text \<open>
  \<open>f\<close> reads the size of a packet from its status word: the low 28 bits in the buffer of the
  ARM9, where flags share the word, the whole word in the buffer of the ARM7.
\<close>

fun seg :: "(u32 \<Rightarrow> nat) \<Rightarrow> mem \<Rightarrow> nat \<Rightarrow> nat \<Rightarrow> packet list \<Rightarrow> bool" where
  "seg f m i j [] \<longleftrightarrow> i = j"
| "seg f m i j ((st, bs) # ps) \<longleftrightarrow>
     read_u32 m i = st \<and> st \<noteq> 0 \<and> st \<noteq> WIFI_SIZE_WRAP \<and> f st = length bs
     \<and> mem_read m (i + 4) (length bs) = bs
     \<and> seg f m (i + 4 + (length bs + 3) div 4 * 4) j ps"

definition ring_holds :: "(u32 \<Rightarrow> nat) \<Rightarrow> nat \<Rightarrow> ring \<Rightarrow> packet list \<Rightarrow> bool" where
  "ring_holds f sz r ps \<longleftrightarrow>
     4 dvd ring_read r \<and> 4 dvd ring_write r \<and> ring_write r + 4 \<le> sz \<and> ring_read r + 4 \<le> sz
     \<and> read_u32 (ring_data r) (ring_write r) = 0
     \<and> (ring_read r \<le> ring_write r \<and> seg f (ring_data r) (ring_read r) (ring_write r) ps
        \<or> ring_write r + 4 \<le> ring_read r
          \<and> (\<exists>e ps1 ps2. e + 4 \<le> sz \<and> ps = ps1 @ ps2
               \<and> seg f (ring_data r) (ring_read r) e ps1
               \<and> read_u32 (ring_data r) e = WIFI_SIZE_WRAP
               \<and> seg f (ring_data r) 0 (ring_write r) ps2))"

section \<open>Lemmas\<close>

lemma round_up_32_eq [simp]: "n + 3 < 4294967296 \<Longrightarrow> round_up_32 n = (n + 3) div 4 * 4"
  by (simp add: round_up_32_def)

lemma round_up_32_aligned: "4 dvd round_up_32 n"
  by (simp add: round_up_32_def)

lemma round_up_add_aligned: "4 dvd (i::nat) \<Longrightarrow> (i + n + 3) div 4 * 4 = i + (n + 3) div 4 * 4"
  by presburger

lemma seg_mono: "seg f m i j ps \<Longrightarrow> i \<le> j"
  by (induction f m i j ps rule: seg.induct) auto

lemma seg_agree:
  "seg f m i j ps \<Longrightarrow> agree_on m m' i j \<Longrightarrow> seg f m' i j ps"
proof (induction f m i j ps rule: seg.induct)
  case (2 f m i j st bs ps)
  let ?k = "i + 4 + (length bs + 3) div 4 * 4"
  from "2.prems" have "?k \<le> j" by (auto dest: seg_mono)
  moreover have "i + 4 + length bs \<le> ?k" by simp
  ultimately have le: "i + 4 + length bs \<le> j" "i + 4 \<le> j" by linarith+
  from "2.prems"(2) le have "read_u32 m i = read_u32 m' i"
    "mem_read m (i + 4) (length bs) = mem_read m' (i + 4) (length bs)"
    by (auto intro: read_u32_agree mem_read_agree)
  moreover from "2.prems"(2) have "agree_on m m' ?k j" by (rule agree_on_sub) auto
  ultimately show ?case using 2 by auto
qed simp

lemma seg_append: "seg f m i j (ps @ qs) \<longleftrightarrow> (\<exists>k. seg f m i k ps \<and> seg f m k j qs)"
  by (induction f m i j ps rule: seg.induct) auto

lemma seg_aligned: "seg f m i j ps \<Longrightarrow> 4 dvd i \<Longrightarrow> 4 dvd j"
  by (induction f m i j ps rule: seg.induct) auto

lemma seg_cons_space:
  assumes "seg f m i j ((st, bs) # ps)"
  shows "i + 4 + (length bs + 3) div 4 * 4 \<le> j"
  using assms by (auto dest: seg_mono)

text \<open>
  Storing a frame: it forms a segment of one packet, followed by a cleared status word, and
  nothing outside the space it was given changes.
\<close>

definition frame_tail :: "ring \<Rightarrow> nat \<Rightarrow> u8 list \<Rightarrow> nat \<Rightarrow> u8 list" where
  "frame_tail r idx bytes fs =
     mem_read (ring_data r) (idx + 4 + length bytes) (fs - length bytes)"

lemma ring_store_spec:
  fixes r :: ring and idx fs a b :: nat and bytes :: "u8 list" and st :: u32 and f :: "u32 \<Rightarrow> nat"
  assumes al: "4 dvd idx" and small: "idx + fs + 16 < 4294967296" and len: "length bytes \<le> (fs + 3) div 4 * 4"
    and st: "st \<noteq> 0" "st \<noteq> WIFI_SIZE_WRAP" "f st = fs"
  defines "r2 \<equiv> ring_store r idx bytes fs st" and "w \<equiv> idx + 4 + (fs + 3) div 4 * 4"
  shows "ring_write r2 = w" and "ring_read r2 = ring_read r"
    and "read_u32 (ring_data r2) w = 0"
    and "seg f (ring_data r2) idx w [(st, take fs bytes @ frame_tail r idx bytes fs)]"
    and "b \<le> idx \<or> w + 4 \<le> a \<Longrightarrow> agree_on (ring_data r) (ring_data r2) a b"
proof -
  let ?m1 = "mem_write (ring_data r) (idx + 4) bytes"
  have w: "round_up_32 (u32_add (idx + 4) fs) = w"
    using small al round_up_add_aligned [of "idx + 4" fs] by (simp add: w_def)
  have r2: "r2 = r\<lparr>ring_write := w, ring_data := write_u32 (write_u32 ?m1 w 0) idx st\<rparr>"
    by (simp add: r2_def ring_store_def w)
  have wfs: "idx + 4 + fs \<le> w" by (simp add: w_def)
  show "ring_write r2 = w" "ring_read r2 = ring_read r" by (simp_all add: r2)
  show "read_u32 (ring_data r2) w = 0"
    using wfs by (simp add: r2 read_write_u32_other)
  show "agree_on (ring_data r) (ring_data r2) a b" if "b \<le> idx \<or> w + 4 \<le> a" for a b
  proof -
    from that wfs len have "agree_on (ring_data r) ?m1 a b"
      by (intro agree_on_write) auto
    moreover from that wfs have "agree_on ?m1 (write_u32 ?m1 w 0) a b"
      by (intro agree_on_write_u32) auto
    moreover from that wfs have "agree_on (write_u32 ?m1 w 0) (ring_data r2) a b"
      by (simp add: r2) (intro agree_on_write_u32; auto)
    ultimately show ?thesis by (blast intro: agree_on_trans)
  qed
  have "mem_read (ring_data r2) (idx + 4) fs = mem_read ?m1 (idx + 4) fs"
    by (rule nth_equalityI) (use wfs in \<open>auto simp: r2 write_u32_def mem_write_def\<close>)
  also have "\<dots> = take fs bytes @ frame_tail r idx bytes fs"
    by (rule nth_equalityI) (use len in \<open>auto simp: frame_tail_def mem_write_def nth_append add.assoc\<close>)
  finally have "mem_read (ring_data r2) (idx + 4) fs = take fs bytes @ frame_tail r idx bytes fs" .
  moreover have "length (take fs bytes @ frame_tail r idx bytes fs) = fs"
    using len by (simp add: frame_tail_def)
  ultimately show "seg f (ring_data r2) idx w [(st, take fs bytes @ frame_tail r idx bytes fs)]"
    using st by (simp add: r2 w_def)
qed

text \<open>
  Appending: when the allocator finds room, the packet is queued behind the ones already there,
  no byte outside the buffer is written and the read index does not move.
\<close>

definition pkt_ok :: "(u32 \<Rightarrow> nat) \<Rightarrow> nat \<Rightarrow> u32 \<Rightarrow> bool" where
  "pkt_ok f fs st \<longleftrightarrow> st \<noteq> 0 \<and> st \<noteq> WIFI_SIZE_WRAP \<and> f st = fs \<and> fs < 0x10000000"

lemma ring_holds_flatI:
  "\<lbrakk>4 dvd ring_read r; 4 dvd ring_write r; ring_write r + 4 \<le> sz;
    read_u32 (ring_data r) (ring_write r) = 0;
    seg f (ring_data r) (ring_read r) (ring_write r) ps\<rbrakk> \<Longrightarrow> ring_holds f sz r ps"
  by (auto simp: ring_holds_def dest: seg_mono)

lemma ring_holds_wrapI:
  "\<lbrakk>4 dvd ring_read r; 4 dvd ring_write r; ring_write r + 4 \<le> ring_read r; e + 4 \<le> sz;
    read_u32 (ring_data r) (ring_write r) = 0;
    seg f (ring_data r) (ring_read r) e ps1; read_u32 (ring_data r) e = WIFI_SIZE_WRAP;
    seg f (ring_data r) 0 (ring_write r) ps2\<rbrakk> \<Longrightarrow> ring_holds f sz r (ps1 @ ps2)"
  unfolding ring_holds_def
  by (frule seg_mono [of f _ "ring_read r"])
     (intro conjI disjI2 exI [of _ e] exI [of _ ps1] exI [of _ ps2]; simp)

lemma ring_push_end:
  assumes holds: "ring_holds f sz r ps" and le: "ring_read r \<le> ring_write r"
    and sz: "sz < 0x10000000" and fit: "ring_write r + (4 + (fs + 3) div 4 * 4 + 4) < sz"
    and len: "length bytes \<le> (fs + 3) div 4 * 4" and ok: "pkt_ok f fs st"
  shows "ring_holds f sz (ring_store r (ring_write r) bytes fs st)
           (ps @ [(st, take fs bytes @ frame_tail r (ring_write r) bytes fs)])"
proof -
  let ?w = "ring_write r" and ?r2 = "ring_store r (ring_write r) bytes fs st"
  from holds le have h: "4 dvd ring_read r" "4 dvd ?w" "seg f (ring_data r) (ring_read r) ?w ps"
    by (auto simp: ring_holds_def)
  from fit have small: "?w + fs + 16 < 4294967296" using sz by linarith
  have ok': "st \<noteq> 0" "st \<noteq> WIFI_SIZE_WRAP" "f st = fs" using ok by (simp_all add: pkt_ok_def)
  note st = ring_store_spec [where f = f and r = r and st = st, OF h(2) small len ok']
  have "seg f (ring_data ?r2) (ring_read r) ?w ps"
    by (rule seg_agree [OF h(3)]) (rule st(5), simp)
  with st(4) have "seg f (ring_data ?r2) (ring_read r) (?w + 4 + (fs + 3) div 4 * 4)
      (ps @ [(st, take fs bytes @ frame_tail r ?w bytes fs)])"
    by (auto simp: seg_append)
  with st(1-3) h le fit show ?thesis
    by (auto simp: ring_holds_def)
qed

lemma ring_push_between:
  assumes holds: "ring_holds f sz r ps" and gt: "ring_write r < ring_read r"
    and sz: "sz < 0x10000000" and fit: "ring_write r + (4 + (fs + 3) div 4 * 4 + 4) < ring_read r"
    and len: "length bytes \<le> (fs + 3) div 4 * 4" and ok: "pkt_ok f fs st"
  shows "ring_holds f sz (ring_store r (ring_write r) bytes fs st)
           (ps @ [(st, take fs bytes @ frame_tail r (ring_write r) bytes fs)])"
proof -
  let ?w = "ring_write r" and ?r2 = "ring_store r (ring_write r) bytes fs st"
  let ?w' = "?w + 4 + (fs + 3) div 4 * 4"
  from holds gt obtain e ps1 ps2 where h: "4 dvd ring_read r" "4 dvd ?w" "e + 4 \<le> sz"
    "ring_read r + 4 \<le> sz"
    "ps = ps1 @ ps2" "seg f (ring_data r) (ring_read r) e ps1"
    "read_u32 (ring_data r) e = WIFI_SIZE_WRAP" "seg f (ring_data r) 0 ?w ps2"
    by (auto simp: ring_holds_def)
  from fit h sz have small: "?w + fs + 16 < 4294967296" by linarith
  have ok': "st \<noteq> 0" "st \<noteq> WIFI_SIZE_WRAP" "f st = fs" using ok by (simp_all add: pkt_ok_def)
  note st = ring_store_spec [where f = f and r = r and st = st, OF h(2) small len ok']
  have re: "ring_read r \<le> e" using h(6) by (rule seg_mono)
  have high: "agree_on (ring_data r) (ring_data ?r2) (ring_read r) (e + 4)"
    by (rule st(5)) (use fit in simp)
  have low: "agree_on (ring_data r) (ring_data ?r2) 0 ?w" by (rule st(5)) simp
  have s1: "seg f (ring_data ?r2) (ring_read r) e ps1"
    by (rule seg_agree [OF h(6)], rule agree_on_sub [OF high]) auto
  have s2': "seg f (ring_data ?r2) 0 ?w ps2"
    by (rule seg_agree [OF h(8) low])
  have wr: "read_u32 (ring_data ?r2) e = WIFI_SIZE_WRAP"
    using read_u32_agree [OF high re order.refl] h(7) by simp
  from s2' st(4) have s2: "seg f (ring_data ?r2) 0 ?w' (ps2 @ [(st, take fs bytes @ frame_tail r ?w bytes fs)])"
    by (auto simp: seg_append)
  have "ring_holds f sz ?r2 (ps1 @ (ps2 @ [(st, take fs bytes @ frame_tail r ?w bytes fs)]))"
    by (rule ring_holds_wrapI [where e = e]) (use s1 s2 wr st(1-3) h fit in simp_all)
  then show ?thesis using h(5) by simp
qed

lemma ring_push_wrap:
  assumes holds: "ring_holds f sz r ps" and le: "ring_read r \<le> ring_write r"
    and sz: "sz < 0x10000000" and fit: "4 + (fs + 3) div 4 * 4 + 4 < ring_read r"
    and len: "length bytes \<le> (fs + 3) div 4 * 4" and ok: "pkt_ok f fs st"
  defines "r0 \<equiv> r\<lparr>ring_data :=
    write_u32 (write_u32 (ring_data r) 0 0) (ring_write r) WIFI_SIZE_WRAP\<rparr>"
  shows "ring_holds f sz (ring_store r0 0 bytes fs st) (ps @ [(st, take fs bytes @ frame_tail r0 0 bytes fs)])"
proof -
  let ?w = "ring_write r" and ?r2 = "ring_store r0 0 bytes fs st"
  let ?w' = "0 + 4 + (fs + 3) div 4 * 4"
  from holds le have h: "4 dvd ring_read r" "4 dvd ?w" "?w + 4 \<le> sz"
    "seg f (ring_data r) (ring_read r) ?w ps"
    by (auto simp: ring_holds_def)
  from fit le h sz have small: "0 + fs + 16 < 4294967296" by linarith
  have ok': "st \<noteq> 0" "st \<noteq> WIFI_SIZE_WRAP" "f st = fs" using ok by (simp_all add: pkt_ok_def)
  note st = ring_store_spec [where f = f and r = r0 and st = st, OF dvd_0_right small len ok']
  have "agree_on (ring_data r) (ring_data r0) (ring_read r) ?w"
    unfolding r0_def using fit le
    by (auto intro!: agree_on_trans [OF agree_on_write_u32 agree_on_write_u32])
  moreover have high: "agree_on (ring_data r0) (ring_data ?r2) (ring_read r) (?w + 4)"
    by (rule st(5)) (use fit in simp)
  ultimately have "agree_on (ring_data r) (ring_data ?r2) (ring_read r) ?w"
    by (meson agree_on_trans agree_on_sub le_add1 order.refl)
  with h(4) have s1: "seg f (ring_data ?r2) (ring_read r) ?w ps" by (rule seg_agree)
  have wr: "read_u32 (ring_data ?r2) ?w = WIFI_SIZE_WRAP"
    using read_u32_agree [OF high le order.refl] by (simp add: r0_def)
  show ?thesis
    by (rule ring_holds_wrapI [where e = ?w])
      (use s1 wr st(1-4) h fit in \<open>simp_all add: r0_def\<close>)
qed

text \<open>The three cases together, and what a full buffer means.\<close>

lemma ring_push_cases:
  assumes holds: "ring_holds f sz r ps" and sz: "sz < 0x10000000" and fs: "fs < 0x10000000"
  shows "ring_push sz r bytes fs st =
    (let n = 4 + (fs + 3) div 4 * 4 + 4; w = ring_write r in
     if ring_read r \<le> w then
       if w + n < sz then Some (ring_store r w bytes fs st)
       else if n < ring_read r
         then Some (ring_store (r\<lparr>ring_data :=
                 write_u32 (write_u32 (ring_data r) 0 0) w WIFI_SIZE_WRAP\<rparr>) 0 bytes fs st)
         else None
     else if w + n < ring_read r then Some (ring_store r w bytes fs st) else None)"
proof -
  have "u32_add (u32_add 4 (round_up_32 fs)) 4 = 4 + (fs + 3) div 4 * 4 + 4" using fs by simp
  moreover have "ring_write r < 0x10000000" using holds sz by (simp add: ring_holds_def)
  then have "u32_add (ring_write r) (4 + (fs + 3) div 4 * 4 + 4) = ring_write r + (4 + (fs + 3) div 4 * 4 + 4)"
    using fs by (intro u32_add_small) linarith
  ultimately show ?thesis
    by (auto simp: ring_push_def ring_alloc_def Let_def)
qed

theorem ring_push_refines:
  assumes holds: "ring_holds f sz r ps" and sz: "sz < 0x10000000"
    and len: "length bytes \<le> (fs + 3) div 4 * 4" and ok: "pkt_ok f fs st"
    and push: "ring_push sz r bytes fs st = Some r'"
  obtains fcs where "ring_holds f sz r' (ps @ [(st, take fs bytes @ fcs)])"
    "length (take fs bytes @ fcs) = fs"
proof -
  from ok have fs: "fs < 0x10000000" by (simp add: pkt_ok_def)
  note cases = push [unfolded ring_push_cases [OF holds sz fs] Let_def]
  have tail: "length (take fs bytes @ frame_tail q i bytes fs) = fs" for q i
    by (simp add: frame_tail_def)
  show thesis
  proof (cases "ring_read r \<le> ring_write r")
    case le: True
    show thesis
    proof (cases "ring_write r + (4 + (fs + 3) div 4 * 4 + 4) < sz")
      case True
      with le cases have "r' = ring_store r (ring_write r) bytes fs st" by simp
      with that [OF _ tail] ring_push_end [OF holds le sz True len ok] show thesis by simp
    next
      case False
      with le cases have fit: "4 + (fs + 3) div 4 * 4 + 4 < ring_read r"
        and r': "r' = ring_store (r\<lparr>ring_data := write_u32 (write_u32 (ring_data r) 0 0)
                   (ring_write r) WIFI_SIZE_WRAP\<rparr>) 0 bytes fs st"
        by (auto split: if_splits)
      from that [OF _ tail] ring_push_wrap [OF holds le sz fit len ok] r' show thesis by simp
    qed
  next
    case False
    with cases have fit: "ring_write r + (4 + (fs + 3) div 4 * 4 + 4) < ring_read r"
      and r': "r' = ring_store r (ring_write r) bytes fs st"
      by (auto split: if_splits)
    from False have "ring_write r < ring_read r" by simp
    from that [OF _ tail] ring_push_between [OF holds this sz fit len ok] r' show thesis by simp
  qed
qed

lemma ring_push_room:
  assumes "ring_holds f sz r ps" "sz < 0x10000000" "fs < 0x10000000"
    and "ring_read r = ring_write r" and "2 * (fs + 12) \<le> sz"
  shows "ring_push sz r bytes fs st \<noteq> None"
proof -
  have "4 + (fs + 3) div 4 * 4 + 4 < fs + 12" by simp
  then show ?thesis
    using assms(4,5) unfolding ring_push_cases [OF assms(1-3)] Let_def by auto
qed

lemma ring_push_read: "ring_push sz r bytes fs st = Some r' \<Longrightarrow> ring_read r' = ring_read r"
  by (auto simp: ring_push_def ring_alloc_def ring_store_def Let_def split: if_splits option.splits)

section \<open>Taking packets out\<close>

lemma ring_holds_cases [consumes 1, case_names flat wrapped]:
  assumes "ring_holds f sz r ps"
  obtains "4 dvd ring_read r" "4 dvd ring_write r" "ring_write r + 4 \<le> sz"
      "read_u32 (ring_data r) (ring_write r) = 0"
      "seg f (ring_data r) (ring_read r) (ring_write r) ps"
  | e ps1 ps2 where "4 dvd ring_read r" "4 dvd ring_write r" "ring_write r + 4 \<le> ring_read r"
      "e + 4 \<le> sz" "read_u32 (ring_data r) (ring_write r) = 0" "ps = ps1 @ ps2"
      "seg f (ring_data r) (ring_read r) e ps1" "read_u32 (ring_data r) e = WIFI_SIZE_WRAP"
      "seg f (ring_data r) 0 (ring_write r) ps2"
  using assms unfolding ring_holds_def by blast

lemma ring_holds_follow:
  assumes "ring_holds f sz r ps"
  shows "ring_holds f sz (ring_follow r) ps"
  using assms
proof (cases rule: ring_holds_cases)
  case flat
  then show ?thesis
    by (cases ps) (auto simp: ring_follow_def WIFI_SIZE_WRAP_def intro!: ring_holds_flatI)
next
  case (wrapped e ps1 ps2)
  show ?thesis
  proof (cases ps1)
    case Nil
    with wrapped show ?thesis
      by (auto simp: ring_follow_def intro!: ring_holds_flatI)
  next
    case (Cons p qs)
    with wrapped have "ring_follow r = r" by (cases p) (auto simp: ring_follow_def)
    moreover have "ring_holds f sz r (ps1 @ ps2)"
      by (rule ring_holds_wrapI [where e = e]) (use wrapped in simp_all)
    ultimately show ?thesis using wrapped by simp
  qed
qed

lemma ring_follow_no_wrap:
  assumes "ring_holds f sz r ps"
  shows "ring_status (ring_follow r) \<noteq> WIFI_SIZE_WRAP"
  using assms
proof (cases rule: ring_holds_cases)
  case flat
  then show ?thesis
    by (cases ps) (auto simp: ring_follow_def ring_status_def WIFI_SIZE_WRAP_def)
next
  case (wrapped e ps1 ps2)
  then show ?thesis
    by (cases ps1; cases ps2)
      (auto simp: ring_follow_def ring_status_def WIFI_SIZE_WRAP_def)
qed

text \<open>Once the marker has been followed, the read index is at the first packet.\<close>

lemma ring_holds_front:
  assumes "ring_holds f sz r ((st, bs) # qs)" and nw: "ring_status r \<noteq> WIFI_SIZE_WRAP"
    and sz: "sz < 0x10000000"
  shows "ring_status r = st" "st \<noteq> 0" "f st = length bs" "ring_bytes r (length bs) = bs"
    and "ring_holds f sz (ring_skip r (length bs)) qs"
proof -
  from assms(1) have "ring_status r = st \<and> st \<noteq> 0 \<and> f st = length bs \<and> ring_bytes r (length bs) = bs
      \<and> ring_holds f sz (ring_skip r (length bs)) qs"
  proof (cases rule: ring_holds_cases)
    case flat
    let ?n = "ring_read r + 4 + (length bs + 3) div 4 * 4"
    from flat(5) have "?n \<le> ring_write r" by (rule seg_cons_space)
    with flat sz have n: "round_up_32 (length bs) = (length bs + 3) div 4 * 4" by simp
    have "ring_holds f sz (ring_skip r (length bs)) qs"
      by (rule ring_holds_flatI) (use flat in \<open>simp_all add: ring_skip_def n\<close>)
    with flat show ?thesis by (simp add: ring_status_def ring_bytes_def)
  next
    case (wrapped e ps1 ps2)
    show ?thesis
    proof (cases ps1)
      case Nil
      with wrapped nw show ?thesis by (simp add: ring_status_def)
    next
      case (Cons p rest)
      with wrapped have ps1: "ps1 = (st, bs) # rest" and qs: "qs = rest @ ps2" by auto
      let ?n = "ring_read r + 4 + (length bs + 3) div 4 * 4"
      from wrapped(7) have "?n \<le> e" unfolding ps1 by (rule seg_cons_space)
      with wrapped(4) sz have n: "round_up_32 (length bs) = (length bs + 3) div 4 * 4" by simp
      have "ring_holds f sz (ring_skip r (length bs)) (rest @ ps2)"
        by (rule ring_holds_wrapI [where e = e])
          (use wrapped in \<open>simp_all add: ring_skip_def n ps1\<close>)
      with wrapped qs show ?thesis by (simp add: ring_status_def ring_bytes_def ps1)
    qed
  qed
  then show "ring_status r = st" "st \<noteq> 0" "f st = length bs" "ring_bytes r (length bs) = bs"
    "ring_holds f sz (ring_skip r (length bs)) qs" by auto
qed

lemma ring_holds_empty:
  assumes "ring_holds f sz r []" and "ring_status r \<noteq> WIFI_SIZE_WRAP"
  shows "ring_status r = 0"
  using assms by (cases rule: ring_holds_cases) (auto simp: ring_status_def)

theorem ring_get_refines:
  assumes "ring_holds f sz r ps" and "sz < 0x10000000"
  shows "case ps of [] \<Rightarrow> ring_get f r = None
    | p # qs \<Rightarrow> \<exists>r'. ring_get f r = Some (p, r') \<and> ring_holds f sz r' qs"
proof -
  have h: "ring_holds f sz (ring_follow r) ps" "ring_status (ring_follow r) \<noteq> WIFI_SIZE_WRAP"
    using assms(1) by (rule ring_holds_follow, rule ring_follow_no_wrap)
  show ?thesis
  proof (cases ps)
    case Nil
    with h show ?thesis by (simp add: ring_get_def Let_def ring_holds_empty)
  next
    case (Cons p qs)
    obtain st bs where p: "p = (st, bs)" by (cases p)
    show ?thesis
      using ring_holds_front [OF h(1) [unfolded Cons p] h(2) assms(2)]
      by (simp add: Cons p ring_get_def Let_def)
  qed
qed

section \<open>The queue interface\<close>

text \<open>
  A schedule of the two ends of a queue: \<open>Inl x\<close> is the producer offering \<open>x\<close>, \<open>Inr ()\<close> the
  consumer looking. The result is what was accepted, what was delivered and the queue left.
\<close>

fun run_queue :: "('f \<Rightarrow> 'q \<Rightarrow> bool \<times> 'q) \<Rightarrow> ('q \<Rightarrow> ('p \<times> 'q) option) \<Rightarrow> ('f + unit) list \<Rightarrow> 'q
    \<Rightarrow> 'f list \<times> 'p list \<times> 'q" where
  "run_queue put get [] q = ([], [], q)"
| "run_queue put get (Inl x # es) q =
     (case put x q of (ok, q') \<Rightarrow>
        (case run_queue put get es q' of (acc, out, r) \<Rightarrow> (if ok then x # acc else acc, out, r)))"
| "run_queue put get (Inr _ # es) q =
     (case get q of
        None \<Rightarrow> run_queue put get es q
      | Some (p, q') \<Rightarrow> (case run_queue put get es q' of (acc, out, r) \<Rightarrow> (acc, p # out, r)))"

text \<open>Taking at most \<open>n\<close> packets.\<close>

fun drain :: "('q \<Rightarrow> ('p \<times> 'q) option) \<Rightarrow> nat \<Rightarrow> 'q \<Rightarrow> 'p list \<times> 'q" where
  "drain get 0 q = ([], q)"
| "drain get (Suc n) q =
     (case get q of
        None \<Rightarrow> ([], q)
      | Some (p, q') \<Rightarrow> (case drain get n q' of (ps, r) \<Rightarrow> (p # ps, r)))"

text \<open>
  What the code at the two ends of a buffer relies on. A consumer takes the packets out in order
  and is told when there are none; a producer that is accepted appends one packet made from what
  it handed over, and one that is refused leaves the queue as it is.
\<close>

locale packet_source =
  fixes holds :: "'q \<Rightarrow> 'p list \<Rightarrow> bool"
    and take_one :: "'q \<Rightarrow> ('p \<times> 'q) option"
  assumes take_Nil: "holds q [] \<Longrightarrow> take_one q = None"
    and take_Cons: "holds q (p # ps) \<Longrightarrow> \<exists>q'. take_one q = Some (p, q') \<and> holds q' ps"
begin

lemma take_None_iff: "holds q ps \<Longrightarrow> take_one q = None \<longleftrightarrow> ps = []"
  by (cases ps) (use take_Nil take_Cons in fastforce)+

lemma take_Some: "holds q ps \<Longrightarrow> take_one q = Some (p, q') \<Longrightarrow> \<exists>qs. ps = p # qs \<and> holds q' qs"
  by (cases ps) (use take_Nil take_Cons in fastforce)+

lemma drain_take: "holds q ps \<Longrightarrow> \<exists>q'. drain take_one n q = (take n ps, q') \<and> holds q' (drop n ps)"
proof (induction n arbitrary: q ps)
  case (Suc n)
  show ?case
  proof (cases ps)
    case Nil
    with Suc.prems take_Nil show ?thesis by auto
  next
    case (Cons p qs)
    with Suc.prems take_Cons obtain q1 where q1: "take_one q = Some (p, q1)" "holds q1 qs" by blast
    with Suc.IH [OF q1(2)] Cons show ?thesis by auto
  qed
qed auto

end

locale packet_queue = packet_source holds take_one
  for holds :: "'q \<Rightarrow> 'p list \<Rightarrow> bool" and take_one :: "'q \<Rightarrow> ('p \<times> 'q) option" +
  fixes put :: "'f \<Rightarrow> 'q \<Rightarrow> bool \<times> 'q"
    and carries :: "'f \<Rightarrow> 'p \<Rightarrow> bool"
    and valid :: "'f \<Rightarrow> bool"
  assumes put_accepted: "\<lbrakk>holds q ps; valid x; put x q = (True, q')\<rbrakk> \<Longrightarrow> \<exists>p. carries x p \<and> holds q' (ps @ [p])"
    and put_refused: "\<lbrakk>holds q ps; valid x; put x q = (False, q')\<rbrakk> \<Longrightarrow> holds q' ps"
begin

text \<open>Nothing is lost, duplicated or reordered, whatever the interleaving of the two ends.\<close>

lemma run_fifo:
  assumes "holds q ps" and "\<forall>x. Inl x \<in> set es \<longrightarrow> valid x"
    and "run_queue put take_one es q = (acc, out, q')"
  shows "\<exists>new rest. list_all2 carries acc new \<and> ps @ new = out @ rest \<and> holds q' rest"
  using assms
proof (induction es arbitrary: q ps acc out)
  case Nil
  then show ?case by (intro exI [of _ "[]"] exI [of _ ps]) auto
next
  case (Cons e es)
  show ?case
  proof (cases e)
    case (Inl x)
    obtain ok q1 where put: "put x q = (ok, q1)" by (cases "put x q")
    obtain acc1 where r: "run_queue put take_one es q1 = (acc1, out, q')"
      "acc = (if ok then x # acc1 else acc1)"
      using Cons.prems(3) Inl put by (auto split: prod.splits)
    have v: "valid x" using Cons.prems(2) Inl by auto
    show ?thesis
    proof (cases ok)
      case True
      obtain p where p: "carries x p" "holds q1 (ps @ [p])"
        using put_accepted [OF Cons.prems(1) v] put True by auto
      obtain new rest where "list_all2 carries acc1 new" "(ps @ [p]) @ new = out @ rest" "holds q' rest"
        using Cons.IH [OF p(2) _ r(1)] Cons.prems(2) by auto
      with p r True show ?thesis by (intro exI [of _ "p # new"] exI [of _ rest]) auto
    next
      case False
      then have "holds q1 ps" using put_refused [OF Cons.prems(1) v] put by auto
      with Cons.IH [OF _ _ r(1)] Cons.prems(2) r(2) False show ?thesis by auto
    qed
  next
    case (Inr u)
    show ?thesis
    proof (cases "take_one q")
      case None
      with Cons Inr show ?thesis by simp
    next
      case (Some a)
      then obtain p q1 where t: "take_one q = Some (p, q1)" by (cases a) auto
      obtain out1 where r: "run_queue put take_one es q1 = (acc, out1, q')" "out = p # out1"
        using Cons.prems(3) Inr t by (auto split: prod.splits)
      obtain qs where qs: "ps = p # qs" "holds q1 qs" using take_Some [OF Cons.prems(1) t] by auto
      obtain new rest where "list_all2 carries acc new" "qs @ new = out1 @ rest" "holds q' rest"
        using Cons.IH [OF qs(2) _ r(1)] Cons.prems(2) by auto
      with r qs show ?thesis by (intro exI [of _ new] exI [of _ rest]) auto
    qed
  qed
qed

end

end
