(* ===== verification/Wifi_Shared.thy ===== *)
theory Wifi_Shared
  imports Packet_Ring
begin

text \<open>
  The structure the two processors share (\<open>Wifi_MainStruct\<close>, source/common/wifi_shared.h), with
  the fields the modelled operations use, and the small functions of that header. A MAC address
  is its three halfwords. Arrays are lists of their declared length.
\<close>

section \<open>Enumerations\<close>

datatype DSWifi_Mode = DSWIFI_INTERNET | DSWIFI_MULTIPLAYER_CLIENT | DSWIFI_MULTIPLAYER_HOST

datatype WIFI_MODE =
    WIFIMODE_DISABLED | WIFIMODE_INITIALIZING | WIFIMODE_NORMAL | WIFIMODE_SCAN
  | WIFIMODE_CONNECTING | WIFIMODE_CONNECTED | WIFIMODE_DISCONNECTING
  | WIFIMODE_CANNOTCONNECT | WIFIMODE_ACCESSPOINT

datatype Wifi_ConnectedClientState =
    WIFI_CLIENT_DISCONNECTED | WIFI_CLIENT_AUTHENTICATED | WIFI_CLIENT_ASSOCIATED

datatype WEPMODES =
    WEPMODE_NONE | WEPMODE_64BIT | WEPMODE_128BIT | WEPMODE_64BIT_ASCII
  | WEPMODE_128BIT_ASCII | WEPMODE_152BIT | WEPMODE_152BIT_ASCII

text \<open>The counters of \<open>stats\<close> that software keeps.\<close>

datatype wstat =
    WSTAT_RXQUEUEDPACKETS | WSTAT_TXQUEUEDPACKETS | WSTAT_RXQUEUEDBYTES | WSTAT_TXQUEUEDBYTES
  | WSTAT_RXQUEUEDLOST | WSTAT_TXQUEUEDREJECTED | WSTAT_RXPACKETS | WSTAT_RXBYTES
  | WSTAT_RXDATABYTES | WSTAT_TXPACKETS | WSTAT_TXBYTES | WSTAT_TXDATABYTES
  | WSTAT_ARM7_UPDATES | WSTAT_DEBUG

section \<open>Constants\<close>

definition WIFI_MAX_MULTIPLAYER_CLIENTS :: nat where "WIFI_MAX_MULTIPLAYER_CLIENTS = 15"
definition WFLAG_REQ_USELED :: u16 where "WFLAG_REQ_USELED = 0x0001"
definition WFLAG_REQ_DSI_MODE :: u16 where "WFLAG_REQ_DSI_MODE = 0x0080"
definition WFLAG_REQ_PROMISC :: u16 where "WFLAG_REQ_PROMISC = 0x0010"
definition WFLAG_REQ_ALLOWCLIENTS :: u16 where "WFLAG_REQ_ALLOWCLIENTS = 0x0040"

definition WFLAG_SEND_SIZE_MASK :: u32 where "WFLAG_SEND_SIZE_MASK = 0x0FFFFFFF"
definition WFLAG_SEND_AS_DATA :: u32 where "WFLAG_SEND_AS_DATA = 0x10000000"
definition WFLAG_SEND_AS_BEACON :: u32 where "WFLAG_SEND_AS_BEACON = 0x20000000"
definition WFLAG_SEND_AS_CMD :: u32 where "WFLAG_SEND_AS_CMD = 0x80000000"
definition WFLAG_SEND_AS_REPLY :: u32 where "WFLAG_SEND_AS_REPLY = 0x40000000"

definition HDR_TX_SIZE :: nat where "HDR_TX_SIZE = 12"
definition HDR_DATA_MAC_SIZE :: nat where "HDR_DATA_MAC_SIZE = 24"

text \<open>The map of the RAM of the MAC, in offsets.\<close>

definition MAC_TXBUF_START_OFFSET :: nat where "MAC_TXBUF_START_OFFSET = 0x0000"
definition MAC_TXBUF_END_OFFSET :: nat where "MAC_TXBUF_END_OFFSET = 0x0700"
definition MAC_CMDBUF_START_OFFSET :: nat where "MAC_CMDBUF_START_OFFSET = 0x0700"
definition MAC_CMDBUF_END_OFFSET :: nat where "MAC_CMDBUF_END_OFFSET = 0x0A00"
definition MAC_CMDBUF_SIZE :: nat where
  "MAC_CMDBUF_SIZE = MAC_CMDBUF_END_OFFSET - MAC_CMDBUF_START_OFFSET"
definition MAC_CLIENT_RX1_START_OFFSET :: nat where "MAC_CLIENT_RX1_START_OFFSET = 0x0A00"
definition MAC_CLIENT_RX1_END_OFFSET :: nat where "MAC_CLIENT_RX1_END_OFFSET = 0x0B00"
definition MAC_CLIENT_RX2_START_OFFSET :: nat where "MAC_CLIENT_RX2_START_OFFSET = 0x0B00"
definition MAC_CLIENT_RX2_END_OFFSET :: nat where "MAC_CLIENT_RX2_END_OFFSET = 0x0C00"
definition MAC_CLIENT_RX_SIZE :: nat where
  "MAC_CLIENT_RX_SIZE = MAC_CLIENT_RX1_END_OFFSET - MAC_CLIENT_RX1_START_OFFSET"
definition MAC_BEACON_START_OFFSET :: nat where "MAC_BEACON_START_OFFSET = 0x0A00"
definition MAC_BEACON_END_OFFSET :: nat where "MAC_BEACON_END_OFFSET = 0x0C00"
definition MAC_BEACON_SIZE :: nat where
  "MAC_BEACON_SIZE = MAC_BEACON_END_OFFSET - MAC_BEACON_START_OFFSET"

lemmas mac_map = MAC_TXBUF_START_OFFSET_def MAC_TXBUF_END_OFFSET_def MAC_CMDBUF_START_OFFSET_def
  MAC_CMDBUF_END_OFFSET_def MAC_CMDBUF_SIZE_def MAC_CLIENT_RX1_START_OFFSET_def
  MAC_CLIENT_RX1_END_OFFSET_def MAC_CLIENT_RX2_START_OFFSET_def MAC_CLIENT_RX2_END_OFFSET_def
  MAC_CLIENT_RX_SIZE_def MAC_BEACON_START_OFFSET_def MAC_BEACON_END_OFFSET_def
  MAC_BEACON_SIZE_def

section \<open>The shared structure\<close>

type_synonym mac = "u16 \<times> u16 \<times> u16"

record Wifi_ConnectedClient =
  cl_macaddr :: mac
  cl_association_id :: u16
  cl_state :: Wifi_ConnectedClientState

record Wifi_ClientsInfo =
  clients_list :: "Wifi_ConnectedClient list"
  aid_mask :: u16
  num_connected :: u8
  reqKickClientAIDMask :: u8
  curClientAID :: u8

record Wifi_MainStruct =
  curMode :: WIFI_MODE
  reqMode :: WIFI_MODE
  curChannel :: u8
  reqChannel :: u8
  reqFlags :: u16
  MacAddr :: mac
  curLibraryMode :: DSWifi_Mode
  reqLibraryMode :: DSWifi_Mode
  curAp_bssid :: mac
  curAp_ssid :: "u8 list"
  curAp_ssid_len :: u8
  maxrate7 :: u8
  rxbuf :: ring
  txbuf :: ring
  clients :: Wifi_ClientsInfo
  curMaxClients :: u8
  reqMaxClients :: u8
  curCmdDataSize :: u16
  reqCmdDataSize :: u16
  curReplyDataSize :: u16
  reqReplyDataSize :: u16
  hostPlayerName :: "u16 list"
  hostPlayerNameLen :: u8
  hostGameData :: "u8 list"
  hostGameDataLen :: u8
  beaconFragments :: "u8 list list"
  beaconFragmentSize :: u8
  beaconFragmentCount :: u8
  beaconFragmentGeneration :: u8
  beaconPatch :: "(u8 \<times> u8) list"
  beaconPatchWrite :: u8
  beaconPatchRead :: u8
  beaconExtraDataLayout :: u8
  beaconPreTbttCount :: u16
  beaconFragmentWrites :: u16
  beaconRotateSkip :: u8
  mpCmdArmed :: u16
  mpCmdRetry :: u16
  mpCmdDone :: u16
  mpCmdFailed :: u16
  mpReplyRx :: u16
  mpReplyEmpty :: u16
  stats :: "wstat \<Rightarrow> u32"
  reqApScanFlags :: u8
  rssi :: u8
  wfc_number_of_configs :: u8

definition stat_addw :: "wstat \<Rightarrow> u32 \<Rightarrow> Wifi_MainStruct \<Rightarrow> Wifi_MainStruct" where
  "stat_addw s v d = d\<lparr>stats := (stats d)(s := stats d s + v)\<rparr>"

definition stat_add :: "wstat \<Rightarrow> nat \<Rightarrow> Wifi_MainStruct \<Rightarrow> Wifi_MainStruct" where
  "stat_add s n d = stat_addw s (of_nat n) d"

lemma stat_add_other [simp]:
  "rxbuf (stat_add s n d) = rxbuf d" "txbuf (stat_add s n d) = txbuf d"
  "clients (stat_add s n d) = clients d" "MacAddr (stat_add s n d) = MacAddr d"
  "curLibraryMode (stat_add s n d) = curLibraryMode d"
  "curAp_bssid (stat_add s n d) = curAp_bssid d"
  "curMaxClients (stat_add s n d) = curMaxClients d"
  by (simp_all add: stat_add_def stat_addw_def)

lemma stat_addw_other [simp]:
  "rxbuf (stat_addw s v d) = rxbuf d" "txbuf (stat_addw s v d) = txbuf d"
  "clients (stat_addw s v d) = clients d" "MacAddr (stat_addw s v d) = MacAddr d"
  by (simp_all add: stat_addw_def)

lemma stats_stat_add [simp]:
  "stats (stat_add s n d) t = (if t = s then stats d s + of_nat n else stats d t)"
  by (simp add: stat_add_def stat_addw_def)

section \<open>Addresses\<close>

text \<open>source/common/mac_addresses.c\<close>

definition wifi_broadcast_addr :: mac where "wifi_broadcast_addr = (0xFFFF, 0xFFFF, 0xFFFF)"
definition wifi_cmd_mac :: mac where "wifi_cmd_mac = (0x0903, 0x00BF, 0x0000)"
definition wifi_reply_mac :: mac where "wifi_reply_mac = (0x0903, 0x00BF, 0x1000)"

definition mac_bytes :: "mac \<Rightarrow> u8 list" where
  "mac_bytes m = (case m of (a, b, c) \<Rightarrow> le16 a @ le16 b @ le16 c)"

lemma length_mac_bytes [simp]: "length (mac_bytes m) = 6"
  by (simp add: mac_bytes_def split: prod.splits)

text \<open>\<open>Wifi_CmpMacAddr\<close> on six bytes found at offset \<open>k\<close> of a frame.\<close>

definition Wifi_CmpMacAddr :: "u8 list \<Rightarrow> nat \<Rightarrow> mac \<Rightarrow> bool" where
  "Wifi_CmpMacAddr frame k m \<longleftrightarrow> take 6 (drop k frame) = mac_bytes m"

lemma le16_inj: "le16 a = le16 b \<Longrightarrow> a = b"
  by (metis of_le16_le16)

lemma mac_bytes_inj [simp]: "mac_bytes a = mac_bytes b \<longleftrightarrow> a = b"
  by (cases a; cases b) (auto simp: mac_bytes_def le16_inj)

section \<open>Sizes of WEP keys\<close>

definition Wifi_WepKeySizeFromMode :: "WEPMODES \<Rightarrow> nat" where
  "Wifi_WepKeySizeFromMode m =
     (case m of
        WEPMODE_NONE \<Rightarrow> 0
      | WEPMODE_64BIT \<Rightarrow> 5 | WEPMODE_64BIT_ASCII \<Rightarrow> 5
      | WEPMODE_128BIT \<Rightarrow> 13 | WEPMODE_128BIT_ASCII \<Rightarrow> 13
      | WEPMODE_152BIT \<Rightarrow> 16 | WEPMODE_152BIT_ASCII \<Rightarrow> 16)"

definition Wifi_WepModeFromKeySize :: "nat \<Rightarrow> WEPMODES" where
  "Wifi_WepModeFromKeySize n =
     (if n = 5 then WEPMODE_64BIT else if n = 13 then WEPMODE_128BIT
      else if n = 16 then WEPMODE_152BIT else WEPMODE_NONE)"

lemma wep_size_of_mode: "n \<in> {5, 13, 16} \<Longrightarrow> Wifi_WepKeySizeFromMode (Wifi_WepModeFromKeySize n) = n"
  by (auto simp: Wifi_WepKeySizeFromMode_def Wifi_WepModeFromKeySize_def)

end
