(* ===== verification/Arm9_Ipc.thy ===== *)
theory Arm9_Ipc
  imports Wifi_Shared
begin

text \<open>
  The requests of the application (source/arm9/ipc.c): how the shared structure starts, and the
  functions that ask the ARM7 for a mode of operation. The handshake with the ARM7 that follows
  the start is not modelled.
\<close>

section \<open>Definitions\<close>

text \<open>
  \<open>Wifi_InitIPC\<close>: the structure is cleared, and a few fields are filled in. The three flags of
  \<open>Wifi_InitDefault\<close> and the name of the user are arguments.
\<close>

definition cleared :: Wifi_MainStruct where
  "cleared = \<lparr>curMode = WIFIMODE_DISABLED, reqMode = WIFIMODE_DISABLED, curChannel = 0, reqChannel = 0,
     reqFlags = 0, MacAddr = (0, 0, 0), curLibraryMode = DSWIFI_INTERNET, reqLibraryMode = DSWIFI_INTERNET,
     curAp_bssid = (0, 0, 0), curAp_ssid = replicate 33 0, curAp_ssid_len = 0, maxrate7 = 0,
     rxbuf = \<lparr>ring_write = 0, ring_read = 0, ring_data = (\<lambda>_. 0)\<rparr>,
     txbuf = \<lparr>ring_write = 0, ring_read = 0, ring_data = (\<lambda>_. 0)\<rparr>,
     clients = \<lparr>clients_list = replicate WIFI_MAX_MULTIPLAYER_CLIENTS
         \<lparr>cl_macaddr = (0, 0, 0), cl_association_id = 0, cl_state = WIFI_CLIENT_DISCONNECTED\<rparr>,
       aid_mask = 0, num_connected = 0, reqKickClientAIDMask = 0, curClientAID = 0\<rparr>,
     curMaxClients = 0, reqMaxClients = 0, curCmdDataSize = 0, reqCmdDataSize = 0,
     curReplyDataSize = 0, reqReplyDataSize = 0, hostPlayerName = replicate 10 0, hostPlayerNameLen = 0,
     hostGameData = replicate 16 0, hostGameDataLen = 0, beaconFragments = replicate 13 (replicate 112 0),
     beaconFragmentSize = 0, beaconFragmentCount = 0, beaconFragmentGeneration = 0,
     beaconPatch = replicate 8 (0, 0), beaconPatchWrite = 0, beaconPatchRead = 0, beaconExtraDataLayout = 0,
     beaconPreTbttCount = 0, beaconFragmentWrites = 0, beaconRotateSkip = 0, mpCmdArmed = 0, mpCmdRetry = 0,
     mpCmdDone = 0, mpCmdFailed = 0, mpReplyRx = 0, mpReplyEmpty = 0, stats = (\<lambda>_. 0),
     reqApScanFlags = 0, rssi = 0, wfc_number_of_configs = 0\<rparr>"

definition Wifi_InitIPC :: "bool \<Rightarrow> bool \<Rightarrow> bool \<Rightarrow> u16 list \<Rightarrow> Wifi_MainStruct" where
  "Wifi_InitIPC local_only disable_led dsi_mode user_name =
     (let name = take 10 user_name;
          flags = (if disable_led then 0 else WFLAG_REQ_USELED) OR (if dsi_mode then WFLAG_REQ_DSI_MODE else 0)
      in cleared\<lparr>reqLibraryMode := (if local_only then DSWIFI_MULTIPLAYER_CLIENT else DSWIFI_INTERNET),
           reqMode := WIFIMODE_DISABLED, reqFlags := flags, hostPlayerNameLen := of_nat (length name),
           hostPlayerName := name @ replicate (10 - length name) 0\<rparr>)"

text \<open>Whether a buffer was given is an argument; the result is the value returned and the bytes written.\<close>

definition Wifi_GetData :: "int \<Rightarrow> int \<Rightarrow> bool \<Rightarrow> Wifi_MainStruct \<Rightarrow> int \<times> u8 list" where
  "Wifi_GetData datatype bufferlen has_buffer d =
     (if datatype < 0 \<or> datatype \<ge> 3 then (-1, [])
      else if datatype = 0 then
        (if bufferlen < 6 \<or> \<not> has_buffer then (-1, []) else (6, mac_bytes (MacAddr d)))
      else if datatype = 1 then (uint (wfc_number_of_configs d), [])
      else (uint (rssi d), []))"

definition Wifi_DisableWifi :: "Wifi_MainStruct \<Rightarrow> Wifi_MainStruct" where
  "Wifi_DisableWifi d = d\<lparr>reqMode := WIFIMODE_DISABLED\<rparr>"

definition Wifi_EnableWifi :: "Wifi_MainStruct \<Rightarrow> Wifi_MainStruct" where
  "Wifi_EnableWifi d = d\<lparr>reqMode := WIFIMODE_NORMAL\<rparr>"

definition Wifi_SetPromiscuousMode :: "bool \<Rightarrow> Wifi_MainStruct \<Rightarrow> Wifi_MainStruct" where
  "Wifi_SetPromiscuousMode enable d =
     d\<lparr>reqFlags := (if enable then reqFlags d OR WFLAG_REQ_PROMISC else reqFlags d AND NOT WFLAG_REQ_PROMISC)\<rparr>"

definition WSCAN_LIST_AP_ALL :: u8 where "WSCAN_LIST_AP_ALL = 3"
definition WSCAN_LIST_NDS_HOSTS :: u8 where "WSCAN_LIST_NDS_HOSTS = 4"

definition Wifi_ScanModeFilter :: "u8 \<Rightarrow> Wifi_MainStruct \<Rightarrow> Wifi_MainStruct" where
  "Wifi_ScanModeFilter flags d = d\<lparr>reqApScanFlags := flags, reqMode := WIFIMODE_SCAN\<rparr>"

definition Wifi_ScanMode :: "Wifi_MainStruct \<Rightarrow> Wifi_MainStruct" where
  "Wifi_ScanMode d =
     (if curLibraryMode d = DSWIFI_MULTIPLAYER_CLIENT then Wifi_ScanModeFilter WSCAN_LIST_NDS_HOSTS d
      else if curLibraryMode d = DSWIFI_INTERNET then Wifi_ScanModeFilter WSCAN_LIST_AP_ALL d
      else d)"

definition Wifi_IdleMode :: "Wifi_MainStruct \<Rightarrow> Wifi_MainStruct" where
  "Wifi_IdleMode d = d\<lparr>reqMode := WIFIMODE_NORMAL\<rparr>"

definition Wifi_LibraryModeReady :: "Wifi_MainStruct \<Rightarrow> bool" where
  "Wifi_LibraryModeReady d \<longleftrightarrow> curLibraryMode d = reqLibraryMode d"

text \<open>Sizes are \<open>size_t\<close>: the sums wrap around at 32 bits. \<^const>\<open>False\<close> is the result -1.\<close>

definition reply_size :: "nat \<Rightarrow> nat" where
  "reply_size n = u32_add n (HDR_DATA_MAC_SIZE + 1 + 4)"

definition cmd_size :: "nat \<Rightarrow> nat" where
  "cmd_size n = u32_add n (HDR_DATA_MAC_SIZE + 2 + 2 + 4)"

definition Wifi_MultiplayerClientMode :: "nat \<Rightarrow> Wifi_MainStruct \<Rightarrow> bool \<times> Wifi_MainStruct" where
  "Wifi_MultiplayerClientMode client_packet_size d =
     (let client_size = reply_size client_packet_size in
      if client_size > MAC_CLIENT_RX_SIZE then (False, d)
      else (True, d\<lparr>reqLibraryMode := DSWIFI_MULTIPLAYER_CLIENT, reqMode := WIFIMODE_NORMAL,
                    reqReplyDataSize := of_nat client_size\<rparr>))"

definition Wifi_MultiplayerHostMode :: "int \<Rightarrow> nat \<Rightarrow> nat \<Rightarrow> Wifi_MainStruct \<Rightarrow> bool \<times> Wifi_MainStruct" where
  "Wifi_MultiplayerHostMode max_clients host_packet_size client_packet_size d =
     (let max_clients = (if max_clients > int WIFI_MAX_MULTIPLAYER_CLIENTS
                         then int WIFI_MAX_MULTIPLAYER_CLIENTS else max_clients);
          max_clients = (if max_clients < 1 then 1 else max_clients);
          host_size = cmd_size host_packet_size;
          client_size = reply_size client_packet_size
      in if client_size > MAC_CLIENT_RX_SIZE then (False, d)
         else if u32_add HDR_TX_SIZE host_size > MAC_CMDBUF_SIZE then (False, d)
         else (True, d\<lparr>reqLibraryMode := DSWIFI_MULTIPLAYER_HOST, reqMaxClients := of_int max_clients,
                       reqCmdDataSize := of_nat host_size, reqReplyDataSize := of_nat client_size,
                       reqMode := WIFIMODE_ACCESSPOINT, reqFlags := reqFlags d OR WFLAG_REQ_ALLOWCLIENTS\<rparr>))"

definition Wifi_MultiplayerAllowNewClients :: "bool \<Rightarrow> Wifi_MainStruct \<Rightarrow> Wifi_MainStruct" where
  "Wifi_MultiplayerAllowNewClients allow d =
     d\<lparr>reqFlags := (if allow then reqFlags d OR WFLAG_REQ_ALLOWCLIENTS
                    else reqFlags d AND NOT WFLAG_REQ_ALLOWCLIENTS)\<rparr>"

definition Wifi_MultiplayerHostName :: "u16 list \<Rightarrow> u8 \<Rightarrow> Wifi_MainStruct \<Rightarrow> Wifi_MainStruct" where
  "Wifi_MultiplayerHostName buffer len d =
     d\<lparr>hostPlayerNameLen := len, hostPlayerName := take 10 buffer\<rparr>"

definition DSWIFI_BEACON_GAME_DATA_MAX :: nat where "DSWIFI_BEACON_GAME_DATA_MAX = 16"

definition Wifi_MultiplayerHostGameData :: "u8 list option \<Rightarrow> nat \<Rightarrow> Wifi_MainStruct \<Rightarrow> bool \<times> Wifi_MainStruct" where
  "Wifi_MultiplayerHostGameData data n d =
     (if n > DSWIFI_BEACON_GAME_DATA_MAX then (False, d)
      else if n > 0 \<and> data = None then (False, d)
      else (True, d\<lparr>hostGameDataLen := of_nat n,
                    hostGameData := (case data of Some bs \<Rightarrow> take n bs @ drop n (hostGameData d)
                                      | None \<Rightarrow> hostGameData d)\<rparr>))"

definition Wifi_SetChannel :: "int \<Rightarrow> Wifi_MainStruct \<Rightarrow> Wifi_MainStruct" where
  "Wifi_SetChannel channel d =
     (if channel < 1 \<or> channel > 13 then d else d\<lparr>reqChannel := of_int channel\<rparr>)"

section \<open>Which sizes are accepted\<close>

lemma u32_add_cases: "a < 4294967296 \<Longrightarrow> b < 4294967296 \<Longrightarrow>
    u32_add a b = (if a + b < 4294967296 then a + b else a + b - 4294967296)"
  by (simp add: u32_add_def mod_if)

lemma HostMode_accepts:
  assumes "hs < 4000000000" "cs < 4000000000"
  shows "fst (Wifi_MultiplayerHostMode mc hs cs d) \<longleftrightarrow> hs \<le> 724 \<and> cs \<le> 227"
proof -
  have "cmd_size hs = hs + 32" "reply_size cs = cs + 29" "u32_add HDR_TX_SIZE (hs + 32) = 12 + (hs + 32)"
    using assms by (simp_all add: cmd_size_def reply_size_def HDR_DATA_MAC_SIZE_def HDR_TX_SIZE_def)
  then show ?thesis by (auto simp: Wifi_MultiplayerHostMode_def Let_def mac_map)
qed

lemma ClientMode_accepts:
  assumes "cs < 4000000000"
  shows "fst (Wifi_MultiplayerClientMode cs d) \<longleftrightarrow> cs \<le> 227"
proof -
  have "reply_size cs = cs + 29" using assms by (simp add: reply_size_def HDR_DATA_MAC_SIZE_def)
  then show ?thesis by (auto simp: Wifi_MultiplayerClientMode_def Let_def mac_map)
qed

end
