(* ===== verification/Tx_Frames.thy ===== *)
theory Tx_Frames
  imports Arm9_Ipc
begin

text \<open>
  The ARM9 end of the transmit buffer (source/arm9/ntr/rx_tx_queue.c): each kind of frame is
  built behind a hardware header, queued with room for the frame check sequence the hardware
  computes, and tagged in its status word with the buffer it has to be sent from.
\<close>

section \<open>Headers\<close>

definition WIFI_TRANSFER_RATE_2MBPS :: u16 where "WIFI_TRANSFER_RATE_2MBPS = 0x14"

definition FC_TO_DS :: u16 where "FC_TO_DS = 0x0100"
definition FC_FROM_DS :: u16 where "FC_FROM_DS = 0x0200"
definition FC_TYPE_SUBTYPE_MASK :: u16 where "FC_TYPE_SUBTYPE_MASK = 0x00FC"
definition TYPE_DATA :: u16 where "TYPE_DATA = 0x08"
definition TYPE_DATA_CF_ACK :: u16 where "TYPE_DATA_CF_ACK = 0x18"
definition TYPE_DATA_CF_POLL :: u16 where "TYPE_DATA_CF_POLL = 0x28"

lemmas fc_defs = FC_TO_DS_def FC_FROM_DS_def FC_TYPE_SUBTYPE_MASK_def TYPE_DATA_def
  TYPE_DATA_CF_ACK_def TYPE_DATA_CF_POLL_def

text \<open>\<open>Wifi_TxHeader\<close>, all zero but the rate and the length.\<close>

definition tx_header :: "u16 \<Rightarrow> u16 \<Rightarrow> u8 list" where
  "tx_header rate tx_length =
     le16 0 @ le16 0 @ le16 0 @ le16 0 @ le16 rate @ le16 tx_length"

text \<open>\<open>IEEE_DataFrameHeader\<close>: the duration and the sequence number are left at zero.\<close>

definition ieee_header :: "u16 \<Rightarrow> mac \<Rightarrow> mac \<Rightarrow> mac \<Rightarrow> u8 list" where
  "ieee_header frame_control addr_1 addr_2 addr_3 =
     le16 frame_control @ le16 0 @ mac_bytes addr_1 @ mac_bytes addr_2 @ mac_bytes addr_3 @ le16 0"

lemma length_tx_header [simp]: "length (tx_header r l) = 12"
  by (simp add: tx_header_def)

lemma length_ieee_header [simp]: "length (ieee_header fc a b c) = 24"
  by (simp add: ieee_header_def)

section \<open>Queueing\<close>

definition Wifi_TxBufferAllocBuffer :: "ring \<Rightarrow> nat \<Rightarrow> (ring \<times> nat) option" where
  "Wifi_TxBufferAllocBuffer = ring_alloc WIFI_TXBUFFER_SIZE"

text \<open>
  The part every transmit function shares. The header is built from the value of
  \<open>tx_length\<close>, the size of the frame without the hardware header. \<^const>\<open>False\<close> is the result -1.
\<close>

definition tx_queue_frame ::
  "(u16 \<Rightarrow> u8 list) \<Rightarrow> nat \<Rightarrow> u32 \<Rightarrow> u8 list \<Rightarrow> Wifi_MainStruct \<Rightarrow> bool \<times> Wifi_MainStruct" where
  "tx_queue_frame header header_size kind payload d =
     (let frame_size = u32_add (u32_add header_size (length payload)) 4;
          total_size = u32_add (u32_add 4 (round_up_32 frame_size)) 4
      in case Wifi_TxBufferAllocBuffer (txbuf d) total_size of
           None \<Rightarrow> (False, stat_add WSTAT_TXQUEUEDREJECTED 1 d)
         | Some (r, idx) \<Rightarrow>
             let frame = header (of_nat (frame_size - HDR_TX_SIZE)) @ payload;
                 r' = ring_store r idx frame frame_size (of_nat frame_size OR kind)
             in (True, stat_add WSTAT_TXQUEUEDBYTES (length payload)
                         (stat_add WSTAT_TXQUEUEDPACKETS 1 (d\<lparr>txbuf := r'\<rparr>))))"

definition Wifi_RawTxFrame :: "u16 \<Rightarrow> u8 list \<Rightarrow> Wifi_MainStruct \<Rightarrow> bool \<times> Wifi_MainStruct" where
  "Wifi_RawTxFrame rate payload d =
     tx_queue_frame (\<lambda>len. tx_header rate len) 12 WFLAG_SEND_AS_DATA payload d"

definition Wifi_MultiplayerHostCmdTxFrame ::
  "u8 list \<Rightarrow> Wifi_MainStruct \<Rightarrow> bool \<times> Wifi_MainStruct" where
  "Wifi_MultiplayerHostCmdTxFrame payload d =
     tx_queue_frame
       (\<lambda>len. tx_header WIFI_TRANSFER_RATE_2MBPS len
              @ ieee_header (TYPE_DATA_CF_POLL OR FC_FROM_DS) wifi_cmd_mac (MacAddr d) (MacAddr d)
              @ le16 0 @ le16 0)
       40 WFLAG_SEND_AS_CMD payload d"

definition Wifi_MultiplayerClientReplyTxFrame ::
  "u8 list \<Rightarrow> Wifi_MainStruct \<Rightarrow> bool \<times> Wifi_MainStruct" where
  "Wifi_MultiplayerClientReplyTxFrame payload d =
     tx_queue_frame
       (\<lambda>len. tx_header WIFI_TRANSFER_RATE_2MBPS len
              @ ieee_header (TYPE_DATA_CF_ACK OR FC_TO_DS) (curAp_bssid d) (MacAddr d) wifi_reply_mac
              @ [curClientAID (clients d), 0])
       38 WFLAG_SEND_AS_REPLY payload d"

text \<open>
  \<open>Wifi_MultiplayerClientGetMacFromAID\<close> (source/arm9/ntr/multiplayer.c). \<open>None\<close> is the
  result false; the lock is released on every path, so it does not show in the state.
\<close>

definition Wifi_MultiplayerClientGetMacFromAID :: "int \<Rightarrow> Wifi_MainStruct \<Rightarrow> mac option" where
  "Wifi_MultiplayerClientGetMacFromAID aid d =
     (if aid < 1 then None
      else if aid > uint (curMaxClients d) then None
      else let client = clients_list (clients d) ! nat (aid - 1) in
           if cl_state client = WIFI_CLIENT_ASSOCIATED then Some (cl_macaddr client) else None)"

definition Wifi_MultiplayerHostToClientDataTxFrame ::
  "int \<Rightarrow> u8 list \<Rightarrow> Wifi_MainStruct \<Rightarrow> bool \<times> Wifi_MainStruct" where
  "Wifi_MultiplayerHostToClientDataTxFrame aid payload d =
     (case Wifi_MultiplayerClientGetMacFromAID aid d of
        None \<Rightarrow> (False, d)
      | Some client_macaddr \<Rightarrow>
          tx_queue_frame
            (\<lambda>len. tx_header WIFI_TRANSFER_RATE_2MBPS len
                   @ ieee_header (TYPE_DATA OR FC_FROM_DS) client_macaddr (MacAddr d) (MacAddr d))
            36 WFLAG_SEND_AS_DATA payload d)"

definition Wifi_MultiplayerClientToHostDataTxFrame ::
  "u8 list \<Rightarrow> Wifi_MainStruct \<Rightarrow> bool \<times> Wifi_MainStruct" where
  "Wifi_MultiplayerClientToHostDataTxFrame payload d =
     tx_queue_frame
       (\<lambda>len. tx_header WIFI_TRANSFER_RATE_2MBPS len
              @ ieee_header (TYPE_DATA OR FC_TO_DS) (curAp_bssid d) (MacAddr d) (curAp_bssid d)
              @ [curClientAID (clients d), 0])
       38 WFLAG_SEND_AS_DATA payload d"

section \<open>The transmit queue\<close>

definition tx_size :: "u32 \<Rightarrow> nat" where
  "tx_size st = unat (st AND WFLAG_SEND_SIZE_MASK)"

lemma WIFI_TXBUFFER_small: "WIFI_TXBUFFER_SIZE < 0x10000000"
  by (simp add: WIFI_TXBUFFER_SIZE_def)

definition tx_holds :: "Wifi_MainStruct \<Rightarrow> packet list \<Rightarrow> bool" where
  "tx_holds d ps \<longleftrightarrow> ring_holds tx_size WIFI_TXBUFFER_SIZE (txbuf d) ps"

lemma tx_holds_cleared: "tx_holds cleared []"
  by (simp add: tx_holds_def ring_holds_def cleared_def read_u32_def of_le32_def WIFI_TXBUFFER_SIZE_def)

text \<open>The kinds a frame is tagged with leave the size readable.\<close>

definition send_kind :: "u32 \<Rightarrow> bool" where
  "send_kind k \<longleftrightarrow> k \<in> {WFLAG_SEND_AS_DATA, WFLAG_SEND_AS_BEACON, WFLAG_SEND_AS_CMD, WFLAG_SEND_AS_REPLY}"

lemma tx_size_tagged:
  assumes "send_kind k" and "n < 0x10000000"
  shows "tx_size (of_nat n OR k) = n" and "of_nat n OR k \<noteq> 0" and "of_nat n OR k \<noteq> WIFI_SIZE_WRAP"
proof -
  have small: "(of_nat n :: u32) AND WFLAG_SEND_SIZE_MASK = of_nat n"
  proof -
    have "take_bit 28 (of_nat n :: u32) = of_nat n"
      using assms(2) by (simp add: take_bit_of_nat take_bit_nat_eq_self)
    moreover have "WFLAG_SEND_SIZE_MASK = mask 28" by (simp add: WFLAG_SEND_SIZE_MASK_def mask_eq_exp_minus_1)
    ultimately show ?thesis by (simp add: take_bit_eq_mask)
  qed
  have kz: "k AND WFLAG_SEND_SIZE_MASK = 0"
    using assms(1) by (auto simp: send_kind_def WFLAG_SEND_AS_DATA_def WFLAG_SEND_AS_BEACON_def
        WFLAG_SEND_AS_CMD_def WFLAG_SEND_AS_REPLY_def WFLAG_SEND_SIZE_MASK_def)
  have size: "(of_nat n OR k) AND WFLAG_SEND_SIZE_MASK = of_nat n"
    by (simp add: bit.conj_disj_distrib2 small kz)
  show "tx_size (of_nat n OR k) = n"
    using assms(2) by (simp add: tx_size_def size unat_of_nat)
  show "of_nat n OR k \<noteq> 0"
    using assms(1) by (auto simp: send_kind_def or_eq_0_iff WFLAG_SEND_AS_DATA_def
        WFLAG_SEND_AS_BEACON_def WFLAG_SEND_AS_CMD_def WFLAG_SEND_AS_REPLY_def)
  let ?top = "0xF0000000 :: u32"
  have "(of_nat n :: u32) AND ?top = (of_nat n AND WFLAG_SEND_SIZE_MASK) AND ?top" by (simp add: small)
  also have "\<dots> = 0" by (simp add: WFLAG_SEND_SIZE_MASK_def and.assoc)
  finally have "(of_nat n OR k) AND ?top = k AND ?top" by (simp add: bit.conj_disj_distrib2)
  moreover have "k AND ?top \<noteq> WIFI_SIZE_WRAP AND ?top"
    using assms(1) by (auto simp: send_kind_def WFLAG_SEND_AS_DATA_def WFLAG_SEND_AS_BEACON_def
        WFLAG_SEND_AS_CMD_def WFLAG_SEND_AS_REPLY_def WIFI_SIZE_WRAP_def)
  ultimately show "of_nat n OR k \<noteq> WIFI_SIZE_WRAP" by auto
qed


section \<open>Queueing appends\<close>

lemma tx_queue_frame_push:
  "tx_queue_frame header hs kind payload d =
     (let fs = u32_add (u32_add hs (length payload)) 4 in
      case ring_push WIFI_TXBUFFER_SIZE (txbuf d)
             (header (of_nat (fs - HDR_TX_SIZE)) @ payload) fs (of_nat fs OR kind) of
        None \<Rightarrow> (False, stat_add WSTAT_TXQUEUEDREJECTED 1 d)
      | Some r' \<Rightarrow> (True, stat_add WSTAT_TXQUEUEDBYTES (length payload)
                       (stat_add WSTAT_TXQUEUEDPACKETS 1 (d\<lparr>txbuf := r'\<rparr>))))"
  by (simp add: tx_queue_frame_def Wifi_TxBufferAllocBuffer_def ring_push_def Let_def
      split: option.splits)

text \<open>
  \<open>queued d d' ps p\<close>: the call was refused and only the counter of refusals moved, or it was
  accepted and the queue has one packet more, the rest of the shared state but the counters
  being as it was.
\<close>

definition tx_refused :: "Wifi_MainStruct \<Rightarrow> Wifi_MainStruct \<Rightarrow> bool" where
  "tx_refused d d' \<longleftrightarrow> d' = stat_add WSTAT_TXQUEUEDREJECTED 1 d"

definition tx_accepted ::
  "Wifi_MainStruct \<Rightarrow> Wifi_MainStruct \<Rightarrow> packet list \<Rightarrow> u32 \<Rightarrow> u8 list \<Rightarrow> nat \<Rightarrow> bool" where
  "tx_accepted d d' ps kind frame n \<longleftrightarrow>
     (\<exists>fcs r'. length fcs = 4
        \<and> tx_holds d' (ps @ [(of_nat (length frame + 4) OR kind, frame @ fcs)])
        \<and> d' = stat_add WSTAT_TXQUEUEDBYTES n (stat_add WSTAT_TXQUEUEDPACKETS 1 (d\<lparr>txbuf := r'\<rparr>)))"

lemma tx_push_spec:
  assumes holds: "tx_holds d ps" and k: "send_kind kind" and len: "length frame + 4 = fs"
    and small: "fs < 0x10000000"
    and push: "ring_push WIFI_TXBUFFER_SIZE (txbuf d) frame fs (of_nat fs OR kind) = Some r'"
  shows "\<exists>fcs. length fcs = 4
    \<and> ring_holds tx_size WIFI_TXBUFFER_SIZE r' (ps @ [(of_nat fs OR kind, frame @ fcs)])"
proof -
  have ok: "pkt_ok tx_size fs (of_nat fs OR kind)"
    using tx_size_tagged [OF k small] small by (simp add: pkt_ok_def)
  have le: "length frame \<le> (fs + 3) div 4 * 4" using len by presburger
  obtain fcs where
    f: "ring_holds tx_size WIFI_TXBUFFER_SIZE r' (ps @ [(of_nat fs OR kind, take fs frame @ fcs)])"
    "length (take fs frame @ fcs) = fs"
    using ring_push_refines [OF holds [unfolded tx_holds_def] WIFI_TXBUFFER_small le ok push] by blast
  have "take fs frame = frame" using len by simp
  note f = f [unfolded this]
  from f(2) len have "length fcs = 4" by simp
  with f(1) show ?thesis by blast
qed

lemma tx_queue_frame_spec:
  fixes ihs :: nat
  assumes holds: "tx_holds d ps" and hs: "\<And>l. length (header l) = hs" and k: "send_kind kind"
    and ihs: "hs = ihs + 8" and small: "hs + length payload + 4 < 0x10000000"
    and call: "tx_queue_frame header hs kind payload d = (ok, d')"
  shows "if ok then tx_accepted d d' ps kind
             (header (of_nat (length payload + ihs)) @ payload) (length payload)
         else tx_refused d d'"
proof -
  let ?fs = "hs + length payload + 4"
  let ?frame = "header (of_nat (length payload + ihs)) @ payload"
  have hdr: "?fs - HDR_TX_SIZE = length payload + ihs" by (simp add: ihs HDR_TX_SIZE_def)
  have fs: "u32_add (u32_add hs (length payload)) 4 = ?fs" using small by simp
  show ?thesis
  proof (cases "ring_push WIFI_TXBUFFER_SIZE (txbuf d) ?frame ?fs (of_nat ?fs OR kind)")
    case None
    then show ?thesis
      using call unfolding tx_queue_frame_push fs Let_def hdr by (auto simp: tx_refused_def)
  next
    case (Some r')
    with call have ok: "ok" and d': "d' = stat_add WSTAT_TXQUEUEDBYTES (length payload)
        (stat_add WSTAT_TXQUEUEDPACKETS 1 (d\<lparr>txbuf := r'\<rparr>))"
      unfolding tx_queue_frame_push fs Let_def hdr by auto
    have "length ?frame + 4 = ?fs" by (simp add: hs)
    from tx_push_spec [OF holds k this small Some] obtain fcs where f: "length fcs = 4"
      "ring_holds tx_size WIFI_TXBUFFER_SIZE r' (ps @ [(of_nat ?fs OR kind, ?frame @ fcs)])" by blast
    with ok d' show ?thesis
      by (auto simp: tx_accepted_def tx_holds_def hs intro!: exI [of _ fcs])
  qed
qed

text \<open>The calls the ARM9 makes on the transmit queue, as values.\<close>

datatype tx_call =
    RawTx u16 "u8 list"
  | HostCmdTx "u8 list"
  | ClientReplyTx "u8 list"
  | HostToClientTx int "u8 list"
  | ClientToHostTx "u8 list"

fun tx_do :: "tx_call \<Rightarrow> Wifi_MainStruct \<Rightarrow> bool \<times> Wifi_MainStruct" where
  "tx_do (RawTx rate bs) d = Wifi_RawTxFrame rate bs d"
| "tx_do (HostCmdTx bs) d = Wifi_MultiplayerHostCmdTxFrame bs d"
| "tx_do (ClientReplyTx bs) d = Wifi_MultiplayerClientReplyTxFrame bs d"
| "tx_do (HostToClientTx aid bs) d = Wifi_MultiplayerHostToClientDataTxFrame aid bs d"
| "tx_do (ClientToHostTx bs) d = Wifi_MultiplayerClientToHostDataTxFrame bs d"

fun tx_payload :: "tx_call \<Rightarrow> u8 list" where
  "tx_payload (RawTx rate bs) = bs"
| "tx_payload (HostCmdTx bs) = bs"
| "tx_payload (ClientReplyTx bs) = bs"
| "tx_payload (HostToClientTx aid bs) = bs"
| "tx_payload (ClientToHostTx bs) = bs"

text \<open>What each call must leave in the queue: the tag and the bytes before the check sequence.\<close>

fun tx_frame :: "Wifi_MainStruct \<Rightarrow> tx_call \<Rightarrow> (u32 \<times> u8 list) option" where
  "tx_frame d (RawTx rate bs) =
     Some (WFLAG_SEND_AS_DATA, tx_header rate (of_nat (length bs + 4)) @ bs)"
| "tx_frame d (HostCmdTx bs) =
     Some (WFLAG_SEND_AS_CMD, tx_header WIFI_TRANSFER_RATE_2MBPS (of_nat (length bs + 32))
       @ ieee_header 0x228 wifi_cmd_mac (MacAddr d) (MacAddr d) @ [0, 0, 0, 0] @ bs)"
| "tx_frame d (ClientReplyTx bs) =
     Some (WFLAG_SEND_AS_REPLY, tx_header WIFI_TRANSFER_RATE_2MBPS (of_nat (length bs + 30))
       @ ieee_header 0x118 (curAp_bssid d) (MacAddr d) wifi_reply_mac
       @ [curClientAID (clients d), 0] @ bs)"
| "tx_frame d (HostToClientTx aid bs) =
     map_option (\<lambda>m. (WFLAG_SEND_AS_DATA, tx_header WIFI_TRANSFER_RATE_2MBPS (of_nat (length bs + 28))
       @ ieee_header 0x208 m (MacAddr d) (MacAddr d) @ bs))
       (Wifi_MultiplayerClientGetMacFromAID aid d)"
| "tx_frame d (ClientToHostTx bs) =
     Some (WFLAG_SEND_AS_DATA, tx_header WIFI_TRANSFER_RATE_2MBPS (of_nat (length bs + 30))
       @ ieee_header 0x108 (curAp_bssid d) (MacAddr d) (curAp_bssid d)
       @ [curClientAID (clients d), 0] @ bs)"

lemma send_kinds [simp]:
  "send_kind WFLAG_SEND_AS_DATA" "send_kind WFLAG_SEND_AS_BEACON"
  "send_kind WFLAG_SEND_AS_CMD" "send_kind WFLAG_SEND_AS_REPLY"
  by (simp_all add: send_kind_def)

lemma le16_0: "le16 0 = [0, 0]"
  by (simp add: le16_def)

lemma tx_do_spec:
  assumes "tx_holds d ps" and "length (tx_payload c) < 0x0FFFFF00" and "tx_do c d = (ok, d')"
  shows "case tx_frame d c of
      None \<Rightarrow> \<not> ok \<and> d' = d
    | Some (kind, frame) \<Rightarrow>
        if ok then tx_accepted d d' ps kind frame (length (tx_payload c)) else tx_refused d d'"
proof (cases c)
  case (RawTx rate bs)
  with assms(3) have call: "tx_queue_frame (\<lambda>l. tx_header rate l) 12 WFLAG_SEND_AS_DATA bs d = (ok, d')"
    by (simp add: Wifi_RawTxFrame_def)
  note spec = tx_queue_frame_spec [where ihs = 4, OF assms(1) _ _ _ _ call]
  show ?thesis
    unfolding RawTx tx_frame.simps tx_payload.simps option.case option.map prod.case append_assoc append.simps
    by (rule spec [simplified append_assoc append.simps]) (use assms(2) in \<open>simp_all add: RawTx\<close>)
next
  case (HostCmdTx bs)
  with assms(3) have call: "tx_queue_frame (\<lambda>len. tx_header WIFI_TRANSFER_RATE_2MBPS len
      @ ieee_header 0x228 wifi_cmd_mac (MacAddr d) (MacAddr d) @ [0, 0, 0, 0])
      40 WFLAG_SEND_AS_CMD bs d = (ok, d')"
    by (simp add: Wifi_MultiplayerHostCmdTxFrame_def le16_0 fc_defs)
  note spec = tx_queue_frame_spec [where ihs = 32, OF assms(1) _ _ _ _ call]
  show ?thesis
    unfolding HostCmdTx tx_frame.simps tx_payload.simps option.case option.map prod.case append_assoc append.simps
    by (rule spec [simplified append_assoc append.simps]) (use assms(2) in \<open>simp_all add: HostCmdTx\<close>)
next
  case (ClientReplyTx bs)
  with assms(3) have call: "tx_queue_frame (\<lambda>len. tx_header WIFI_TRANSFER_RATE_2MBPS len
      @ ieee_header 0x118 (curAp_bssid d) (MacAddr d) wifi_reply_mac @ [curClientAID (clients d), 0])
      38 WFLAG_SEND_AS_REPLY bs d = (ok, d')"
    by (simp add: Wifi_MultiplayerClientReplyTxFrame_def fc_defs)
  note spec = tx_queue_frame_spec [where ihs = 30, OF assms(1) _ _ _ _ call]
  show ?thesis
    unfolding ClientReplyTx tx_frame.simps tx_payload.simps option.case option.map prod.case append_assoc append.simps
    by (rule spec [simplified append_assoc append.simps]) (use assms(2) in \<open>simp_all add: ClientReplyTx\<close>)
next
  case (HostToClientTx aid bs)
  show ?thesis
  proof (cases "Wifi_MultiplayerClientGetMacFromAID aid d")
    case None
    with HostToClientTx assms show ?thesis
      by (simp add: Wifi_MultiplayerHostToClientDataTxFrame_def)
  next
    case (Some m)
    with HostToClientTx assms(3) have call: "tx_queue_frame
        (\<lambda>len. tx_header WIFI_TRANSFER_RATE_2MBPS len @ ieee_header 0x208 m (MacAddr d) (MacAddr d))
        36 WFLAG_SEND_AS_DATA bs d = (ok, d')"
      by (simp add: Wifi_MultiplayerHostToClientDataTxFrame_def fc_defs)
    note spec = tx_queue_frame_spec [where ihs = 28, OF assms(1) _ _ _ _ call]
    show ?thesis
      unfolding HostToClientTx Some tx_frame.simps tx_payload.simps option.case option.map prod.case append_assoc append.simps
      by (rule spec [simplified append_assoc append.simps]) (use assms(2) in \<open>simp_all add: HostToClientTx Some\<close>)
  qed
next
  case (ClientToHostTx bs)
  with assms(3) have call: "tx_queue_frame (\<lambda>len. tx_header WIFI_TRANSFER_RATE_2MBPS len
      @ ieee_header 0x108 (curAp_bssid d) (MacAddr d) (curAp_bssid d) @ [curClientAID (clients d), 0])
      38 WFLAG_SEND_AS_DATA bs d = (ok, d')"
    by (simp add: Wifi_MultiplayerClientToHostDataTxFrame_def fc_defs)
  note spec = tx_queue_frame_spec [where ihs = 30, OF assms(1) _ _ _ _ call]
  show ?thesis
    unfolding ClientToHostTx tx_frame.simps tx_payload.simps option.case option.map prod.case append_assoc append.simps
    by (rule spec [simplified append_assoc append.simps]) (use assms(2) in \<open>simp_all add: ClientToHostTx\<close>)
qed


text \<open>
  C8. Whatever the ARM9 sends: a call is refused and nothing but the refusal is counted, or
  exactly one packet is appended to the queue, tagged with the right buffer, holding the header
  the call has to build, the payload, and four bytes for the check sequence; and a call on an
  unassociated client is refused without any effect.
\<close>

theorem tx_do_queued:
  assumes "tx_holds d ps" and "length (tx_payload c) < 0x0FFFFF00" and "tx_do c d = (ok, d')"
  shows "case tx_frame d c of
      None \<Rightarrow> \<not> ok \<and> d' = d
    | Some (kind, frame) \<Rightarrow>
        if ok then tx_accepted d d' ps kind frame (length (tx_payload c)) else tx_refused d d'"
  using assms by (rule tx_do_spec)

lemma tx_do_queued_witness:
  "\<exists>d'. tx_do (RawTx 20 [1, 2, 3]) cleared = (True, d')
    \<and> tx_accepted cleared d' [] WFLAG_SEND_AS_DATA (tx_header 20 7 @ [1, 2, 3]) 3"
proof -
  obtain ok d' where c: "tx_do (RawTx 20 [1, 2, 3]) cleared = (ok, d')" by fastforce
  then have "ok"
    by (auto simp: Wifi_RawTxFrame_def tx_queue_frame_def Wifi_TxBufferAllocBuffer_def ring_alloc_def
        cleared_def WIFI_TXBUFFER_SIZE_def Let_def split: option.splits)
  with tx_do_queued [OF tx_holds_cleared _ c] c show ?thesis by (simp add: numeral_3_eq_3)
qed


section \<open>The queue, as the interface\<close>

definition tx_take :: "Wifi_MainStruct \<Rightarrow> (packet \<times> Wifi_MainStruct) option" where
  "tx_take d = map_option (\<lambda>(p, r). (p, d\<lparr>txbuf := r\<rparr>)) (ring_get tx_size (txbuf d))"

text \<open>A packet carries a call if the payload is in it, between its headers and the check sequence.\<close>

definition tx_carries :: "tx_call \<Rightarrow> packet \<Rightarrow> bool" where
  "tx_carries c p \<longleftrightarrow> (\<exists>hdr fcs. snd p = hdr @ tx_payload c @ fcs \<and> length fcs = 4 \<and> 12 \<le> length hdr)"

definition tx_valid :: "tx_call \<Rightarrow> bool" where
  "tx_valid c \<longleftrightarrow> length (tx_payload c) < 0x0FFFFF00"

lemma tx_frame_payload:
  "tx_frame d c = Some (k, f) \<Longrightarrow> \<exists>hdr. f = hdr @ tx_payload c \<and> 12 \<le> length hdr"
proof (cases c)
  case (RawTx rate bs)
  assume "tx_frame d c = Some (k, f)"
  with RawTx show ?thesis by auto
qed (auto simp flip: append_assoc; fastforce)+


interpretation txq: packet_queue tx_holds tx_take tx_do tx_carries tx_valid
proof unfold_locales
  fix d
  assume "tx_holds d []"
  then have "ring_get tx_size (txbuf d) = None"
    using ring_get_refines [OF _ WIFI_TXBUFFER_small, of tx_size "txbuf d" "[]"] by (simp add: tx_holds_def)
  then show "tx_take d = None" by (simp add: tx_take_def)
next
  fix d p ps
  assume "tx_holds d (p # ps)"
  then obtain r where "ring_get tx_size (txbuf d) = Some (p, r)" "ring_holds tx_size WIFI_TXBUFFER_SIZE r ps"
    using ring_get_refines [OF _ WIFI_TXBUFFER_small, of tx_size "txbuf d" "p # ps"] by (auto simp: tx_holds_def)
  then show "\<exists>d'. tx_take d = Some (p, d') \<and> tx_holds d' ps" by (simp add: tx_take_def tx_holds_def)
next
  fix d ps c d'
  assume a: "tx_holds d ps" "tx_valid c" "tx_do c d = (True, d')"
  from tx_do_spec [OF a(1) _ a(3)] a(2) obtain k f where f: "tx_frame d c = Some (k, f)"
    "tx_accepted d d' ps k f (length (tx_payload c))"
    by (auto simp: tx_valid_def split: option.splits)
  from tx_frame_payload [OF f(1)] obtain hdr where hdr: "f = hdr @ tx_payload c" "12 \<le> length hdr" by auto
  from f(2) obtain fcs where "length fcs = 4"
    "tx_holds d' (ps @ [(of_nat (length f + 4) OR k, f @ fcs)])"
    by (auto simp: tx_accepted_def)
  with hdr show "\<exists>p. tx_carries c p \<and> tx_holds d' (ps @ [p])"
    by (intro exI [of _ "(of_nat (length f + 4) OR k, f @ fcs)"]) (auto simp: tx_carries_def)
next
  fix d ps c d'
  assume a: "tx_holds d ps" "tx_valid c" "tx_do c d = (False, d')"
  with tx_do_spec [OF a(1) _ a(3)] show "tx_holds d' ps"
    by (auto simp: tx_valid_def tx_refused_def tx_holds_def split: option.splits)
qed




end
