(* ===== verification/Arm7_State.thy ===== *)
theory Arm7_State
  imports Tx_Frames
begin

text \<open>
  The state of the ARM7 core in NTR mode: the shared structure, the RAM and the registers of the
  MAC that the modelled code uses, and the static variables of source/arm7/ntr/tx_queue.c and
  source/arm7/ntr/beacon.c. Writes to the two request registers, which have an effect and no
  contents, are kept as logs, last write first, and so are the deauthentication frames handed
  to the management code. The accessors of the MAC RAM (source/arm7/ntr/mac.c) follow; that RAM
  can only be accessed in halfwords.
\<close>

section \<open>State\<close>

record arm7 =
  WifiData :: Wifi_MainStruct
  MACMEM :: mem
  W_TXBUSY :: u16
  W_TX_RETRYLIMIT :: u16
  W_TXBUF_LOC3 :: u16
  W_TXBUF_CMD :: u16
  W_TXBUF_REPLY1 :: u16
  W_TXBUF_REPLY2 :: u16
  W_TXBUF_BEACON :: u16
  W_TXBUF_TIM :: u16
  W_BEACONINT :: u16
  W_LISTENINT :: u16
  W_LISTENCOUNT :: u16
  W_CMD_TOTALTIME :: u16
  W_CMD_REPLYTIME :: u16
  W_CMD_COUNT :: u16
  W_TXREQ_SET :: "u16 list"
  W_TXREQ_RESET :: "u16 list"
  W_RXBUF_WRCSR :: nat
  W_RXBUF_READCSR :: nat
  wifi_tx_queue :: "u8 list"
  wifi_tx_queue_len :: nat
  wifi_keepalive_time :: nat
  beacon_channel_addr :: nat
  vendor_ie_addr :: nat
  beacon_extra_data_addr :: nat
  beacon_extra_data_size :: nat
  beacon_fragment_index :: nat
  beacon_fragment_generation :: u8
  sticky_patches :: "(u8 \<times> u8) list"
  beacon_allows_connections :: bool
  deauth_log :: "mac list"

definition upd_data :: "(Wifi_MainStruct \<Rightarrow> Wifi_MainStruct) \<Rightarrow> arm7 \<Rightarrow> arm7" where
  "upd_data f s = s\<lparr>WifiData := f (WifiData s)\<rparr>"

lemma upd_data_sel [simp]:
  "MACMEM (upd_data f s) = MACMEM s" "WifiData (upd_data f s) = f (WifiData s)"
  "W_TXBUF_REPLY2 (upd_data f s) = W_TXBUF_REPLY2 s" "W_TXREQ_SET (upd_data f s) = W_TXREQ_SET s"
  "W_TXBUSY (upd_data f s) = W_TXBUSY s" "wifi_tx_queue_len (upd_data f s) = wifi_tx_queue_len s"
  by (simp_all add: upd_data_def)

text \<open>The core when it starts: static variables and registers are zero, the RAM of the MAC is cleared.\<close>

definition arm7_start :: "Wifi_MainStruct \<Rightarrow> arm7" where
  "arm7_start d = \<lparr>WifiData = d, MACMEM = (\<lambda>_. 0), W_TXBUSY = 0, W_TX_RETRYLIMIT = 0, W_TXBUF_LOC3 = 0,
     W_TXBUF_CMD = 0, W_TXBUF_REPLY1 = 0, W_TXBUF_REPLY2 = 0, W_TXBUF_BEACON = 0, W_TXBUF_TIM = 0,
     W_BEACONINT = 0, W_LISTENINT = 0, W_LISTENCOUNT = 0, W_CMD_TOTALTIME = 0, W_CMD_REPLYTIME = 0,
     W_CMD_COUNT = 0, W_TXREQ_SET = [], W_TXREQ_RESET = [], W_RXBUF_WRCSR = 0, W_RXBUF_READCSR = 0,
     wifi_tx_queue = replicate 1024 0, wifi_tx_queue_len = 0, wifi_keepalive_time = 0,
     beacon_channel_addr = 0, vendor_ie_addr = 0, beacon_extra_data_addr = 0, beacon_extra_data_size = 0,
     beacon_fragment_index = 0, beacon_fragment_generation = 0, sticky_patches = [],
     beacon_allows_connections = False, deauth_log = []\<rparr>"

definition Wifi_NTR_KeepaliveCountReset :: "arm7 \<Rightarrow> arm7" where
  "Wifi_NTR_KeepaliveCountReset s = s\<lparr>wifi_keepalive_time := 0\<rparr>"

section \<open>The RAM of the MAC\<close>

text \<open>The receive area, from \<open>W_RXBUF_BEGIN\<close> to \<open>W_RXBUF_END\<close>, is circular.\<close>

definition MAC_RXBUF_START_OFFSET :: nat where "MAC_RXBUF_START_OFFSET = 0x0C00"
definition MAC_RXBUF_END_OFFSET :: nat where "MAC_RXBUF_END_OFFSET = 0x1F60"

definition mac_wrap :: "nat \<Rightarrow> nat" where
  "mac_wrap a = (if a \<ge> MAC_RXBUF_END_OFFSET
     then a - (MAC_RXBUF_END_OFFSET - MAC_RXBUF_START_OFFSET) else a)"

definition W_MACMEM :: "mem \<Rightarrow> nat \<Rightarrow> u16" where
  "W_MACMEM m a = of_le16 (m a) (m (a + 1))"

definition W_MACMEM_write :: "mem \<Rightarrow> nat \<Rightarrow> u16 \<Rightarrow> mem" where
  "W_MACMEM_write m a v = mem_write m a (le16 v)"

definition Wifi_MACReadHWord :: "mem \<Rightarrow> nat \<Rightarrow> nat \<Rightarrow> u16" where
  "Wifi_MACReadHWord m base off = W_MACMEM m (mac_wrap (base + off))"

text \<open>
  \<open>Wifi_MACRead\<close> reads whole halfwords, so one byte more than asked for when the length is odd;
  the address register goes back to the beginning of the receive area by itself.
\<close>

definition mac_autoinc :: "nat \<Rightarrow> nat" where
  "mac_autoinc a = (if a + 2 = MAC_RXBUF_END_OFFSET then MAC_RXBUF_START_OFFSET else a + 2)"

fun mac_read_hwords :: "mem \<Rightarrow> nat \<Rightarrow> nat \<Rightarrow> u8 list" where
  "mac_read_hwords m a 0 = []"
| "mac_read_hwords m a (Suc n) = m a # m (a + 1) # mac_read_hwords m (mac_autoinc a) n"

definition Wifi_MACRead :: "mem \<Rightarrow> nat \<Rightarrow> nat \<Rightarrow> nat \<Rightarrow> u8 list" where
  "Wifi_MACRead m base off len = mac_read_hwords m (mac_wrap (base + off)) ((len + 1) div 2)"

text \<open>\<open>src\<close> is everything from the source address on, as the transfer may read one byte more.\<close>

definition Wifi_MACWrite :: "u8 list \<Rightarrow> nat \<Rightarrow> nat \<Rightarrow> mem \<Rightarrow> mem" where
  "Wifi_MACWrite src base len m =
     (if base + len > 0x2000 then m else mem_write m base (take ((len + 1) div 2 * 2) src))"

definition Wifi_MacWriteByte :: "mem \<Rightarrow> nat \<Rightarrow> u16 \<Rightarrow> mem" where
  "Wifi_MacWriteByte m address v =
     (let addr = address mod 65536 div 2 * 2 in
      if odd address then W_MACMEM_write m addr ((W_MACMEM m addr AND 0x00FF) OR push_bit 8 v)
      else W_MACMEM_write m addr ((W_MACMEM m addr AND 0xFF00) OR v))"

definition Wifi_MacReadByte :: "mem \<Rightarrow> nat \<Rightarrow> u16" where
  "Wifi_MacReadByte m address =
     (let addr = address mod 65536 div 2 * 2 in
      if odd address then drop_bit 8 (W_MACMEM m addr) else W_MACMEM m addr AND 0xFF)"

fun mac_write_loop :: "mem \<Rightarrow> nat \<Rightarrow> u8 list \<Rightarrow> mem" where
  "mac_write_loop m address [] = m"
| "mac_write_loop m address [b] = Wifi_MacWriteByte m address (ucast b)"
| "mac_write_loop m address (b0 # b1 # bs) =
     mac_write_loop (W_MACMEM_write m address (ucast b0 OR push_bit 8 (ucast b1))) (address + 2) bs"

definition Wifi_MacWriteBytes :: "mem \<Rightarrow> nat \<Rightarrow> u8 list \<Rightarrow> mem" where
  "Wifi_MacWriteBytes m address src =
     (case src of
        [] \<Rightarrow> m
      | b # bs \<Rightarrow>
          if odd address
          then mac_write_loop (Wifi_MacWriteByte m address (ucast b)) (address + 1) bs
          else mac_write_loop m address src)"

section \<open>Byte accesses through halfwords\<close>

lemma bit_0x00FF: "bit (0x00FF :: u16) n \<longleftrightarrow> n < 8"
proof -
  have eq: "(0x00FF :: u16) = mask 8" by (simp add: mask_eq_exp_minus_1)
  show ?thesis unfolding eq by (auto simp: bit_mask_iff)
qed

lemma bit_0xFF00: "bit (0xFF00 :: u16) n \<longleftrightarrow> 8 \<le> n \<and> n < 16"
proof -
  have eq: "(0xFF00 :: u16) = push_bit 8 (mask 8)" by (simp add: push_bit_eq_mult mask_eq_exp_minus_1)
  show ?thesis unfolding eq by (auto simp: bit_mask_iff bit_push_bit_iff)
qed

lemmas halfword_bits = of_le16_def bit_unsigned_iff bit_or_iff bit_and_iff bit_push_bit_iff
  bit_drop_bit_eq o_def bit_0x00FF bit_0xFF00

lemma le16_set_low: "le16 ((of_le16 b0 b1 AND 0xFF00) OR ucast (b :: u8)) = [b, b1]"
proof -
  have "ucast ((of_le16 b0 b1 AND 0xFF00) OR ucast b :: u16) = b"
    by (rule bit_word_eqI, unfold halfword_bits) (auto dest: bit_imp_le_length)
  moreover have "ucast (drop_bit 8 ((of_le16 b0 b1 AND 0xFF00) OR ucast b :: u16)) = b1"
    by (rule bit_word_eqI, unfold halfword_bits) (auto dest: bit_imp_le_length)
  ultimately show ?thesis by (simp add: le16_def)
qed

lemma le16_set_high: "le16 ((of_le16 b0 b1 AND 0x00FF) OR push_bit 8 (ucast (b :: u8))) = [b0, b]"
proof -
  have "ucast ((of_le16 b0 b1 AND 0x00FF) OR push_bit 8 (ucast b) :: u16) = b0"
    by (rule bit_word_eqI, unfold halfword_bits) (auto dest: bit_imp_le_length)
  moreover have "ucast (drop_bit 8 ((of_le16 b0 b1 AND 0x00FF) OR push_bit 8 (ucast b) :: u16)) = b"
    by (rule bit_word_eqI, unfold halfword_bits) (auto dest: bit_imp_le_length)
  ultimately show ?thesis by (simp add: le16_def)
qed

lemma le16_join: "le16 (ucast b0 OR push_bit 8 (ucast b1)) = [b0, b1]"
proof -
  have "ucast (ucast b0 OR push_bit 8 (ucast b1) :: u16) = b0"
    by (rule bit_word_eqI) (auto simp: bit_simps dest: bit_imp_le_length)
  moreover have "ucast (drop_bit 8 (ucast b0 OR push_bit 8 (ucast b1) :: u16)) = b1"
    by (rule bit_word_eqI) (auto simp: bit_simps dest: bit_imp_le_length)
  ultimately show ?thesis by (simp add: le16_def)
qed

lemma MacWriteByte_eq:
  assumes "address < 65536"
  shows "Wifi_MacWriteByte m address (ucast b) = mem_write m address [b]"
proof (cases "odd address")
  case True
  then obtain k where k: "address = 2 * k + 1" by (auto elim: oddE)
  have "mem_write m (2 * k) [m (2 * k), b] = mem_write m (2 * k + 1) [b]"
    by (rule ext) (auto simp: mem_write_def less_Suc_eq)
  with assms k show ?thesis
    by (simp add: Wifi_MacWriteByte_def W_MACMEM_write_def W_MACMEM_def le16_set_high Let_def mult.commute)
next
  case False
  then obtain k where k: "address = 2 * k" by (auto elim: evenE)
  have "mem_write m (2 * k) [b, m (2 * k + 1)] = mem_write m (2 * k) [b]"
    by (rule ext) (auto simp: mem_write_def less_Suc_eq nth_Cons')
  with assms k show ?thesis
    by (simp add: Wifi_MacWriteByte_def W_MACMEM_write_def W_MACMEM_def le16_set_low Let_def mult.commute)
qed

lemma mem_write_Nil [simp]: "mem_write m a [] = m"
  by (rule ext) (auto simp: mem_write_def)

lemma mem_write_append:
  "mem_write (mem_write m a xs) (a + length xs) ys = mem_write m a (xs @ ys)"
  by (rule ext) (auto simp: mem_write_def nth_append)

lemma mac_write_loop_eq:
  "\<lbrakk>even a; a + length bs \<le> 65536\<rbrakk> \<Longrightarrow> mac_write_loop m a bs = mem_write m a bs"
proof (induction m a bs rule: mac_write_loop.induct)
  case (2 m a b)
  then show ?case by (simp add: MacWriteByte_eq)
next
  case (3 m a b0 b1 bs)
  have "mem_write (mem_write m a [b0, b1]) (a + 2) bs = mem_write m a ([b0, b1] @ bs)"
    using mem_write_append [of m a "[b0, b1]" bs] by simp
  with 3 show ?case by (simp add: W_MACMEM_write_def le16_join)
qed simp

lemma MacWriteBytes_eq:
  assumes "address + length src \<le> 65536"
  shows "Wifi_MacWriteBytes m address src = mem_write m address src"
proof (cases src)
  case (Cons b bs)
  show ?thesis
  proof (cases "odd address")
    case True
    have "mem_write (mem_write m address [b]) (address + 1) bs = mem_write m address (b # bs)"
      using mem_write_append [of m address "[b]" bs] by simp
    with True assms Cons show ?thesis
      by (simp add: Wifi_MacWriteBytes_def MacWriteByte_eq mac_write_loop_eq)
  qed (use assms Cons in \<open>simp add: Wifi_MacWriteBytes_def mac_write_loop_eq\<close>)
qed (simp add: Wifi_MacWriteBytes_def)

text \<open>
  C25. Copying bytes to the MAC RAM, which only takes halfwords, writes exactly the bytes it was
  given at the address it was given, whatever the parity of the address and of the length: the
  neighbours that share a halfword with the first or the last byte keep their value.
\<close>

theorem MacWriteBytes_exact:
  assumes "address + length src \<le> 65536"
  shows "Wifi_MacWriteBytes m address src = mem_write m address src"
  using assms by (rule MacWriteBytes_eq)

lemma MacWriteBytes_exact_witness: "Wifi_MacWriteBytes (\<lambda>_. 0) 3 [1, 2] = mem_write (\<lambda>_. 0) 3 [1, 2]"
  by (rule MacWriteBytes_exact) simp


end
