(* ===== verification/Arm7_Queue.thy ===== *)
theory Arm7_Queue
  imports Arm7_State
begin

text \<open>
  The queue of the ARM7's own frames (first part of source/arm7/ntr/tx_queue.c): one frame that
  waits while another is on the air. \<open>pending\<close> abstracts it to the list of frames that are
  waiting; adding and flushing are described by what reaches the hardware and what waits.
\<close>

section \<open>Definitions\<close>

definition TXBIT_LOC1 :: u16 where "TXBIT_LOC1 = 0x1"
definition TXBIT_CMD :: u16 where "TXBIT_CMD = 0x2"
definition TXBIT_LOC2 :: u16 where "TXBIT_LOC2 = 0x4"
definition TXBIT_LOC3 :: u16 where "TXBIT_LOC3 = 0x8"
definition TXBUF_ENABLE :: u16 where "TXBUF_ENABLE = 0x8000"

definition Wifi_TxLoc3IsBusy :: "arm7 \<Rightarrow> bool" where
  "Wifi_TxLoc3IsBusy s \<longleftrightarrow> W_TXBUSY s AND TXBIT_LOC3 \<noteq> 0"

definition Wifi_TxCmdIsBusy :: "arm7 \<Rightarrow> bool" where
  "Wifi_TxCmdIsBusy s \<longleftrightarrow> W_TXBUSY s AND TXBIT_CMD \<noteq> 0"

text \<open>Setting up and starting a transfer from the general buffer.\<close>

definition tx_start_loc3 :: "arm7 \<Rightarrow> arm7" where
  "tx_start_loc3 s = s\<lparr>W_TX_RETRYLIMIT := 0x0707,
     W_TXBUF_LOC3 := TXBUF_ENABLE OR of_nat (MAC_TXBUF_START_OFFSET div 2),
     W_TXREQ_SET := (TXBIT_LOC3 OR TXBIT_LOC2 OR TXBIT_LOC1) # W_TXREQ_SET s\<rparr>"

definition Wifi_TxRaw :: "u8 list \<Rightarrow> nat \<Rightarrow> arm7 \<Rightarrow> arm7" where
  "Wifi_TxRaw data datalen s =
     (let n = round_up_32 datalen;
          s1 = tx_start_loc3 (s\<lparr>MACMEM := Wifi_MACWrite data MAC_TXBUF_START_OFFSET n (MACMEM s)\<rparr>)
      in upd_data (stat_addw WSTAT_TXDATABYTES (of_nat n - of_nat HDR_TX_SIZE)
           \<circ> stat_add WSTAT_TXBYTES n \<circ> stat_add WSTAT_TXPACKETS 1) s1)"

definition Wifi_TxArm7QueueFlush :: "arm7 \<Rightarrow> arm7" where
  "Wifi_TxArm7QueueFlush s =
     (Wifi_TxRaw (wifi_tx_queue s) (wifi_tx_queue_len s) s)\<lparr>wifi_tx_queue_len := 0\<rparr>"

definition Wifi_TxArm7QueueIsEmpty :: "arm7 \<Rightarrow> bool" where
  "Wifi_TxArm7QueueIsEmpty s \<longleftrightarrow> wifi_tx_queue_len s = 0"

definition Wifi_TxArm7QueueSetEnqueuedData :: "u8 list \<Rightarrow> nat \<Rightarrow> arm7 \<Rightarrow> bool \<times> arm7" where
  "Wifi_TxArm7QueueSetEnqueuedData data datalen s =
     (let hwords = (datalen + 1) div 2 in
      if hwords > 512 then (False, s)
      else (True, s\<lparr>wifi_tx_queue := take (2 * hwords) data @ drop (2 * hwords) (wifi_tx_queue s),
                    wifi_tx_queue_len := datalen\<rparr>))"

definition Wifi_TxArm7QueueAdd :: "u8 list \<Rightarrow> nat \<Rightarrow> arm7 \<Rightarrow> bool \<times> arm7" where
  "Wifi_TxArm7QueueAdd data datalen s =
     (if \<not> Wifi_TxLoc3IsBusy s then
        if Wifi_TxArm7QueueIsEmpty s then (True, Wifi_TxRaw data datalen s)
        else Wifi_TxArm7QueueSetEnqueuedData data datalen (Wifi_TxArm7QueueFlush s)
      else
        if Wifi_TxArm7QueueIsEmpty s then Wifi_TxArm7QueueSetEnqueuedData data datalen s
        else (False, s))"

section \<open>What waits and what is sent\<close>

definition pending :: "arm7 \<Rightarrow> u8 list list" where
  "pending s = (if wifi_tx_queue_len s = 0 then [] else [take (wifi_tx_queue_len s) (wifi_tx_queue s)])"

definition arm7_queue_ok :: "arm7 \<Rightarrow> bool" where
  "arm7_queue_ok s \<longleftrightarrow> length (wifi_tx_queue s) = 1024 \<and> wifi_tx_queue_len s \<le> 1024"

text \<open>A frame is on the air: it is in the general buffer and its transfer has been requested once more.\<close>

definition sent_from :: "arm7 \<Rightarrow> u8 list \<Rightarrow> arm7 \<Rightarrow> bool" where
  "sent_from s frame s' \<longleftrightarrow>
     mem_read (MACMEM s') MAC_TXBUF_START_OFFSET (length frame) = frame
     \<and> W_TXREQ_SET s' = 13 # W_TXREQ_SET s \<and> W_TXBUF_LOC3 s' = TXBUF_ENABLE"

lemma mem_read_write_prefix: "n \<le> length bs \<Longrightarrow> mem_read (mem_write m a bs) a n = take n bs"
  by (rule nth_equalityI) (auto simp: mem_write_def)

lemma TxRaw_queue [simp]:
  "wifi_tx_queue (Wifi_TxRaw data n s) = wifi_tx_queue s"
  "wifi_tx_queue_len (Wifi_TxRaw data n s) = wifi_tx_queue_len s"
  "txbuf (WifiData (Wifi_TxRaw data n s)) = txbuf (WifiData s)"
  by (simp_all add: Wifi_TxRaw_def tx_start_loc3_def upd_data_def Let_def)

lemma TxRaw_sent:
  assumes "n \<le> length data" and "n \<le> 0x700"
  shows "sent_from s (take n data) (Wifi_TxRaw data n s)"
proof -
  have r: "round_up_32 n = (n + 3) div 4 * 4" using assms by simp
  have even: "((n + 3) div 4 * 4 + 1) div 2 * 2 = (n + 3) div 4 * 4" by presburger
  have "(n + 3) div 4 * 4 \<le> 0x700" using assms(2) by presburger
  with assms even r have "MACMEM (Wifi_TxRaw data n s) =
      mem_write (MACMEM s) 0 (take ((n + 3) div 4 * 4) data)"
    by (simp add: Wifi_TxRaw_def Wifi_MACWrite_def upd_data_def tx_start_loc3_def Let_def mac_map mult.commute)
  moreover have "n \<le> (n + 3) div 4 * 4" by presburger
  ultimately have "mem_read (MACMEM (Wifi_TxRaw data n s)) 0 n = take n data"
    using assms by (simp add: mem_read_write_prefix min_def)
  moreover have "W_TXREQ_SET (Wifi_TxRaw data n s) = 13 # W_TXREQ_SET s"
    "W_TXBUF_LOC3 (Wifi_TxRaw data n s) = TXBUF_ENABLE"
    by (simp_all add: Wifi_TxRaw_def upd_data_def tx_start_loc3_def Let_def mac_map
        TXBIT_LOC3_def TXBIT_LOC2_def TXBIT_LOC1_def)
  ultimately show ?thesis using assms by (simp add: sent_from_def mac_map)
qed

lemma QueueFlush_sends:
  assumes "arm7_queue_ok s" and "pending s = [f]"
  shows "sent_from s f (Wifi_TxArm7QueueFlush s)" "pending (Wifi_TxArm7QueueFlush s) = []"
    "arm7_queue_ok (Wifi_TxArm7QueueFlush s)"
proof -
  from assms have len: "wifi_tx_queue_len s \<le> length (wifi_tx_queue s)" "wifi_tx_queue_len s \<le> 0x700"
    by (auto simp: arm7_queue_ok_def)
  from assms(2) have "f = take (wifi_tx_queue_len s) (wifi_tx_queue s)"
    by (auto simp: pending_def split: if_splits)
  with TxRaw_sent [OF len, of s] show "sent_from s f (Wifi_TxArm7QueueFlush s)"
    by (simp add: Wifi_TxArm7QueueFlush_def sent_from_def)
  show "pending (Wifi_TxArm7QueueFlush s) = []" "arm7_queue_ok (Wifi_TxArm7QueueFlush s)"
    using assms(1) by (simp_all add: Wifi_TxArm7QueueFlush_def pending_def arm7_queue_ok_def)
qed

lemma SetEnqueuedData_pending:
  assumes "arm7_queue_ok s" and "even n" and "0 < n" and "length data = n"
  shows "Wifi_TxArm7QueueSetEnqueuedData data n s = (r, s') \<Longrightarrow>
    r = (n \<le> 1024) \<and> arm7_queue_ok s' \<and> pending s' = (if r then [data] else pending s)
    \<and> MACMEM s' = MACMEM s \<and> W_TXREQ_SET s' = W_TXREQ_SET s \<and> W_TXBUF_LOC3 s' = W_TXBUF_LOC3 s"
proof -
  from assms(2) have hw: "(n + 1) div 2 * 2 = n" "2 * ((n + 1) div 2) = n" by presburger+
  have "(n + 1) div 2 > 512 \<longleftrightarrow> \<not> n \<le> 1024" using assms(2) by presburger
  with assms hw show "Wifi_TxArm7QueueSetEnqueuedData data n s = (r, s') \<Longrightarrow> ?thesis"
    by (auto simp: Wifi_TxArm7QueueSetEnqueuedData_def arm7_queue_ok_def pending_def Let_def)
qed




end
