(* ===== verification/Arm7_Beacon.thy ===== *)
theory Arm7_Beacon
  imports Arm7_Queue
begin

text \<open>
  The beacon of a host (source/arm7/ntr/beacon.c): finding the fields that change in a new
  beacon, updating them in the RAM of the MAC, cycling through the fragments the ARM9 published,
  applying its patches, and answering a probe request with the contents of the beacon. Reading
  outside of the bytes of the frame, which C leaves undefined, is the result \<^const>\<open>None\<close>.
\<close>

section \<open>Constants\<close>

definition MGT_FIE_ID_DS_PARAM_SET :: u8 where "MGT_FIE_ID_DS_PARAM_SET = 3"
definition MGT_FIE_ID_TIM :: u8 where "MGT_FIE_ID_TIM = 5"
definition MGT_FIE_ID_VENDOR :: u8 where "MGT_FIE_ID_VENDOR = 221"
definition NINTENDO_HEADER_SIZE :: nat where "NINTENDO_HEADER_SIZE = 24"
definition FIE_NINTENDO_OFS_EXTRA_DATA_SIZE :: nat where "FIE_NINTENDO_OFS_EXTRA_DATA_SIZE = 0x12"
definition DSWIFI_EXTRA_DATA_SIZE :: nat where "DSWIFI_EXTRA_DATA_SIZE = 24"
definition BEACON_FIRST :: nat where "BEACON_FIRST = 12 + 24 + 8 + 2 + 2"
definition BEACON_MAX_STICKY_PATCHES :: nat where "BEACON_MAX_STICKY_PATCHES = 8"
definition HDR_TX_IEEE_FRAME_SIZE :: nat where "HDR_TX_IEEE_FRAME_SIZE = 0xA"
definition DSWIFI_BEACON_LAYOUT_DSWIFI :: u8 where "DSWIFI_BEACON_LAYOUT_DSWIFI = 0"

definition DSWIFI_BEACON_ROTATE_OK :: u8 where "DSWIFI_BEACON_ROTATE_OK = 0"
definition DSWIFI_BEACON_ROTATE_NO_VENDOR_IE :: u8 where "DSWIFI_BEACON_ROTATE_NO_VENDOR_IE = 1"
definition DSWIFI_BEACON_ROTATE_BEACON_OFF :: u8 where "DSWIFI_BEACON_ROTATE_BEACON_OFF = 2"
definition DSWIFI_BEACON_ROTATE_NO_FRAGMENTS :: u8 where "DSWIFI_BEACON_ROTATE_NO_FRAGMENTS = 3"
definition DSWIFI_BEACON_ROTATE_SIZE_MISMATCH :: u8 where "DSWIFI_BEACON_ROTATE_SIZE_MISMATCH = 4"

lemmas rotate_defs = DSWIFI_BEACON_ROTATE_OK_def DSWIFI_BEACON_ROTATE_NO_VENDOR_IE_def
  DSWIFI_BEACON_ROTATE_BEACON_OFF_def DSWIFI_BEACON_ROTATE_NO_FRAGMENTS_def
  DSWIFI_BEACON_ROTATE_SIZE_MISMATCH_def

section \<open>Fields of the beacon\<close>

definition beacon_on :: "arm7 \<Rightarrow> bool" where
  "beacon_on s \<longleftrightarrow> W_TXBUF_BEACON s AND TXBUF_ENABLE \<noteq> 0"

definition Wifi_BeaconExtraDataIsDSWifi :: "arm7 \<Rightarrow> bool" where
  "Wifi_BeaconExtraDataIsDSWifi s \<longleftrightarrow>
     beaconExtraDataLayout (WifiData s) = DSWIFI_BEACON_LAYOUT_DSWIFI
     \<and> \<not> beacon_extra_data_size s < DSWIFI_EXTRA_DATA_SIZE"

definition Wifi_BeaconStop :: "arm7 \<Rightarrow> arm7" where
  "Wifi_BeaconStop s = s\<lparr>W_TXBUF_BEACON := W_TXBUF_BEACON s AND NOT TXBUF_ENABLE, W_BEACONINT := 0x64\<rparr>"

definition mac_write_byte :: "nat \<Rightarrow> u16 \<Rightarrow> arm7 \<Rightarrow> arm7" where
  "mac_write_byte a v s = s\<lparr>MACMEM := Wifi_MacWriteByte (MACMEM s) a v\<rparr>"

definition Wifi_SetBeaconChannel :: "u16 \<Rightarrow> arm7 \<Rightarrow> arm7" where
  "Wifi_SetBeaconChannel channel s =
     (if beacon_channel_addr s = 0 then s
      else if beacon_on s then mac_write_byte (beacon_channel_addr s) channel s else s)"

definition Wifi_SetBeaconCurrentPlayers :: "u16 \<Rightarrow> arm7 \<Rightarrow> arm7" where
  "Wifi_SetBeaconCurrentPlayers num s =
     (if beacon_extra_data_addr s = 0 then s
      else if \<not> Wifi_BeaconExtraDataIsDSWifi s then s
      else if beacon_on s then mac_write_byte (beacon_extra_data_addr s + 1) num s else s)"

definition Wifi_SetBeaconAllowsConnections :: "u16 \<Rightarrow> arm7 \<Rightarrow> arm7" where
  "Wifi_SetBeaconAllowsConnections allows s =
     (let s = s\<lparr>beacon_allows_connections := (allows \<noteq> 0)\<rparr> in
      if beacon_extra_data_addr s = 0 then s
      else if \<not> Wifi_BeaconExtraDataIsDSWifi s then s
      else if beacon_on s then mac_write_byte (beacon_extra_data_addr s + 2) allows s else s)"

definition Wifi_SetBeaconPeriod :: "nat \<Rightarrow> arm7 \<Rightarrow> arm7" where
  "Wifi_SetBeaconPeriod p s = (if p < 0x10 \<or> p > 0x3E7 then s else s\<lparr>W_BEACONINT := of_nat p\<rparr>)"

section \<open>A new beacon\<close>

text \<open>Comparing byte after byte, which stops at the first difference.\<close>

fun bytes_start :: "u8 list \<Rightarrow> u8 list \<Rightarrow> bool option" where
  "bytes_start [] xs = Some True"
| "bytes_start (p # ps) [] = None"
| "bytes_start (p # ps) (x # xs) = (if x = p then bytes_start ps xs else Some False)"

definition beacon_element :: "u8 list \<Rightarrow> u8 \<Rightarrow> nat \<Rightarrow> nat \<Rightarrow> arm7 \<Rightarrow> arm7 option" where
  "beacon_element data type seglen i s =
     (if type = MGT_FIE_ID_DS_PARAM_SET then
        Some (s\<lparr>beacon_channel_addr := MAC_BEACON_START_OFFSET + i\<rparr>)
      else if type = MGT_FIE_ID_TIM then
        if i + 1 < length data then
          let s = s\<lparr>W_TXBUF_TIM := of_nat (i - 12 - 24), W_LISTENINT := ucast (data ! (i + 1))\<rparr> in
          Some (if W_LISTENCOUNT s \<ge> W_LISTENINT s then s\<lparr>W_LISTENCOUNT := 0\<rparr> else s)
        else None
      else if type = MGT_FIE_ID_VENDOR \<and> seglen \<ge> NINTENDO_HEADER_SIZE then
        (case bytes_start [0x00, 0x09, 0xBF, 0x00] (drop i data) of
           None \<Rightarrow> None
         | Some False \<Rightarrow> Some s
         | Some True \<Rightarrow>
             if i + FIE_NINTENDO_OFS_EXTRA_DATA_SIZE < length data then
               let extra_size = unat (data ! (i + FIE_NINTENDO_OFS_EXTRA_DATA_SIZE));
                   extra_size = (if extra_size > seglen - NINTENDO_HEADER_SIZE
                                 then seglen - NINTENDO_HEADER_SIZE else extra_size)
               in Some (s\<lparr>vendor_ie_addr := MAC_BEACON_START_OFFSET + i,
                          beacon_extra_data_addr := MAC_BEACON_START_OFFSET + i + NINTENDO_HEADER_SIZE,
                          beacon_extra_data_size := extra_size\<rparr>)
             else None)
      else Some s)"

function beacon_setup_loop :: "u8 list \<Rightarrow> nat \<Rightarrow> nat \<Rightarrow> arm7 \<Rightarrow> arm7 option" where
  "beacon_setup_loop data len i s =
     (if i < len then
        if i + 1 < length data then
          (case beacon_element data (data ! i) (unat (data ! (i + 1))) (i + 2) s of
             None \<Rightarrow> None
           | Some s' \<Rightarrow> beacon_setup_loop data len (i + 2 + unat (data ! (i + 1))) s')
        else None
      else Some s)"
  by pat_completeness auto
termination by (relation "measure (\<lambda>(data, len, i, s). len - i)") auto

declare beacon_setup_loop.simps [simp del]

definition Wifi_BeaconSetup :: "arm7 \<Rightarrow> arm7 option" where
  "Wifi_BeaconSetup s =
     (let packetlen = unat (Wifi_MACReadHWord (MACMEM s) MAC_BEACON_START_OFFSET HDR_TX_IEEE_FRAME_SIZE) in
      if HDR_TX_SIZE + packetlen \<le> BEACON_FIRST + 4 then Some (Wifi_BeaconStop s)
      else
        let len = min (HDR_TX_SIZE + packetlen - 4) MAC_BEACON_SIZE;
            data = Wifi_MACRead (MACMEM s) MAC_BEACON_START_OFFSET 0 len;
            s1 = s\<lparr>vendor_ie_addr := 0, beacon_extra_data_addr := 0, beacon_extra_data_size := 0,
                   beacon_fragment_index := 0,
                   beacon_fragment_generation := beaconFragmentGeneration (WifiData s),
                   sticky_patches := [],
                   beacon_allows_connections := (reqFlags (WifiData s) AND WFLAG_REQ_ALLOWCLIENTS \<noteq> 0)\<rparr>
        in case beacon_setup_loop data len BEACON_FIRST s1 of
             None \<Rightarrow> None
           | Some s2 \<Rightarrow>
               let s3 = s2\<lparr>W_TXBUF_BEACON := TXBUF_ENABLE OR of_nat (MAC_BEACON_START_OFFSET div 2),
                          W_BEACONINT := of_le16 (data ! (12 + 24 + 8)) (data ! (12 + 24 + 9))\<rparr>
               in Some (Wifi_SetBeaconChannel (ucast (curChannel (WifiData s3))) s3))"

section \<open>Patches and fragments\<close>

definition Wifi_BeaconWriteStickyPatches :: "arm7 \<Rightarrow> arm7" where
  "Wifi_BeaconWriteStickyPatches s =
     fold (\<lambda>(ofs, v) s. mac_write_byte (vendor_ie_addr s + unat ofs) (ucast v) s) (sticky_patches s) s"

text \<open>One patch joins the list that is kept: it replaces the value of its offset, or is added.\<close>

fun sticky_find :: "u8 \<Rightarrow> (u8 \<times> u8) list \<Rightarrow> nat option" where
  "sticky_find ofs [] = None"
| "sticky_find ofs ((ofs', v) # ps) = (if ofs' = ofs then Some 0 else map_option Suc (sticky_find ofs ps))"

definition sticky_add :: "u8 \<times> u8 \<Rightarrow> (u8 \<times> u8) list \<Rightarrow> (u8 \<times> u8) list" where
  "sticky_add p ps =
     (case sticky_find (fst p) ps of
        Some index \<Rightarrow> ps[index := p]
      | None \<Rightarrow> if length ps = BEACON_MAX_STICKY_PATCHES then ps else ps @ [p])"

lemma ring8_turns:
  assumes "r < 8" "w < 8" "r \<noteq> (w :: nat)"
  shows "(w + 8 - (r + 1) mod 8) mod 8 < (w + 8 - r) mod 8"
proof -
  have "\<forall>r \<in> set [0..<8]. \<forall>w \<in> set [0..<8]. r \<noteq> w \<longrightarrow>
      (w + 8 - (r + 1) mod 8) mod 8 < (w + 8 - r) mod (8 :: nat)"
    by code_simp
  with assms show ?thesis by simp
qed

text \<open>
  Draining the ring of eight patches the ARM9 fills. The indices of the ring are below eight, so
  it takes at most seven turns.
\<close>

function patch_loop :: "arm7 \<Rightarrow> arm7" where
  "patch_loop s =
     (let d = WifiData s; rd = beaconPatchRead d in
      if rd \<noteq> beaconPatchWrite d \<and> rd < 8 \<and> beaconPatchWrite d < 8 then
        patch_loop (s\<lparr>WifiData := d\<lparr>beaconPatchRead := (rd + 1) mod 8\<rparr>,
                      sticky_patches := sticky_add (beaconPatch d ! unat rd) (sticky_patches s)\<rparr>)
      else s)"
  by pat_completeness auto
termination
proof (relation "measure (\<lambda>s. (unat (beaconPatchWrite (WifiData s)) + 8
    - unat (beaconPatchRead (WifiData s))) mod 8)")
  fix s :: arm7 and d rd
  assume d: "d = WifiData s" and rd: "rd = beaconPatchRead d"
    and c: "rd \<noteq> beaconPatchWrite d \<and> rd < 8 \<and> beaconPatchWrite d < 8"
  define r w where "r = unat rd" and "w = unat (beaconPatchWrite d)"
  from c have "r < 8" "w < 8" "r \<noteq> w"
    by (auto simp: r_def w_def word_less_nat_alt word_unat_eq_iff)
  moreover have "unat ((rd + 1) mod 8) = (r + 1) mod 8"
    using \<open>r < 8\<close> by (simp add: r_def unat_mod unat_word_ariths)
  moreover have "(w + 8 - (r + 1) mod 8) mod 8 < (w + 8 - r) mod 8"
    using \<open>r < 8\<close> \<open>w < 8\<close> \<open>r \<noteq> w\<close> by (rule ring8_turns)
  ultimately show "(s\<lparr>WifiData := d\<lparr>beaconPatchRead := (rd + 1) mod 8\<rparr>,
        sticky_patches := sticky_add (beaconPatch d ! unat rd) (sticky_patches s)\<rparr>, s)
      \<in> measure (\<lambda>s. (unat (beaconPatchWrite (WifiData s)) + 8
          - unat (beaconPatchRead (WifiData s))) mod 8)"
    using d rd by (simp add: r_def w_def)
qed simp

declare patch_loop.simps [simp del]

definition Wifi_BeaconApplyPatches :: "arm7 \<Rightarrow> arm7" where
  "Wifi_BeaconApplyPatches s =
     (let s = patch_loop s in
      if vendor_ie_addr s = 0 then s
      else if beacon_on s then Wifi_BeaconWriteStickyPatches s else s)"

definition Wifi_BeaconRotateFragment :: "arm7 \<Rightarrow> arm7" where
  "Wifi_BeaconRotateFragment s =
     (let s = upd_data (\<lambda>d. d\<lparr>beaconPreTbttCount := beaconPreTbttCount d + 1\<rparr>) s;
          d = WifiData s;
          skip = (\<lambda>v. upd_data (\<lambda>d. d\<lparr>beaconRotateSkip := v\<rparr>) s)
      in
      if beacon_extra_data_addr s = 0 then skip DSWIFI_BEACON_ROTATE_NO_VENDOR_IE
      else if \<not> beacon_on s then skip DSWIFI_BEACON_ROTATE_BEACON_OFF
      else
        let count = beaconFragmentCount d; sz = beaconFragmentSize d in
        if count < 2 \<or> sz = 0 then skip DSWIFI_BEACON_ROTATE_NO_FRAGMENTS
        else if unat sz \<noteq> beacon_extra_data_size s then skip DSWIFI_BEACON_ROTATE_SIZE_MISMATCH
        else
          let s1 = upd_data (\<lambda>d. d\<lparr>beaconRotateSkip := DSWIFI_BEACON_ROTATE_OK,
                                   beaconFragmentWrites := beaconFragmentWrites d + 1\<rparr>) s;
              generation = beaconFragmentGeneration d;
              s2 = (if generation \<noteq> beacon_fragment_generation s1
                    then s1\<lparr>beacon_fragment_generation := generation, beacon_fragment_index := 0\<rparr>
                    else s1);
              frag = take (unat sz) (beaconFragments d ! beacon_fragment_index s2);
              s3 = s2\<lparr>MACMEM := Wifi_MacWriteBytes (MACMEM s2) (beacon_extra_data_addr s2) frag\<rparr>;
              s4 = Wifi_BeaconWriteStickyPatches s3;
              next_index = beacon_fragment_index s4 + 1
          in s4\<lparr>beacon_fragment_index := (if next_index \<ge> unat count then 0 else next_index)\<rparr>)"

section \<open>Probe responses\<close>

text \<open>
  \<open>probe_loop buf len i out\<close> moves the elements of \<open>buf\<close> from \<open>i\<close> down to \<open>out\<close>, leaving the
  TIM out, and returns the buffer and the end of what was kept.
\<close>

definition buf_move :: "u8 list \<Rightarrow> nat \<Rightarrow> nat \<Rightarrow> nat \<Rightarrow> u8 list" where
  "buf_move buf dst src n = take dst buf @ take n (drop src buf) @ drop (dst + n) buf"

function probe_loop :: "u8 list \<Rightarrow> nat \<Rightarrow> nat \<Rightarrow> nat \<Rightarrow> u8 list \<times> nat" where
  "probe_loop buf len i out =
     (if i + 2 \<le> len then
        let type = buf ! i; n = 2 + unat (buf ! (i + 1)) in
        if i + n > len then (buf, out)
        else if type \<noteq> MGT_FIE_ID_TIM then
          probe_loop (if out \<noteq> i then buf_move buf out i n else buf) len (i + n) (out + n)
        else probe_loop buf len (i + n) out
      else (buf, out))"
  by pat_completeness auto
termination by (relation "measure (\<lambda>(buf, len, i, out). len - i)") auto

declare probe_loop.simps [simp del]

definition TYPE_PROBE_RESPONSE :: u16 where "TYPE_PROBE_RESPONSE = 0x50"

definition Wifi_SendProbeResponse :: "mac \<Rightarrow> u8 list \<Rightarrow> arm7 \<Rightarrow> bool \<times> arm7" where
  "Wifi_SendProbeResponse dest_mac ssid s =
     (if \<not> beacon_on s then (False, s)
      else
        let packetlen = unat (Wifi_MACReadHWord (MACMEM s) MAC_BEACON_START_OFFSET HDR_TX_IEEE_FRAME_SIZE) in
        if HDR_TX_SIZE + packetlen \<le> BEACON_FIRST + 4
           \<or> HDR_TX_SIZE + packetlen > MAC_BEACON_SIZE + 4 then (False, s)
        else
          let len = HDR_TX_SIZE + packetlen - 4;
              buf = Wifi_MACRead (MACMEM s) MAC_BEACON_START_OFFSET 0 ((len + 1) div 2 * 2)
          in
          if ssid \<noteq> [] \<and> (length ssid \<noteq> unat (curAp_ssid_len (WifiData s))
                \<or> ssid \<noteq> take (length ssid) (curAp_ssid (WifiData s))) then (False, s)
          else
            case probe_loop buf len BEACON_FIRST BEACON_FIRST of
              (buf, out) \<Rightarrow>
                let buf = overwrite HDR_TX_SIZE (le16 TYPE_PROBE_RESPONSE @ le16 0 @ mac_bytes dest_mac) buf;
                    buf = overwrite (HDR_TX_SIZE + 22) (le16 0) buf;
                    ieee_size = out - HDR_TX_SIZE;
                    buf = overwrite 0 (tx_header WIFI_TRANSFER_RATE_2MBPS (of_nat (ieee_size + 4))) buf
                in Wifi_TxArm7QueueAdd buf (HDR_TX_SIZE + ieee_size) s)"


section \<open>What a probe response contains\<close>

text \<open>The information elements of a frame, each with its type and its length; a truncated one ends the list.\<close>

function elements :: "u8 list \<Rightarrow> u8 list list" where
  "elements bs =
     (if 2 \<le> length bs \<and> 2 + unat (bs ! 1) \<le> length bs
      then take (2 + unat (bs ! 1)) bs # elements (drop (2 + unat (bs ! 1)) bs)
      else [])"
  by pat_completeness auto
termination by (relation "measure length") auto

declare elements.simps [simp del]

lemma length_buf_move [simp]:
  "dst + n \<le> length buf \<Longrightarrow> src + n \<le> length buf \<Longrightarrow> length (buf_move buf dst src n) = length buf"
  by (auto simp: buf_move_def)

lemma buf_move_below: "dst + n \<le> length buf \<Longrightarrow> src + n \<le> length buf \<Longrightarrow>
    take (dst + n) (buf_move buf dst src n) = take dst buf @ take n (drop src buf)"
  by (auto simp: buf_move_def)

lemma buf_move_above: "dst \<le> src \<Longrightarrow> src + n \<le> length buf \<Longrightarrow>
    drop (src + n) (buf_move buf dst src n) = drop (src + n) buf"
  by (simp add: buf_move_def min_def drop_drop)

lemma probe_loop_elements:
  assumes "i \<le> len" "len \<le> length buf" "out \<le> i"
    and "probe_loop buf len i out = (buf', out')"
  shows "take out' buf' = take out buf @
      concat (filter (\<lambda>e. hd e \<noteq> MGT_FIE_ID_TIM) (elements (take (len - i) (drop i buf))))
    \<and> length buf' = length buf \<and> out \<le> out' \<and> out' \<le> len"
  using assms
proof (induction buf len i out rule: probe_loop.induct)
  case (1 buf len i out)
  let ?n = "2 + unat (buf ! (i + 1))" and ?rest = "take (len - i) (drop i buf)"
  have len: "length ?rest = len - i" using "1.prems" by simp
  have unfold: "probe_loop buf len i out =
      (if i + 2 \<le> len then if i + ?n > len then (buf, out)
         else if buf ! i \<noteq> MGT_FIE_ID_TIM
           then probe_loop (if out \<noteq> i then buf_move buf out i ?n else buf) len (i + ?n) (out + ?n)
           else probe_loop buf len (i + ?n) out
       else (buf, out))"
    by (subst probe_loop.simps) (simp add: Let_def)
  show ?case
  proof (cases "i + 2 \<le> len \<and> i + ?n \<le> len")
    case False
    then have "elements ?rest = []"
      by (subst elements.simps) (use len "1.prems" in auto)
    moreover have "(buf', out') = (buf, out)" using unfold False "1.prems"(4) by (auto split: if_splits)
    ultimately show ?thesis using "1.prems" by simp
  next
    case True
    have lt: "1 < len - i" "i < length buf" using True "1.prems"(2) by linarith+
    have nth: "?rest ! 1 = buf ! (i + 1)" "hd (take ?n (drop i buf)) = buf ! i"
      using lt by (simp_all add: hd_drop_conv_nth nth_take [OF lt(1), unfolded One_nat_def])
    have el: "elements ?rest = take ?n (drop i buf) # elements (take (len - (i + ?n)) (drop (i + ?n) buf))"
    proof -
      have n: "?n \<le> len - i" "2 \<le> len - i" using True by linarith+
      then have "take ?n ?rest = take ?n (drop i buf)"
        "drop ?n ?rest = take (len - (i + ?n)) (drop (i + ?n) buf)"
        by (simp_all only: take_take min.absorb1 drop_take drop_drop diff_diff_left add.commute)
      moreover have "elements ?rest = take ?n ?rest # elements (drop ?n ?rest)"
        by (subst elements.simps) (simp only: len nth(1) n if_True simp_thms)
      ultimately show ?thesis by simp
    qed
    let ?buf1 = "if out \<noteq> i then buf_move buf out i ?n else buf"
    show ?thesis
    proof (cases "buf ! i = MGT_FIE_ID_TIM")
      case tim: True
      with unfold True "1.prems"(4) have "probe_loop buf len (i + ?n) out = (buf', out')" by simp
      with "1.IH"(2) [OF _ refl refl] True tim "1.prems" el nth(2) show ?thesis by simp
    next
      case other: False
      with unfold True "1.prems"(4) have rec: "probe_loop ?buf1 len (i + ?n) (out + ?n) = (buf', out')" by simp
      have gen: "length (if out \<noteq> i then buf_move buf out i n else buf) = length buf"
        "take (out + n) (if out \<noteq> i then buf_move buf out i n else buf) = take out buf @ take n (drop i buf)"
        "drop (i + n) (if out \<noteq> i then buf_move buf out i n else buf) = drop (i + n) buf"
        if "i + n \<le> len" for n
        using that "1.prems"
        by (simp_all add: buf_move_below buf_move_above) (auto simp: take_add)
      from True have "i + ?n \<le> len" by simp
      note b1 = gen [OF this]
      from "1.IH"(1) [OF _ refl refl] True other rec "1.prems" b1(1)
      have "take out' buf' = take (out + ?n) ?buf1 @ concat (filter (\<lambda>e. hd e \<noteq> MGT_FIE_ID_TIM)
          (elements (take (len - (i + ?n)) (drop (i + ?n) ?buf1))))
        \<and> length buf' = length ?buf1 \<and> out + ?n \<le> out' \<and> out' \<le> len" by simp
      with b1 el nth(2) other show ?thesis by simp
    qed
  qed
qed


lemma overwrite_headers:
  assumes "length b = 48" "length tx = 12" "length x = 10" "length z = 2"
  shows "overwrite 0 tx (overwrite 34 z (overwrite 12 x b)) =
    tx @ x @ take 12 (drop 22 b) @ z @ drop 36 b"
  using assms by (simp add: overwrite_def min_def drop_take)

lemma length_mac_read_hwords [simp]: "length (mac_read_hwords m a n) = 2 * n"
  by (induction m a n rule: mac_read_hwords.induct) auto

text \<open>What a probe response to \<open>dest\<close> has to be, from the \<open>len\<close> bytes of the beacon.\<close>

definition probe_frame :: "mac \<Rightarrow> u8 list \<Rightarrow> nat \<Rightarrow> u8 list" where
  "probe_frame dest beacon len =
     (let body = concat (filter (\<lambda>e. hd e \<noteq> MGT_FIE_ID_TIM) (elements (take (len - 48) (drop 48 beacon))))
      in tx_header WIFI_TRANSFER_RATE_2MBPS (of_nat (36 + length body + 4))
         @ le16 TYPE_PROBE_RESPONSE @ le16 0 @ mac_bytes dest
         @ take 12 (drop 22 beacon) @ le16 0 @ take 12 (drop 36 beacon) @ body)"

text \<open>
  C17. A probe request is answered only while a beacon of a valid size is on the air, and only if
  it names no network or the one of the beacon; the answer handed to the queue is the beacon with
  its destination, its type and its hardware header replaced and the TIM left out: every other
  information element is kept, in order and complete.
\<close>

theorem SendProbeResponse_frame:
  assumes "beacon_on s"
    and "packetlen = unat (Wifi_MACReadHWord (MACMEM s) MAC_BEACON_START_OFFSET HDR_TX_IEEE_FRAME_SIZE)"
    and len: "len + 4 = 12 + packetlen" "48 < len" "len \<le> 512"
    and ssid: "ssid = [] \<or> ssid = take (unat (curAp_ssid_len (WifiData s))) (curAp_ssid (WifiData s))"
      "length (curAp_ssid (WifiData s)) = 33" "unat (curAp_ssid_len (WifiData s)) \<le> 32"
  shows "\<exists>buf. Wifi_SendProbeResponse dest ssid s = Wifi_TxArm7QueueAdd buf
      (length (probe_frame dest (Wifi_MACRead (MACMEM s) MAC_BEACON_START_OFFSET 0 len) len)) s
    \<and> take (length (probe_frame dest (Wifi_MACRead (MACMEM s) MAC_BEACON_START_OFFSET 0 len) len)) buf
      = probe_frame dest (Wifi_MACRead (MACMEM s) MAC_BEACON_START_OFFSET 0 len) len"
proof -
  let ?b = "Wifi_MACRead (MACMEM s) MAC_BEACON_START_OFFSET 0 len"
  have "((len + 1) div 2 * 2 + 1) div 2 = (len + 1) div 2" by presburger
  then have b: "Wifi_MACRead (MACMEM s) MAC_BEACON_START_OFFSET 0 ((len + 1) div 2 * 2) = ?b"
    by (simp add: Wifi_MACRead_def)
  have lb: "len \<le> length ?b" by (simp add: Wifi_MACRead_def)
  obtain buf out where pl: "probe_loop ?b len 48 48 = (buf, out)" by fastforce
  let ?body = "concat (filter (\<lambda>e. hd e \<noteq> MGT_FIE_ID_TIM) (elements (take (len - 48) (drop 48 ?b))))"
  from probe_loop_elements [OF _ lb _ pl] len
  have pr: "take out buf = take 48 ?b @ ?body" "48 \<le> out" "out \<le> length buf" using lb by auto
  have out: "out = 48 + length ?body"
    using arg_cong [OF pr(1), of length] pr(3) lb len(2) by simp
  let ?x = "le16 TYPE_PROBE_RESPONSE @ le16 0 @ mac_bytes dest"
  let ?tx = "tx_header WIFI_TRANSFER_RATE_2MBPS (of_nat (out - 12 + 4))"
  let ?buf = "overwrite 0 ?tx (overwrite 34 (le16 0) (overwrite 12 ?x buf))"
  have "take out ?buf = overwrite 0 ?tx (overwrite 34 (le16 0) (overwrite 12 ?x (take 48 ?b))) @ ?body"
    using pr(2) lb len(2) by (simp add: take_overwrite pr(1) overwrite_append)
  also have "\<dots> = ?tx @ ?x @ take 12 (drop 22 (take 48 ?b)) @ le16 0 @ drop 36 (take 48 ?b) @ ?body"
    by (subst overwrite_headers) (use lb len(2) in simp_all)
  also have "take 12 (drop 22 (take 48 ?b)) = take 12 (drop 22 ?b)" by (simp add: drop_take min_def)
  also have "drop 36 (take 48 ?b) = take 12 (drop 36 ?b)" by (simp add: drop_take)
  also have "?tx @ ?x @ take 12 (drop 22 ?b) @ le16 0 @ take 12 (drop 36 ?b) @ ?body = probe_frame dest ?b len"
    by (simp add: probe_frame_def Let_def out)
  finally have tk: "take out ?buf = probe_frame dest ?b len" .
  have lp: "length (probe_frame dest ?b len) = out"
    using lb len(2) by (simp add: probe_frame_def Let_def out)
  have ss: "\<not> (ssid \<noteq> [] \<and> (length ssid \<noteq> unat (curAp_ssid_len (WifiData s))
      \<or> ssid \<noteq> take (length ssid) (curAp_ssid (WifiData s))))"
    using ssid by auto
  have l12: "12 + packetlen - 4 = len" "\<not> 12 + packetlen \<le> 52" "\<not> 12 + packetlen > 516" "12 + (out - 12) = out"
    using len pr(2) by auto
  have c1: "BEACON_FIRST = 48" by (simp add: BEACON_FIRST_def)
  have c2: "\<not> (12 + packetlen \<le> 48 + 4 \<or> 12 + packetlen > MAC_BEACON_SIZE + 4)"
    using l12 by (simp add: mac_map)
  have c3: "12 + 22 = (34 :: nat)" by simp
  have "Wifi_SendProbeResponse dest ssid s = Wifi_TxArm7QueueAdd ?buf out s"
    unfolding Wifi_SendProbeResponse_def assms(2) [symmetric] Let_def if_not_P [OF ss]
      HDR_TX_SIZE_def l12(1) b pl c1 prod.case l12(4)
    using assms(1) c2 by (simp only: not_not if_False if_True simp_thms mac_map c3)
  with tk lp show ?thesis by (intro exI [of _ ?buf]) simp
qed

lemma SendProbeResponse_frame_witness:
  "\<exists>s buf n. Wifi_SendProbeResponse (1, 2, 3) [] s = Wifi_TxArm7QueueAdd buf n s
    \<and> take n buf = probe_frame (1, 2, 3) (Wifi_MACRead (MACMEM s) MAC_BEACON_START_OFFSET 0 60) 60"
proof -
  let ?s = "(arm7_start cleared)\<lparr>W_TXBUF_BEACON := 0x8000, MACMEM := W_MACMEM_write (\<lambda>_. 0) 0xA0A 52\<rparr>"
  have on: "beacon_on ?s" by (simp add: beacon_on_def TXBUF_ENABLE_def)
  have len: "52 = unat (Wifi_MACReadHWord (MACMEM ?s) MAC_BEACON_START_OFFSET HDR_TX_IEEE_FRAME_SIZE)"
    by (simp add: Wifi_MACReadHWord_def W_MACMEM_def W_MACMEM_write_def mac_map HDR_TX_IEEE_FRAME_SIZE_def
        mac_wrap_def MAC_RXBUF_START_OFFSET_def MAC_RXBUF_END_OFFSET_def mem_write_def of_le16_def le16_def)
  have "length (curAp_ssid (WifiData ?s)) = 33" "unat (curAp_ssid_len (WifiData ?s)) \<le> 32"
    by (simp_all add: arm7_start_def cleared_def)
  from SendProbeResponse_frame [OF on len _ _ _ _ this, of 60 "[]" "(1, 2, 3)"] show ?thesis by fastforce
qed



section \<open>Rotation\<close>

text \<open>A host whose beacon announces \<open>sz\<close> bytes of extra data and cycles through \<open>n\<close> fragments.\<close>

definition rotating :: "nat \<Rightarrow> nat \<Rightarrow> arm7 \<Rightarrow> bool" where
  "rotating n sz s \<longleftrightarrow>
     beacon_on s \<and> beacon_extra_data_addr s \<noteq> 0 \<and> beacon_extra_data_addr s + sz \<le> 65536
     \<and> 2 \<le> n \<and> 0 < sz \<and> unat (beaconFragmentCount (WifiData s)) = n
     \<and> unat (beaconFragmentSize (WifiData s)) = sz \<and> beacon_extra_data_size s = sz
     \<and> length (beaconFragments (WifiData s)) = 13 \<and> n \<le> 13
     \<and> (\<forall>f \<in> set (beaconFragments (WifiData s)). length f = 112) \<and> sz \<le> 112
     \<and> sticky_patches s = [] \<and> beacon_fragment_index s < n"

text \<open>The fragment the next beacon carries.\<close>

definition next_fragment :: "arm7 \<Rightarrow> nat" where
  "next_fragment s =
     (if beacon_fragment_generation s = beaconFragmentGeneration (WifiData s)
      then beacon_fragment_index s else 0)"

lemma rotating_fragment:
  assumes "rotating n sz s" "i < n"
  shows "length (take sz (beaconFragments (WifiData s) ! i)) = sz"
proof -
  from assms have "i < length (beaconFragments (WifiData s))" by (simp add: rotating_def)
  then have "beaconFragments (WifiData s) ! i \<in> set (beaconFragments (WifiData s))" by (rule nth_mem)
  with assms have "length (beaconFragments (WifiData s) ! i) = 112" "sz \<le> 112"
    by (auto simp: rotating_def)
  then show ?thesis by simp
qed

lemma rotate_step:
  assumes "rotating n sz s"
  defines "s' \<equiv> Wifi_BeaconRotateFragment s"
  shows "MACMEM s' = mem_write (MACMEM s) (beacon_extra_data_addr s)
      (take sz (beaconFragments (WifiData s) ! next_fragment s))"
    and "next_fragment s' = (next_fragment s + 1) mod n"
    and "rotating n sz s'" and "beaconFragments (WifiData s') = beaconFragments (WifiData s)"
    and "beacon_extra_data_addr s' = beacon_extra_data_addr s"
proof -
  note r = assms(1) [unfolded rotating_def]
  have nz: "\<not> (beaconFragmentCount (WifiData s) < 2 \<or> beaconFragmentSize (WifiData s) = 0)"
    using r by (auto simp: word_less_nat_alt)
  have idx: "next_fragment s < n" using r by (auto simp: next_fragment_def)
  have frag: "length (take sz (beaconFragments (WifiData s) ! next_fragment s)) = sz"
    by (rule rotating_fragment [OF assms(1) idx])
  have mb: "Wifi_MacWriteBytes (MACMEM s) (beacon_extra_data_addr s)
      (take sz (beaconFragments (WifiData s) ! next_fragment s)) =
    mem_write (MACMEM s) (beacon_extra_data_addr s) (take sz (beaconFragments (WifiData s) ! next_fragment s))"
    by (rule MacWriteBytes_eq) (use r frag in simp)
  let ?d = "(WifiData s)\<lparr>beaconPreTbttCount := beaconPreTbttCount (WifiData s) + 1,
      beaconRotateSkip := DSWIFI_BEACON_ROTATE_OK,
      beaconFragmentWrites := beaconFragmentWrites (WifiData s) + 1\<rparr>"
  have s': "s' = s\<lparr>WifiData := ?d, MACMEM := mem_write (MACMEM s) (beacon_extra_data_addr s)
        (take sz (beaconFragments (WifiData s) ! next_fragment s)),
      beacon_fragment_generation := beaconFragmentGeneration (WifiData s),
      beacon_fragment_index := (if next_fragment s + 1 \<ge> n then 0 else next_fragment s + 1)\<rparr>"
    using r nz mb unfolding s'_def Wifi_BeaconRotateFragment_def Let_def
    by (auto simp: upd_data_def beacon_on_def next_fragment_def Wifi_BeaconWriteStickyPatches_def)
  show "MACMEM s' = mem_write (MACMEM s) (beacon_extra_data_addr s)
      (take sz (beaconFragments (WifiData s) ! next_fragment s))" by (simp add: s')
  show "next_fragment s' = (next_fragment s + 1) mod n"
    using idx by (auto simp: s' next_fragment_def [of "s\<lparr>WifiData := _, MACMEM := _,
      beacon_fragment_generation := _, beacon_fragment_index := _\<rparr>"] mod_Suc)
  show "rotating n sz s'" using r idx by (auto simp: s' rotating_def beacon_on_def)
  show "beaconFragments (WifiData s') = beaconFragments (WifiData s)"
    "beacon_extra_data_addr s' = beacon_extra_data_addr s" by (simp_all add: s')
qed

lemma rotate_steps:
  assumes "rotating n sz s"
  shows "rotating n sz ((Wifi_BeaconRotateFragment ^^ k) s)
    \<and> next_fragment ((Wifi_BeaconRotateFragment ^^ k) s) = (next_fragment s + k) mod n
    \<and> beaconFragments (WifiData ((Wifi_BeaconRotateFragment ^^ k) s)) = beaconFragments (WifiData s)
    \<and> beacon_extra_data_addr ((Wifi_BeaconRotateFragment ^^ k) s) = beacon_extra_data_addr s
    \<and> (\<forall>a. a < beacon_extra_data_addr s \<or> beacon_extra_data_addr s + sz \<le> a
        \<longrightarrow> MACMEM ((Wifi_BeaconRotateFragment ^^ k) s) a = MACMEM s a)"
proof (induction k)
  case 0
  have "next_fragment s < n" using assms by (auto simp: rotating_def next_fragment_def)
  with assms show ?case by simp
next
  case (Suc k)
  let ?t = "(Wifi_BeaconRotateFragment ^^ k) s"
  from Suc have rt: "rotating n sz ?t" by simp
  note st = rotate_step [OF rt]
  from st(2) Suc have "next_fragment (Wifi_BeaconRotateFragment ?t) = (next_fragment s + Suc k) mod n"
    by (simp add: mod_Suc_eq)
  with st Suc show ?case by (auto simp: mem_write_def)
qed





section \<open>Patches\<close>

text \<open>The patches the ring holds, oldest first.\<close>

definition ring_patches :: "Wifi_MainStruct \<Rightarrow> (u8 \<times> u8) list" where
  "ring_patches d =
     map (\<lambda>k. beaconPatch d ! ((unat (beaconPatchRead d) + k) mod 8))
       [0..<(unat (beaconPatchWrite d) + 8 - unat (beaconPatchRead d)) mod 8]"

lemma ring_patches_step:
  assumes "beaconPatchRead d < 8" "beaconPatchWrite d < 8" "beaconPatchRead d \<noteq> beaconPatchWrite d"
  shows "ring_patches d = beaconPatch d ! unat (beaconPatchRead d)
    # ring_patches (d\<lparr>beaconPatchRead := (beaconPatchRead d + 1) mod 8\<rparr>)"
proof -
  define r w where "r = unat (beaconPatchRead d)" and "w = unat (beaconPatchWrite d)"
  from assms have rw: "r < 8" "w < 8" "r \<noteq> w"
    by (auto simp: r_def w_def word_less_nat_alt word_unat_eq_iff)
  have r': "unat ((beaconPatchRead d + 1) mod 8) = (r + 1) mod 8"
    using rw(1) by (simp add: r_def unat_mod unat_word_ariths)
  let ?n = "(w + 8 - (r + 1) mod 8) mod 8"
  have n: "(w + 8 - r) mod 8 = Suc ?n"
  proof -
    have "\<forall>r \<in> set [0..<8]. \<forall>w \<in> set [0..<8]. r \<noteq> w \<longrightarrow>
        (w + 8 - r) mod 8 = Suc ((w + 8 - (r + 1) mod 8) mod (8 :: nat))" by code_simp
    with rw show ?thesis by simp
  qed
  have "ring_patches d = map (\<lambda>k. beaconPatch d ! ((r + k) mod 8)) [0..<Suc ?n]"
    by (simp add: ring_patches_def r_def [symmetric] w_def [symmetric] n)
  also have "[0..<Suc ?n] = 0 # map Suc [0..<?n]" by (simp add: upt_conv_Cons map_Suc_upt del: upt_Suc)
  also have "map (\<lambda>k. beaconPatch d ! ((r + k) mod 8)) (0 # map Suc [0..<?n]) =
      beaconPatch d ! r # map (\<lambda>k. beaconPatch d ! (((r + 1) mod 8 + k) mod 8)) [0..<?n]"
    using rw(1) by (simp add: mod_add_left_eq)
  also have "\<dots> = beaconPatch d ! r # ring_patches (d\<lparr>beaconPatchRead := (beaconPatchRead d + 1) mod 8\<rparr>)"
    by (simp add: ring_patches_def r' w_def [symmetric])
  finally show ?thesis by (simp add: r_def)
qed

lemma patch_loop_drains:
  "\<lbrakk>beaconPatchRead (WifiData s) < 8; beaconPatchWrite (WifiData s) < 8\<rbrakk> \<Longrightarrow>
    patch_loop s = s\<lparr>WifiData := (WifiData s)\<lparr>beaconPatchRead := beaconPatchWrite (WifiData s)\<rparr>,
      sticky_patches := fold sticky_add (ring_patches (WifiData s)) (sticky_patches s)\<rparr>"
proof (induction s rule: patch_loop.induct)
  case (1 s)
  let ?d = "WifiData s"
  show ?case
  proof (cases "beaconPatchRead ?d = beaconPatchWrite ?d")
    case True
    then show ?thesis by (subst patch_loop.simps) (simp add: Let_def ring_patches_def)
  next
    case False
    let ?s = "s\<lparr>WifiData := ?d\<lparr>beaconPatchRead := (beaconPatchRead ?d + 1) mod 8\<rparr>,
        sticky_patches := sticky_add (beaconPatch ?d ! unat (beaconPatchRead ?d)) (sticky_patches s)\<rparr>"
    have "(beaconPatchRead ?d + 1) mod 8 < 8" by (simp add: word_less_nat_alt unat_mod)
    with 1 False have "patch_loop ?s = ?s\<lparr>WifiData := (WifiData ?s)\<lparr>beaconPatchRead := beaconPatchWrite ?d\<rparr>,
        sticky_patches := fold sticky_add (ring_patches (WifiData ?s)) (sticky_patches ?s)\<rparr>"
      by simp
    moreover have "patch_loop s = patch_loop ?s"
      using 1 False by (subst patch_loop.simps) (simp add: Let_def)
    ultimately show ?thesis
      using ring_patches_step [of ?d] 1 False by simp
  qed
qed

definition sticky_ok :: "(u8 \<times> u8) list \<Rightarrow> bool" where
  "sticky_ok ps \<longleftrightarrow> distinct (map fst ps) \<and> length ps \<le> BEACON_MAX_STICKY_PATCHES"

lemma sticky_find_spec:
  "case sticky_find ofs ps of
     None \<Rightarrow> ofs \<notin> set (map fst ps)
   | Some i \<Rightarrow> i < length ps \<and> fst (ps ! i) = ofs"
  by (induction ofs ps rule: sticky_find.induct) (auto split: option.splits simp del: set_map)

lemma sticky_add_ok: "sticky_ok ps \<Longrightarrow> sticky_ok (sticky_add p ps)"
proof (cases "sticky_find (fst p) ps")
  case None
  assume "sticky_ok ps"
  with None sticky_find_spec [of "fst p" ps] show ?thesis
    by (auto simp: sticky_add_def sticky_ok_def)
next
  case (Some i)
  assume "sticky_ok ps"
  from Some sticky_find_spec [of "fst p" ps] have i: "i < length ps" "fst (ps ! i) = fst p" by simp_all
  then have "map fst (ps[i := p]) = map fst ps"
    by (intro nth_equalityI) (auto simp: nth_list_update)
  with \<open>sticky_ok ps\<close> Some show ?thesis by (simp add: sticky_add_def sticky_ok_def)
qed

lemma fold_sticky_add_ok: "sticky_ok ps \<Longrightarrow> sticky_ok (fold sticky_add qs ps)"
  by (induction qs arbitrary: ps) (auto intro: sticky_add_ok)

lemma write_patches_state:
  "fold (\<lambda>(ofs, v) s. mac_write_byte (vendor_ie_addr s + unat ofs) (ucast v) s) ps s =
   s\<lparr>MACMEM := fold (\<lambda>(ofs, v) m. Wifi_MacWriteByte m (vendor_ie_addr s + unat ofs) (ucast v)) ps (MACMEM s)\<rparr>"
  by (induction ps arbitrary: s) (auto simp: mac_write_byte_def)

lemma write_patches_mem:
  fixes ps :: "(u8 \<times> u8) list"
  assumes "base + 255 < 65536" "distinct (map fst ps)"
  shows "fold (\<lambda>(ofs, v) m. Wifi_MacWriteByte m (base + unat ofs) (ucast v)) ps m a =
    (case map_of (map (\<lambda>(ofs, v). (base + unat ofs, v)) ps) a of None \<Rightarrow> m a | Some v \<Rightarrow> v)"
  using assms(2)
proof (induction ps arbitrary: m)
  case (Cons p ps)
  obtain ofs v where p: "p = (ofs, v)" by (cases p)
  have "unat ofs < 256" by (rule unat_u8_less)
  with assms(1) have "base + unat ofs < 65536" by simp
  then have w: "Wifi_MacWriteByte m (base + unat ofs) (ucast v) = mem_write m (base + unat ofs) [v]"
    by (rule MacWriteByte_eq)
  have "map_of (map (\<lambda>(ofs, v). (base + unat ofs, v)) ps) (base + unat ofs) = None"
    using Cons.prems p by (auto simp: map_of_eq_None_iff image_iff word_unat_eq_iff)
  with Cons p w show ?case by (auto simp: mem_write_def split: option.splits)
qed simp




end
