(* ===== verification/Arm7_Tx.thy ===== *)
theory Arm7_Tx
  imports Arm7_Beacon
begin

text \<open>
  The ARM7 end of the transmit buffer (second part of source/arm7/ntr/tx_queue.c): one packet at
  a time is copied to the area of the MAC RAM its tag selects, its header is completed and its
  transfer started; a failed multiplayer command is rebuilt and sent again. The random number
  of the WEP initialisation vector is an argument. \<^const>\<open>None\<close> is a beacon whose setup reads
  outside of it.
\<close>

section \<open>Definitions\<close>

definition FC_PROTECTED_FRAME :: u16 where "FC_PROTECTED_FRAME = 0x4000"

definition mac_put :: "nat \<Rightarrow> u16 \<Rightarrow> arm7 \<Rightarrow> arm7" where
  "mac_put a v s = s\<lparr>MACMEM := W_MACMEM_write (MACMEM s) a v\<rparr>"

definition Wifi_TxArm9QueueCopyFirstData :: "nat \<Rightarrow> nat \<Rightarrow> arm7 \<Rightarrow> nat \<times> arm7" where
  "Wifi_TxArm9QueueCopyFirstData macbase buffer_end s =
     (let r = txbuf (WifiData s); n = tx_size (ring_status r) in
      if n \<le> buffer_end - macbase then
        (n, upd_data (stat_add WSTAT_TXDATABYTES n \<circ> stat_add WSTAT_TXBYTES n \<circ> stat_add WSTAT_TXPACKETS 1
               \<circ> txbuf_update (\<lambda>_. ring_skip r n))
             (s\<lparr>MACMEM := Wifi_MACWrite (ring_bytes r ((n + 1) div 2 * 2)) macbase n (MACMEM s)\<rparr>))
      else
        (0, upd_data (stat_add WSTAT_TXQUEUEDREJECTED 1
               \<circ> txbuf_update (\<lambda>_. r\<lparr>ring_read := ring_read r + 4\<rparr>)) s))"

definition Wifi_TxArm9QueueFlushByLoc3 :: "u32 \<Rightarrow> arm7 \<Rightarrow> arm7" where
  "Wifi_TxArm9QueueFlushByLoc3 rnd s =
     (let tx_base = MAC_TXBUF_START_OFFSET; ieee_base = MAC_TXBUF_START_OFFSET + HDR_TX_SIZE;
          s1 = (if W_MACMEM (MACMEM s) (tx_base + 8) = 0
                then mac_put (tx_base + 8) (ucast (maxrate7 (WifiData s))) s else s);
          s2 = (if W_MACMEM (MACMEM s1) ieee_base AND FC_PROTECTED_FRAME \<noteq> 0
                then mac_put (ieee_base + 24 + 2) (ucast (drop_bit 16 rnd AND 0xFF))
                       (mac_put (ieee_base + 24) (ucast (rnd AND 0xFFFF)) s1)
                else s1)
      in tx_start_loc3 s2)"

text \<open>The times of a multiplayer exchange.\<close>

definition cmd_client_time :: "Wifi_MainStruct \<Rightarrow> u16" where
  "cmd_client_time d = (curReplyDataSize d - of_nat HDR_DATA_MAC_SIZE) * 4 + 0xD2"

definition cmd_all_client_time :: "Wifi_MainStruct \<Rightarrow> u16" where
  "cmd_all_client_time d =
     0xF0 + (cmd_client_time d + 0xA) * ucast (num_connected (clients d))"

definition cmd_client_bits :: "Wifi_MainStruct \<Rightarrow> u16" where
  "cmd_client_bits d = aid_mask (clients d) AND NOT (BIT16 0)"

definition cmd_count :: "Wifi_MainStruct \<Rightarrow> u16" where
  "cmd_count d =
     (let host_time = curCmdDataSize d * 4 + 0x60 in
      0x180 + of_nat ((0x388 + unat (num_connected (clients d)) * unat (cmd_client_time d)
        + unat host_time + 0x32) div 8))"

definition Wifi_TxArm9QueueFlushByCmd :: "arm7 \<Rightarrow> arm7" where
  "Wifi_TxArm9QueueFlushByCmd s =
     (let tx_base = MAC_CMDBUF_START_OFFSET; ieee_base = MAC_CMDBUF_START_OFFSET + HDR_TX_SIZE;
          d = WifiData s;
          s1 = mac_put (ieee_base + HDR_DATA_MAC_SIZE + 2) (cmd_client_bits d)
                (mac_put (ieee_base + HDR_DATA_MAC_SIZE) (cmd_client_time d)
                  (mac_put (ieee_base + 2) (cmd_all_client_time d)
                    (mac_put (tx_base + 2) (cmd_client_bits d) s)))
      in s1\<lparr>W_CMD_TOTALTIME := cmd_all_client_time d, W_CMD_REPLYTIME := cmd_client_time d,
            W_CMD_COUNT := cmd_count d,
            W_TXBUF_CMD := TXBUF_ENABLE OR of_nat (MAC_CMDBUF_START_OFFSET div 2),
            W_TXREQ_SET := TXBIT_CMD # W_TXREQ_SET s1\<rparr>)"

definition reply_destination :: "arm7 \<Rightarrow> nat" where
  "reply_destination s =
     (if unat (W_TXBUF_REPLY2 s AND NOT TXBUF_ENABLE) * 2 = MAC_CLIENT_RX1_START_OFFSET
      then MAC_CLIENT_RX2_START_OFFSET else MAC_CLIENT_RX1_START_OFFSET)"

definition Wifi_TxArm9QueueFlushByReply :: "arm7 \<Rightarrow> bool \<times> arm7" where
  "Wifi_TxArm9QueueFlushByReply s =
     (let destination = reply_destination s;
          end_offset = (if destination = MAC_CLIENT_RX1_START_OFFSET
                        then MAC_CLIENT_RX1_END_OFFSET else MAC_CLIENT_RX2_END_OFFSET)
      in case Wifi_TxArm9QueueCopyFirstData destination end_offset s of
           (n, s1) \<Rightarrow>
             if n = 0 then (False, s1)
             else (True, (Wifi_NTR_KeepaliveCountReset s1)
                      \<lparr>W_TX_RETRYLIMIT := 0x0707,
                       W_TXBUF_REPLY1 := TXBUF_ENABLE OR of_nat (destination div 2)\<rparr>))"

definition Wifi_TxArm9QueueFlush :: "u32 \<Rightarrow> arm7 \<Rightarrow> (bool \<times> arm7) option" where
  "Wifi_TxArm9QueueFlush rnd s =
     (if ring_status (txbuf (WifiData s)) = 0 then Some (False, s)
      else
        let s = upd_data (txbuf_update ring_follow) s; status = ring_status (txbuf (WifiData s)) in
        if status = 0 then Some (False, s)
        else if status AND WFLAG_SEND_AS_REPLY \<noteq> 0 then Some (Wifi_TxArm9QueueFlushByReply s)
        else if status AND WFLAG_SEND_AS_BEACON \<noteq> 0 then
          (case Wifi_TxArm9QueueCopyFirstData MAC_BEACON_START_OFFSET MAC_BEACON_END_OFFSET s of
             (n, s1) \<Rightarrow>
               if n = 0 then Some (False, s1) else map_option (Pair True) (Wifi_BeaconSetup s1))
        else
          let is_cmd = (status AND WFLAG_SEND_AS_CMD \<noteq> 0);
              destination = (if is_cmd then MAC_CMDBUF_START_OFFSET else MAC_TXBUF_START_OFFSET);
              end_offset = (if is_cmd then MAC_CMDBUF_END_OFFSET else MAC_TXBUF_END_OFFSET)
          in case Wifi_TxArm9QueueCopyFirstData destination end_offset s of
               (n, s1) \<Rightarrow>
                 if n = 0 then Some (False, s1)
                 else
                   let s2 = Wifi_NTR_KeepaliveCountReset s1 in
                   if is_cmd then
                     Some (True, Wifi_TxArm9QueueFlushByCmd
                       (upd_data (\<lambda>d. d\<lparr>mpCmdArmed := mpCmdArmed d + 1\<rparr>) (s2\<lparr>W_TX_RETRYLIMIT := 0x0707\<rparr>)))
                   else Some (True, Wifi_TxArm9QueueFlushByLoc3 rnd s2))"

definition Wifi_Intr_MultiplayCmdDone :: "u32 \<Rightarrow> arm7 \<Rightarrow> arm7 option" where
  "Wifi_Intr_MultiplayCmdDone rnd s =
     (let over = (\<lambda>s. if Wifi_TxLoc3IsBusy s \<or> \<not> Wifi_TxArm7QueueIsEmpty s then Some s
                      else map_option snd (Wifi_TxArm9QueueFlush rnd s)) in
      if W_MACMEM (MACMEM s) MAC_CMDBUF_START_OFFSET = 5 then
        let s1 = upd_data (\<lambda>d. d\<lparr>mpCmdFailed := mpCmdFailed d + 1\<rparr>) s in
        if W_TX_RETRYLIMIT s1 AND 0xFF \<noteq> 0 then
          let fc = W_MACMEM (MACMEM s1) (MAC_CMDBUF_START_OFFSET + HDR_TX_SIZE) in
          if fc AND (FC_TO_DS OR FC_FROM_DS OR FC_TYPE_SUBTYPE_MASK) \<noteq> (TYPE_DATA_CF_POLL OR FC_FROM_DS)
          then Some (s1\<lparr>W_TXBUF_CMD := 0, W_TXREQ_RESET := TXBIT_CMD # W_TXREQ_RESET s1\<rparr>)
          else
            Some (Wifi_TxArm9QueueFlushByCmd
              (upd_data (\<lambda>d. d\<lparr>mpCmdRetry := mpCmdRetry d + 1\<rparr>)
                (mac_put MAC_CMDBUF_START_OFFSET 0
                  (s1\<lparr>W_TX_RETRYLIMIT := W_TX_RETRYLIMIT s1 - 1\<rparr>))))
        else over s1
      else over s)"

definition Wifi_TxAllQueueFlush :: "u32 \<Rightarrow> arm7 \<Rightarrow> arm7 option" where
  "Wifi_TxAllQueueFlush rnd s =
     (let s = upd_data (\<lambda>d. d\<lparr>stats := (stats d)(WSTAT_DEBUG :=
                ucast (W_TXBUF_LOC3 s AND TXBUF_ENABLE) OR ucast (W_TXBUSY s AND 0x7FFF))\<rparr>) s in
      if Wifi_TxLoc3IsBusy s \<or> Wifi_TxCmdIsBusy s then Some s
      else if \<not> Wifi_TxArm7QueueIsEmpty s then
        Some (Wifi_NTR_KeepaliveCountReset (Wifi_TxArm7QueueFlush s))
      else map_option snd (Wifi_TxArm9QueueFlush rnd s))"


section \<open>Taking one packet\<close>

lemma tx_holds_txbuf: "txbuf d = txbuf d' \<Longrightarrow> tx_holds d ps \<longleftrightarrow> tx_holds d' ps"
  by (simp add: tx_holds_def)

lemma tx_holds_stat [simp]: "tx_holds (stat_add w n d) ps \<longleftrightarrow> tx_holds d ps"
  by (simp add: tx_holds_def)

lemma CopyFirstData_fits:
  assumes holds: "tx_holds (WifiData s) ((st, bs) # qs)"
    and nw: "ring_status (txbuf (WifiData s)) \<noteq> WIFI_SIZE_WRAP"
    and area: "length bs \<le> e - a" "e \<le> 0x2000" "even a" "even e" "a \<le> e"
  obtains s1 pad where "Wifi_TxArm9QueueCopyFirstData a e s = (length bs, s1)"
    "tx_holds (WifiData s1) qs" "MACMEM s1 = mem_write (MACMEM s) a (bs @ pad)"
    "a + length (bs @ pad) \<le> e" "W_TXBUF_REPLY2 s1 = W_TXBUF_REPLY2 s"
    "W_TXREQ_SET s1 = W_TXREQ_SET s"
proof -
  let ?r = "txbuf (WifiData s)"
  note front = ring_holds_front [OF holds [unfolded tx_holds_def] nw WIFI_TXBUFFER_small]
  let ?m = "(length bs + 1) div 2 * 2"
  have m: "length bs \<le> ?m" "?m \<le> length bs + 1" "even ?m" by presburger+
  define pad where "pad = mem_read (ring_data ?r) (ring_read ?r + 4 + length bs) (?m - length bs)"
  have bytes: "ring_bytes ?r ?m = bs @ pad"
    using front(4) mem_read_append [of "ring_data ?r" "ring_read ?r + 4" "length bs" "?m - length bs"] m
    by (simp add: ring_bytes_def pad_def)
  have len: "length (bs @ pad) = ?m" using m by (simp add: pad_def)
  have fit: "a + ?m \<le> e" using area m by presburger
  then have small: "\<not> a + length bs > 0x2000" using area(2) m by linarith
  have sz: "tx_size (ring_status ?r) = length bs" using front by simp
  have w: "Wifi_MACWrite (ring_bytes ?r ?m) a (length bs) (MACMEM s) = mem_write (MACMEM s) a (bs @ pad)"
    unfolding Wifi_MACWrite_def bytes take_all [OF eq_refl [OF len]] using small by simp
  let ?s1 = "snd (Wifi_TxArm9QueueCopyFirstData a e s)"
  show thesis
  proof
    show "Wifi_TxArm9QueueCopyFirstData a e s = (length bs, ?s1)"
      "MACMEM ?s1 = mem_write (MACMEM s) a (bs @ pad)"
      "W_TXBUF_REPLY2 ?s1 = W_TXBUF_REPLY2 s" "W_TXREQ_SET ?s1 = W_TXREQ_SET s"
      using area(1) w by (simp_all add: Wifi_TxArm9QueueCopyFirstData_def sz Let_def)
    show "tx_holds (WifiData ?s1) qs"
      using area(1) front(5) by (simp add: Wifi_TxArm9QueueCopyFirstData_def sz Let_def) (simp add: tx_holds_def)
    show "a + length (bs @ pad) \<le> e" using fit len by simp
  qed
qed

section \<open>What a flush does\<close>

text \<open>The area of the MAC RAM a packet with a given status word belongs to.\<close>

definition tx_area :: "arm7 \<Rightarrow> u32 \<Rightarrow> nat \<times> nat" where
  "tx_area s st =
     (if st AND WFLAG_SEND_AS_REPLY \<noteq> 0 then (reply_destination s, reply_destination s + MAC_CLIENT_RX_SIZE)
      else if st AND WFLAG_SEND_AS_BEACON \<noteq> 0 then (MAC_BEACON_START_OFFSET, MAC_BEACON_END_OFFSET)
      else if st AND WFLAG_SEND_AS_CMD \<noteq> 0 then (MAC_CMDBUF_START_OFFSET, MAC_CMDBUF_END_OFFSET)
      else (MAC_TXBUF_START_OFFSET, MAC_TXBUF_END_OFFSET))"

definition only_area :: "nat \<Rightarrow> nat \<Rightarrow> mem \<Rightarrow> mem \<Rightarrow> bool" where
  "only_area a e m m' \<longleftrightarrow> (\<forall>i. m' i \<noteq> m i \<longrightarrow> a \<le> i \<and> i < e)"

lemma only_area_refl [simp]: "only_area a e m m"
  by (simp add: only_area_def)

lemma only_area_write: "a \<le> c \<Longrightarrow> c + length bs \<le> e \<Longrightarrow> only_area a e m (mem_write m c bs)"
  by (auto simp: only_area_def mem_write_def)

lemma only_area_trans: "only_area a e m m' \<Longrightarrow> only_area a e m' m'' \<Longrightarrow> only_area a e m m''"
  unfolding only_area_def by metis

lemma only_area_halfword [intro!]:
  "only_area a e m m' \<Longrightarrow> a \<le> c \<Longrightarrow> c + 2 \<le> e \<Longrightarrow> only_area a e m (W_MACMEM_write m' c v)"
  unfolding W_MACMEM_write_def by (erule only_area_trans) (rule only_area_write, auto)

text \<open>The fields the ARM7 fills in are in the first 40 bytes.\<close>

definition same_from :: "nat \<Rightarrow> mem \<Rightarrow> mem \<Rightarrow> bool" where
  "same_from b m m' \<longleftrightarrow> (\<forall>i \<ge> b. m' i = m i)"

lemma same_from_refl [simp]: "same_from b m m"
  by (simp add: same_from_def)

lemma same_from_halfword [intro!]:
  "same_from b m m' \<Longrightarrow> c + 2 \<le> b \<Longrightarrow> same_from b m (W_MACMEM_write m' c v)"
  by (simp add: same_from_def W_MACMEM_write_def mem_write_def)

lemma FlushByLoc3_effect:
  "only_area 0 0x700 (MACMEM s) (MACMEM (Wifi_TxArm9QueueFlushByLoc3 rnd s))"
  "same_from 40 (MACMEM s) (MACMEM (Wifi_TxArm9QueueFlushByLoc3 rnd s))"
  "WifiData (Wifi_TxArm9QueueFlushByLoc3 rnd s) = WifiData s"
  "W_TXREQ_SET (Wifi_TxArm9QueueFlushByLoc3 rnd s) = 13 # W_TXREQ_SET s"
  by (auto simp: Wifi_TxArm9QueueFlushByLoc3_def tx_start_loc3_def mac_put_def Let_def mac_map
      HDR_TX_SIZE_def TXBIT_LOC1_def TXBIT_LOC2_def TXBIT_LOC3_def)

lemma FlushByCmd_effect:
  "only_area 0x700 0xA00 (MACMEM s) (MACMEM (Wifi_TxArm9QueueFlushByCmd s))"
  "same_from (0x700 + 40) (MACMEM s) (MACMEM (Wifi_TxArm9QueueFlushByCmd s))"
  "WifiData (Wifi_TxArm9QueueFlushByCmd s) = WifiData s"
  "W_TXREQ_SET (Wifi_TxArm9QueueFlushByCmd s) = 2 # W_TXREQ_SET s"
  by (auto simp: Wifi_TxArm9QueueFlushByCmd_def mac_put_def Let_def mac_map HDR_TX_SIZE_def
      HDR_DATA_MAC_SIZE_def TXBIT_CMD_def)


lemma payload_kept:
  assumes "MACMEM s1 = mem_write m a (bs @ pad)" and "same_from (a + 40) (MACMEM s1) m2"
  shows "mem_read m2 (a + 40) (length bs - 40) = drop 40 bs"
proof (rule nth_equalityI)
  fix i assume "i < length (mem_read m2 (a + 40) (length bs - 40))"
  then have i: "40 + i < length bs" by simp
  have "m2 (a + 40 + i) = mem_write m a (bs @ pad) (a + 40 + i)"
    using assms by (simp add: same_from_def)
  also have "\<dots> = bs ! (40 + i)" using i by (simp add: mem_write_def nth_append add.assoc)
  finally show "mem_read m2 (a + 40) (length bs - 40) ! i = drop 40 bs ! i" using i by simp
qed simp

lemma flush_start:
  assumes "tx_holds (WifiData s) ((st, bs) # qs)"
  defines "t \<equiv> upd_data (txbuf_update ring_follow) s"
  shows "tx_holds (WifiData t) ((st, bs) # qs)" "ring_status (txbuf (WifiData t)) \<noteq> WIFI_SIZE_WRAP"
    "ring_status (txbuf (WifiData t)) = st" "st \<noteq> 0" "ring_status (txbuf (WifiData s)) \<noteq> 0"
proof -
  note h = assms(1) [unfolded tx_holds_def]
  show h': "tx_holds (WifiData t) ((st, bs) # qs)"
    using ring_holds_follow [OF h] by (simp add: t_def tx_holds_def)
  show nw: "ring_status (txbuf (WifiData t)) \<noteq> WIFI_SIZE_WRAP"
    using ring_follow_no_wrap [OF h] by (simp add: t_def)
  note front = ring_holds_front [OF h' [unfolded tx_holds_def] nw WIFI_TXBUFFER_small]
  show "ring_status (txbuf (WifiData t)) = st" "st \<noteq> 0" using front by simp_all
  show "ring_status (txbuf (WifiData s)) \<noteq> 0"
    using front(1,2) by (auto simp: t_def ring_follow_def ring_status_def WIFI_SIZE_WRAP_def split: if_splits)
qed

lemma reply_destination_cases:
  "reply_destination s = 0xA00 \<or> reply_destination s = 0xB00"
  by (simp add: reply_destination_def mac_map)

text \<open>A transmit buffer with one packet of twenty bytes, for the examples.\<close>

definition one_packet :: "u32 \<Rightarrow> Wifi_MainStruct" where
  "one_packet st = cleared\<lparr>txbuf := \<lparr>ring_write = 24, ring_read = 0,
     ring_data = mem_write (\<lambda>_. 0) 0 (le32 st @ replicate 20 7)\<rparr>\<rparr>"

lemma one_packet_holds:
  assumes "st \<noteq> 0" "st \<noteq> WIFI_SIZE_WRAP" "tx_size st = 20"
  shows "tx_holds (one_packet st) [(st, replicate 20 7)]"
proof -
  let ?m = "mem_write (\<lambda>_. 0) 0 (le32 st @ replicate 20 7)"
  have "read_u32 ?m 0 = of_le32 (le32 st ! 0) (le32 st ! 1) (le32 st ! 2) (le32 st ! 3)"
    by (simp add: read_u32_def mem_write_def nth_append numeral_2_eq_2)
  then have a: "read_u32 ?m 0 = st" by (simp add: of_le32_le32)
  have b: "mem_read ?m 4 20 = replicate 20 7"
    by (rule nth_equalityI) (simp_all add: mem_write_def nth_append)
  have c: "read_u32 ?m 24 = 0" by (simp add: read_u32_def mem_write_def of_le32_def)
  have "seg tx_size ?m 0 24 [(st, replicate 20 7)]" using assms a b by simp
  with c show ?thesis
    unfolding tx_holds_def one_packet_def by (intro ring_holds_flatI) (simp_all add: WIFI_TXBUFFER_SIZE_def)
qed





text \<open>
  C30. A packet that does not fit in its area is refused, but the queue does not step over it: the
  read index moves into the packet, and the next status word read is its first four bytes.
\<close>

theorem oversize_packet_desynchronises:
  assumes "tx_holds (WifiData s) ((st, bs) # qs)"
    and "ring_status (txbuf (WifiData s)) \<noteq> WIFI_SIZE_WRAP"
    and "e - a < length bs" and "4 \<le> length bs"
    and "Wifi_TxArm9QueueCopyFirstData a e s = (n, s')"
  shows "n = 0 \<and> ring_read (txbuf (WifiData s')) = ring_read (txbuf (WifiData s)) + 4
    \<and> ring_status (txbuf (WifiData s')) = of_le32 (bs ! 0) (bs ! 1) (bs ! 2) (bs ! 3)"
proof -
  let ?r = "txbuf (WifiData s)"
  note front = ring_holds_front [OF assms(1) [unfolded tx_holds_def] assms(2) WIFI_TXBUFFER_small]
  have "ring_data ?r (ring_read ?r + 4 + i) = bs ! i" if "i < 4" for i
    using that assms(4) arg_cong [OF front(4), of "\<lambda>xs. xs ! i"] by (simp add: ring_bytes_def)
  from this [of 0] this [of 1] this [of 2] this [of 3]
  have "read_u32 (ring_data ?r) (ring_read ?r + 4) = of_le32 (bs ! 0) (bs ! 1) (bs ! 2) (bs ! 3)"
    by (simp add: read_u32_def add.assoc)
  with assms(3,5) front(1,3) show ?thesis
    by (auto simp: Wifi_TxArm9QueueCopyFirstData_def Let_def ring_status_def)
qed

lemma oversize_packet_desynchronises_witness:
  "\<exists>s'. Wifi_TxArm9QueueCopyFirstData 0 16 (arm7_start (one_packet 0x10000014)) = (0, s')
    \<and> ring_read (txbuf (WifiData s')) = 4 \<and> ring_status (txbuf (WifiData s')) = 0x07070707"
proof -
  let ?s = "arm7_start (one_packet 0x10000014)"
  have h: "tx_holds (WifiData ?s) [(0x10000014, replicate 20 7)]"
    using one_packet_holds [of "0x10000014"]
    by (simp add: arm7_start_def WIFI_SIZE_WRAP_def tx_size_def WFLAG_SEND_SIZE_MASK_def)
  have nw: "ring_status (txbuf (WifiData ?s)) \<noteq> WIFI_SIZE_WRAP" "ring_read (txbuf (WifiData ?s)) = 0"
    by (simp_all add: arm7_start_def one_packet_def ring_status_def read_u32_def mem_write_def le32_def
        of_le32_def WIFI_SIZE_WRAP_def)
  obtain n s' where c: "Wifi_TxArm9QueueCopyFirstData 0 16 ?s = (n, s')" by fastforce
  from oversize_packet_desynchronises [OF h nw(1) _ _ c] nw(2) c show ?thesis
    by (simp add: of_le32_def)
qed


end
