(* ===== verification/Mp_Clients.thy ===== *)
theory Mp_Clients
  imports Arm7_Beacon
begin

text \<open>
  The clients of a multiplayer host (source/arm7/ntr/multiplayer.c): each entry of the list goes
  from disconnected to authenticated to associated, and back. \<open>clients_ok\<close> relates the list to
  the count and to the mask of associated clients kept beside it; every operation preserves it.
  The result -1 is \<^const>\<open>None\<close>. Deauthentication frames are logged with their destination.
\<close>

section \<open>Operations\<close>

definition no_client :: Wifi_ConnectedClient where
  "no_client = \<lparr>cl_macaddr = (0, 0, 0), cl_association_id = 0, cl_state = WIFI_CLIENT_DISCONNECTED\<rparr>"

abbreviation host_list :: "arm7 \<Rightarrow> Wifi_ConnectedClient list" where
  "host_list s \<equiv> clients_list (clients (WifiData s))"

abbreviation host_max :: "arm7 \<Rightarrow> nat" where
  "host_max s \<equiv> unat (curMaxClients (WifiData s))"

definition upd_clients :: "(Wifi_ClientsInfo \<Rightarrow> Wifi_ClientsInfo) \<Rightarrow> arm7 \<Rightarrow> arm7" where
  "upd_clients f = upd_data (\<lambda>d. d\<lparr>clients := f (clients d)\<rparr>)"

definition set_client :: "nat \<Rightarrow> (Wifi_ConnectedClient \<Rightarrow> Wifi_ConnectedClient) \<Rightarrow> Wifi_ClientsInfo \<Rightarrow> Wifi_ClientsInfo" where
  "set_client i f c = c\<lparr>clients_list := (clients_list c)[i := f (clients_list c ! i)]\<rparr>"

definition announce_players :: "arm7 \<Rightarrow> arm7" where
  "announce_players s =
     Wifi_SetBeaconCurrentPlayers (ucast (num_connected (clients (WifiData s))) + 1) s"

definition Wifi_MPHost_SendDeauthentication :: "mac \<Rightarrow> arm7 \<Rightarrow> arm7" where
  "Wifi_MPHost_SendDeauthentication m s = s\<lparr>deauth_log := m # deauth_log s\<rparr>"

definition Wifi_MPHost_ResetClients :: "arm7 \<Rightarrow> arm7" where
  "Wifi_MPHost_ResetClients s =
     announce_players (upd_clients (\<lambda>c. c\<lparr>clients_list := replicate WIFI_MAX_MULTIPLAYER_CLIENTS no_client,
        num_connected := 0, aid_mask := BIT16 0\<rparr>) s)"

definition Wifi_MPHost_ClientGetByMacAddr :: "mac \<Rightarrow> arm7 \<Rightarrow> nat option" where
  "Wifi_MPHost_ClientGetByMacAddr macaddr s =
     find (\<lambda>i. cl_state (host_list s ! i) \<noteq> WIFI_CLIENT_DISCONNECTED \<and> cl_macaddr (host_list s ! i) = macaddr)
       [0..<host_max s]"

definition Wifi_MPHost_ClientGetByAID :: "u16 \<Rightarrow> arm7 \<Rightarrow> nat option" where
  "Wifi_MPHost_ClientGetByAID association_id s =
     (if association_id = 0 then None
      else let index = unat association_id - 1 in
        if index \<ge> host_max s then None
        else if cl_state (host_list s ! index) \<noteq> WIFI_CLIENT_DISCONNECTED then Some index else None)"

definition Wifi_MPHost_ClientAuthenticate :: "mac \<Rightarrow> arm7 \<Rightarrow> nat option \<times> arm7" where
  "Wifi_MPHost_ClientAuthenticate macaddr s =
     (if reqFlags (WifiData s) AND WFLAG_REQ_ALLOWCLIENTS = 0 then (None, s)
      else case Wifi_MPHost_ClientGetByMacAddr macaddr s of
        Some index \<Rightarrow>
          let aid = unat (cl_association_id (host_list s ! index)) in
          (Some index, upd_clients
             (\<lambda>c. (set_client index (\<lambda>x. x\<lparr>cl_state := WIFI_CLIENT_AUTHENTICATED\<rparr>) c)
                  \<lparr>aid_mask := aid_mask c AND NOT (BIT16 aid)\<rparr>) s)
      | None \<Rightarrow>
          (case find (\<lambda>i. cl_state (host_list s ! i) = WIFI_CLIENT_DISCONNECTED) [0..<host_max s] of
             Some i \<Rightarrow>
               (Some i, announce_players (upd_clients
                  (\<lambda>c. (set_client i (\<lambda>x. x\<lparr>cl_state := WIFI_CLIENT_AUTHENTICATED, cl_macaddr := macaddr\<rparr>) c)
                       \<lparr>num_connected := num_connected c + 1\<rparr>) s))
           | None \<Rightarrow> (None, s)))"

definition Wifi_MPHost_ClientAssociate :: "mac \<Rightarrow> arm7 \<Rightarrow> nat option \<times> arm7" where
  "Wifi_MPHost_ClientAssociate macaddr s =
     (if reqFlags (WifiData s) AND WFLAG_REQ_ALLOWCLIENTS = 0 then (None, s)
      else case Wifi_MPHost_ClientGetByMacAddr macaddr s of
        None \<Rightarrow> (None, s)
      | Some index \<Rightarrow>
          let client = host_list s ! index in
          case cl_state client of
            WIFI_CLIENT_ASSOCIATED \<Rightarrow> (Some (unat (cl_association_id client)), s)
          | WIFI_CLIENT_AUTHENTICATED \<Rightarrow>
              (Some (index + 1), upd_clients
                 (\<lambda>c. (set_client index (\<lambda>x. x\<lparr>cl_association_id := of_nat (index + 1),
                                              cl_state := WIFI_CLIENT_ASSOCIATED\<rparr>) c)
                      \<lparr>aid_mask := aid_mask c OR BIT16 (index + 1)\<rparr>) s)
          | WIFI_CLIENT_DISCONNECTED \<Rightarrow> (None, s))"

definition Wifi_MPHost_ClientDisconnect :: "mac \<Rightarrow> arm7 \<Rightarrow> bool \<times> arm7" where
  "Wifi_MPHost_ClientDisconnect macaddr s =
     (case Wifi_MPHost_ClientGetByMacAddr macaddr s of
        None \<Rightarrow> (False, s)
      | Some index \<Rightarrow>
          (True, announce_players (upd_clients
             (\<lambda>c. (set_client index (\<lambda>x. x\<lparr>cl_state := WIFI_CLIENT_DISCONNECTED\<rparr>) c)
                  \<lparr>aid_mask := aid_mask c AND NOT (BIT16 (unat (cl_association_id (host_list s ! index)))),
                   num_connected := num_connected c - 1\<rparr>) s)))"

definition Wifi_MPHost_KickByAID :: "nat \<Rightarrow> arm7 \<Rightarrow> arm7" where
  "Wifi_MPHost_KickByAID association_id s =
     (if association_id = 0 then s
      else let index = association_id - 1 in
        if index \<ge> host_max s then s
        else if cl_state (host_list s ! index) \<noteq> WIFI_CLIENT_DISCONNECTED then
          announce_players (upd_clients
            (\<lambda>c. (set_client index (\<lambda>x. x\<lparr>cl_state := WIFI_CLIENT_DISCONNECTED\<rparr>) c)
                 \<lparr>aid_mask := aid_mask c AND NOT (BIT16 association_id),
                  num_connected := num_connected c - 1\<rparr>)
            (Wifi_MPHost_SendDeauthentication (cl_macaddr (host_list s ! index)) s))
        else s)"

definition kick_not_associated :: "nat \<Rightarrow> arm7 \<Rightarrow> arm7" where
  "kick_not_associated i s =
     (if cl_state (host_list s ! i) = WIFI_CLIENT_AUTHENTICATED then
        upd_clients
          (\<lambda>c. (set_client i (\<lambda>x. x\<lparr>cl_state := WIFI_CLIENT_DISCONNECTED\<rparr>) c)
               \<lparr>aid_mask := aid_mask c AND NOT (BIT16 (i + 1)), num_connected := num_connected c - 1\<rparr>)
          (Wifi_MPHost_SendDeauthentication (cl_macaddr (host_list s ! i)) s)
      else s)"

definition Wifi_MPHost_KickNotAssociatedClients :: "arm7 \<Rightarrow> arm7" where
  "Wifi_MPHost_KickNotAssociatedClients s = announce_players (fold kick_not_associated [0..<host_max s] s)"

definition Wifi_MPHost_ClientKickAll :: "arm7 \<Rightarrow> arm7" where
  "Wifi_MPHost_ClientKickAll s =
     Wifi_MPHost_SendDeauthentication wifi_broadcast_addr (Wifi_MPHost_ResetClients s)"

section \<open>Invariant\<close>

abbreviation connected :: "Wifi_ConnectedClient \<Rightarrow> bool" where
  "connected x \<equiv> cl_state x \<noteq> WIFI_CLIENT_DISCONNECTED"

definition entry_ok :: "nat \<Rightarrow> u16 \<Rightarrow> nat \<Rightarrow> Wifi_ConnectedClient \<Rightarrow> bool" where
  "entry_ok n am i x \<longleftrightarrow>
     (bit am (i + 1) \<longleftrightarrow> cl_state x = WIFI_CLIENT_ASSOCIATED)
     \<and> (cl_association_id x = of_nat (i + 1)
        \<or> cl_association_id x = 0 \<and> cl_state x \<noteq> WIFI_CLIENT_ASSOCIATED)
     \<and> (connected x \<longrightarrow> i < n)"

definition same_client :: "Wifi_ConnectedClient \<Rightarrow> Wifi_ConnectedClient \<Rightarrow> bool" where
  "same_client x y \<longleftrightarrow> connected x \<and> connected y \<and> cl_macaddr x = cl_macaddr y"

definition clients_ok :: "nat \<Rightarrow> Wifi_ClientsInfo \<Rightarrow> bool" where
  "clients_ok n c \<longleftrightarrow>
     length (clients_list c) = 15 \<and> n \<le> 15
     \<and> num_connected c = of_nat (length (filter connected (clients_list c)))
     \<and> (\<forall>i<15. entry_ok n (aid_mask c) i (clients_list c ! i))
     \<and> (\<forall>i<15. \<forall>j<15. same_client (clients_list c ! i) (clients_list c ! j) \<longrightarrow> i = j)"

definition host_ok :: "arm7 \<Rightarrow> bool" where
  "host_ok s \<longleftrightarrow> clients_ok (host_max s) (clients (WifiData s))"

lemma announce_players_data [simp]: "WifiData (announce_players s) = WifiData s"
  by (simp add: announce_players_def Wifi_SetBeaconCurrentPlayers_def mac_write_byte_def)

lemma SendDeauthentication_data [simp]: "WifiData (Wifi_MPHost_SendDeauthentication m s) = WifiData s"
  by (simp add: Wifi_MPHost_SendDeauthentication_def)

lemma upd_clients_data [simp]:
  "clients (WifiData (upd_clients f s)) = f (clients (WifiData s))"
  "curMaxClients (WifiData (upd_clients f s)) = curMaxClients (WifiData s)"
  by (simp_all add: upd_clients_def upd_data_def)

lemma length_filter_update:
  "i < length xs \<Longrightarrow> length (filter P (xs[i := x])) + (if P (xs ! i) then 1 else 0)
     = length (filter P xs) + (if P x then 1 else 0)"
proof (induction xs arbitrary: i)
  case (Cons y ys)
  show ?case
  proof (cases i)
    case (Suc k)
    with Cons.IH [of k] Cons.prems show ?thesis by simp
  qed simp
qed simp

lemma find_Some_upt: "find P [0..<n] = Some i \<Longrightarrow> i < n \<and> P i"
  by (auto simp: find_Some_iff)

lemma get_by_mac:
  assumes "Wifi_MPHost_ClientGetByMacAddr m s = Some i"
  shows "i < host_max s" "connected (host_list s ! i)" "cl_macaddr (host_list s ! i) = m"
  using find_Some_upt [OF assms [unfolded Wifi_MPHost_ClientGetByMacAddr_def]] by simp_all

lemma get_by_mac_None:
  assumes "Wifi_MPHost_ClientGetByMacAddr m s = None" "i < host_max s"
  shows "\<not> (connected (host_list s ! i) \<and> cl_macaddr (host_list s ! i) = m)"
  using assms by (simp add: Wifi_MPHost_ClientGetByMacAddr_def find_None_iff)

text \<open>The transitions of one entry, on which every operation rests.\<close>

lemma clients_ok_update:
  assumes ok: "clients_ok n c" and i: "i < 15" and x: "entry_ok n am i x"
    and other: "\<And>j. j \<noteq> i \<Longrightarrow> bit am (j + 1) \<longleftrightarrow> bit (aid_mask c) (j + 1)"
    and num: "num = of_nat (length (filter connected ((clients_list c)[i := x])))"
    and uniq: "\<And>j. j < 15 \<Longrightarrow> j \<noteq> i \<Longrightarrow> \<not> same_client x (clients_list c ! j)"
    and c': "clients_list c' = (clients_list c)[i := x]" "aid_mask c' = am" "num_connected c' = num"
  shows "clients_ok n c'"
proof -
  have sym: "same_client a b \<longleftrightarrow> same_client b a" for a b by (auto simp: same_client_def)
  have e: "entry_ok n am j ((clients_list c)[i := x] ! j)" if "j < 15" for j
    using that ok x other [of j] i by (cases "j = i") (auto simp: clients_ok_def entry_ok_def)
  have u: "j = k" if "j < 15" "k < 15"
      "same_client ((clients_list c)[i := x] ! j) ((clients_list c)[i := x] ! k)" for j k
    using that ok uniq sym i by (cases "j = i"; cases "k = i") (auto simp: clients_ok_def)
  show ?thesis
    using ok e u unfolding clients_ok_def c' num by simp
qed

lemma connected_count:
  assumes "clients_ok n c" "i < 15"
  shows "connected (clients_list c ! i) \<Longrightarrow> connected x \<Longrightarrow>
      of_nat (length (filter connected ((clients_list c)[i := x]))) = num_connected c"
    and "connected (clients_list c ! i) \<Longrightarrow> \<not> connected x \<Longrightarrow>
      of_nat (length (filter connected ((clients_list c)[i := x]))) = num_connected c - 1"
    and "\<not> connected (clients_list c ! i) \<Longrightarrow> connected x \<Longrightarrow>
      of_nat (length (filter connected ((clients_list c)[i := x]))) = num_connected c + 1"
proof -
  from assms have i: "i < length (clients_list c)"
    and n: "num_connected c = of_nat (length (filter connected (clients_list c)))"
    by (auto simp: clients_ok_def)
  note f = length_filter_update [OF i, of connected x]
  show "of_nat (length (filter connected ((clients_list c)[i := x]))) = num_connected c"
    if "connected (clients_list c ! i)" "connected x" using f that n by simp
  show "of_nat (length (filter connected ((clients_list c)[i := x]))) = num_connected c - 1"
    if "connected (clients_list c ! i)" "\<not> connected x"
  proof -
    from f that have "length (filter connected (clients_list c))
        = Suc (length (filter connected ((clients_list c)[i := x])))" by simp
    then show ?thesis by (simp add: n)
  qed
  show "of_nat (length (filter connected ((clients_list c)[i := x]))) = num_connected c + 1"
    if "\<not> connected (clients_list c ! i)" "connected x" using f that n by simp
qed

lemma clients_okD:
  assumes "clients_ok n c" "i < n"
  shows "i < 15" "entry_ok n (aid_mask c) i (clients_list c ! i)"
  using assms by (auto simp: clients_ok_def)

lemma same_client_unique:
  "\<lbrakk>clients_ok n c; i < 15; j < 15; j \<noteq> i; cl_macaddr x = cl_macaddr (clients_list c ! i);
    connected (clients_list c ! i)\<rbrakk> \<Longrightarrow> \<not> same_client x (clients_list c ! j)"
  unfolding clients_ok_def same_client_def by metis

lemma aid_of_entry:
  assumes "entry_ok n am i x" "i < 15"
  shows "unat (cl_association_id x) = i + 1
    \<or> unat (cl_association_id x) = 0 \<and> cl_state x \<noteq> WIFI_CLIENT_ASSOCIATED"
proof -
  have "unat (of_nat (i + 1) :: u16) = i + 1" by (subst unat_of_nat) (use assms(2) in simp)
  with assms(1) show ?thesis by (auto simp: entry_ok_def)
qed

lemma clients_ok_connect:
  assumes ok: "clients_ok n c" "i < n" and st: "\<not> connected (clients_list c ! i)"
    and new: "\<forall>j<n. \<not> (connected (clients_list c ! j) \<and> cl_macaddr (clients_list c ! j) = m)"
  shows "clients_ok n ((set_client i (\<lambda>x. x\<lparr>cl_state := WIFI_CLIENT_AUTHENTICATED, cl_macaddr := m\<rparr>) c)
      \<lparr>num_connected := num_connected c + 1\<rparr>)"
proof -
  note i = clients_okD [OF ok]
  let ?x = "(clients_list c ! i)\<lparr>cl_state := WIFI_CLIENT_AUTHENTICATED, cl_macaddr := m\<rparr>"
  have x: "entry_ok n (aid_mask c) i ?x" using i(2) st ok(2) by (auto simp: entry_ok_def)
  have u: "\<not> same_client ?x (clients_list c ! j)" if "j < 15" for j
    using that ok(1) new by (auto simp: same_client_def clients_ok_def entry_ok_def)
  show ?thesis
    by (rule clients_ok_update [OF ok(1) i(1) x refl connected_count(3) [OF ok(1) i(1) st, symmetric] u])
      (simp_all add: set_client_def)
qed

lemma clients_ok_disconnect:
  assumes ok: "clients_ok n c" "i < n" and st: "connected (clients_list c ! i)"
    and aid: "aid = i + 1 \<or> aid = unat (cl_association_id (clients_list c ! i))"
  shows "clients_ok n ((set_client i (\<lambda>x. x\<lparr>cl_state := WIFI_CLIENT_DISCONNECTED\<rparr>) c)
      \<lparr>aid_mask := aid_mask c AND NOT (BIT16 aid), num_connected := num_connected c - 1\<rparr>)"
proof -
  note i = clients_okD [OF ok]
  let ?x = "(clients_list c ! i)\<lparr>cl_state := WIFI_CLIENT_DISCONNECTED\<rparr>"
  have aid': "aid = i + 1 \<or> aid = 0 \<and> cl_state (clients_list c ! i) \<noteq> WIFI_CLIENT_ASSOCIATED"
    using aid aid_of_entry [OF i(2,1)] by auto
  have x: "entry_ok n (aid_mask c AND NOT (BIT16 aid)) i ?x"
    using i(2) aid' by (auto simp: entry_ok_def)
  have o: "bit (aid_mask c AND NOT (BIT16 aid)) (j + 1) \<longleftrightarrow> bit (aid_mask c) (j + 1)" if "j \<noteq> i" for j
    using that aid' by auto
  have u: "\<not> same_client ?x y" for y by (simp add: same_client_def)
  show ?thesis
    by (rule clients_ok_update [OF ok(1) i(1) x o connected_count(2) [OF ok(1) i(1) st, symmetric] u])
      (simp_all add: set_client_def)
qed

lemma clients_ok_authenticate_again:
  assumes ok: "clients_ok n c" "i < n" and st: "connected (clients_list c ! i)"
    and aid: "aid = unat (cl_association_id (clients_list c ! i))"
  shows "clients_ok n ((set_client i (\<lambda>x. x\<lparr>cl_state := WIFI_CLIENT_AUTHENTICATED\<rparr>) c)
      \<lparr>aid_mask := aid_mask c AND NOT (BIT16 aid)\<rparr>)"
proof -
  note i = clients_okD [OF ok]
  let ?x = "(clients_list c ! i)\<lparr>cl_state := WIFI_CLIENT_AUTHENTICATED\<rparr>"
  have aid': "aid = i + 1 \<or> aid = 0 \<and> cl_state (clients_list c ! i) \<noteq> WIFI_CLIENT_ASSOCIATED"
    using aid aid_of_entry [OF i(2,1)] by auto
  have x: "entry_ok n (aid_mask c AND NOT (BIT16 aid)) i ?x"
    using i(2) aid' ok(2) by (auto simp: entry_ok_def)
  have o: "bit (aid_mask c AND NOT (BIT16 aid)) (j + 1) \<longleftrightarrow> bit (aid_mask c) (j + 1)" if "j \<noteq> i" for j
    using that aid' by auto
  have u: "\<not> same_client ?x (clients_list c ! j)" if "j < 15" "j \<noteq> i" for j
    by (rule same_client_unique [OF ok(1) i(1) that]) (simp_all add: st)
  show ?thesis
    by (rule clients_ok_update [OF ok(1) i(1) x o connected_count(1) [OF ok(1) i(1) st, symmetric] u])
      (simp_all add: set_client_def)
qed

lemma clients_ok_associate:
  assumes ok: "clients_ok n c" "i < n" and st: "connected (clients_list c ! i)"
  shows "clients_ok n ((set_client i (\<lambda>x. x\<lparr>cl_association_id := of_nat (i + 1),
        cl_state := WIFI_CLIENT_ASSOCIATED\<rparr>) c)\<lparr>aid_mask := aid_mask c OR BIT16 (i + 1)\<rparr>)"
proof -
  note i = clients_okD [OF ok]
  let ?x = "(clients_list c ! i)\<lparr>cl_association_id := of_nat (i + 1), cl_state := WIFI_CLIENT_ASSOCIATED\<rparr>"
  have x: "entry_ok n (aid_mask c OR BIT16 (i + 1)) i ?x"
    using i(1) ok(2) by (simp add: entry_ok_def del: of_nat_Suc)
  have o: "bit (aid_mask c OR BIT16 (i + 1)) (j + 1) \<longleftrightarrow> bit (aid_mask c) (j + 1)" if "j \<noteq> i" for j
    using that by simp
  have u: "\<not> same_client ?x (clients_list c ! j)" if "j < 15" "j \<noteq> i" for j
    by (rule same_client_unique [OF ok(1) i(1) that]) (simp_all add: st)
  show ?thesis
    by (rule clients_ok_update [OF ok(1) i(1) x o connected_count(1) [OF ok(1) i(1) st, symmetric] u])
      (simp_all add: set_client_def)
qed


section \<open>Every operation keeps the invariant\<close>

lemma host_ok_announce [simp]: "host_ok (announce_players s) \<longleftrightarrow> host_ok s"
  by (simp add: host_ok_def)

lemma host_ok_deauth [simp]: "host_ok (Wifi_MPHost_SendDeauthentication m s) \<longleftrightarrow> host_ok s"
  by (simp add: host_ok_def)

lemma host_ok_upd [simp]:
  "host_ok (upd_clients f s) \<longleftrightarrow> clients_ok (host_max s) (f (clients (WifiData s)))"
  by (simp add: host_ok_def)

lemma host_ok_reset: "host_max s \<le> 15 \<Longrightarrow> host_ok (Wifi_MPHost_ResetClients s)"
  by (simp add: Wifi_MPHost_ResetClients_def clients_ok_def entry_ok_def same_client_def
      no_client_def WIFI_MAX_MULTIPLAYER_CLIENTS_def)

lemma host_ok_authenticate:
  assumes "host_ok s"
  shows "host_ok (snd (Wifi_MPHost_ClientAuthenticate m s))"
proof -
  let ?free = "find (\<lambda>i. cl_state (host_list s ! i) = WIFI_CLIENT_DISCONNECTED) [0..<host_max s]"
  note ok = assms [unfolded host_ok_def]
  show ?thesis
  proof (cases "Wifi_MPHost_ClientGetByMacAddr m s")
    case (Some i)
    note g = get_by_mac [OF Some]
    have "clients_ok (host_max s) ((set_client i (\<lambda>x. x\<lparr>cl_state := WIFI_CLIENT_AUTHENTICATED\<rparr>) (clients (WifiData s)))
        \<lparr>aid_mask := aid_mask (clients (WifiData s)) AND NOT (BIT16 (unat (cl_association_id (host_list s ! i))))\<rparr>)"
      by (rule clients_ok_authenticate_again [OF ok g(1,2) refl])
    with Some assms show ?thesis by (simp add: Wifi_MPHost_ClientAuthenticate_def Let_def)
  next
    case None
    show ?thesis
    proof (cases ?free)
      case (Some i)
      note f = find_Some_upt [OF Some]
      have "clients_ok (host_max s) ((set_client i (\<lambda>x. x\<lparr>cl_state := WIFI_CLIENT_AUTHENTICATED, cl_macaddr := m\<rparr>)
          (clients (WifiData s)))\<lparr>num_connected := num_connected (clients (WifiData s)) + 1\<rparr>)"
        using f get_by_mac_None [OF None] by (intro clients_ok_connect [OF ok]) auto
      with None Some assms show ?thesis by (simp add: Wifi_MPHost_ClientAuthenticate_def)
    qed (use None assms in \<open>simp add: Wifi_MPHost_ClientAuthenticate_def\<close>)
  qed
qed

lemma host_ok_associate:
  assumes "host_ok s"
  shows "host_ok (snd (Wifi_MPHost_ClientAssociate m s))"
proof (cases "Wifi_MPHost_ClientGetByMacAddr m s")
  case (Some i)
  note g = get_by_mac [OF Some]
  have "clients_ok (host_max s) ((set_client i (\<lambda>x. x\<lparr>cl_association_id := of_nat (i + 1),
      cl_state := WIFI_CLIENT_ASSOCIATED\<rparr>) (clients (WifiData s)))
      \<lparr>aid_mask := aid_mask (clients (WifiData s)) OR BIT16 (i + 1)\<rparr>)"
    by (rule clients_ok_associate [OF assms [unfolded host_ok_def] g(1,2)])
  with Some assms show ?thesis
    by (simp add: Wifi_MPHost_ClientAssociate_def Let_def split: Wifi_ConnectedClientState.split)
qed (use assms in \<open>simp add: Wifi_MPHost_ClientAssociate_def\<close>)

lemma host_ok_disconnect:
  assumes "host_ok s"
  shows "host_ok (snd (Wifi_MPHost_ClientDisconnect m s))"
proof (cases "Wifi_MPHost_ClientGetByMacAddr m s")
  case (Some i)
  note g = get_by_mac [OF Some]
  show ?thesis
    using clients_ok_disconnect [OF assms [unfolded host_ok_def] g(1,2) disjI2 [OF refl]] Some
    by (simp add: Wifi_MPHost_ClientDisconnect_def)
qed (use assms in \<open>simp add: Wifi_MPHost_ClientDisconnect_def\<close>)

lemma host_ok_kick_aid:
  assumes "host_ok s"
  shows "host_ok (Wifi_MPHost_KickByAID aid s)"
proof (cases "aid = 0 \<or> aid - 1 \<ge> host_max s \<or> \<not> connected (host_list s ! (aid - 1))")
  case True
  with assms show ?thesis by (auto simp: Wifi_MPHost_KickByAID_def Let_def)
next
  case False
  then have "aid - 1 < host_max s" "connected (host_list s ! (aid - 1))" "aid = aid - 1 + 1" by auto
  from clients_ok_disconnect [OF assms [unfolded host_ok_def] this(1,2) disjI1 [OF this(3)]] False
  show ?thesis by (simp add: Wifi_MPHost_KickByAID_def Let_def)
qed

lemma kick_not_associated_max [simp]: "host_max (kick_not_associated i s) = host_max s"
  by (simp add: kick_not_associated_def)

lemma host_ok_kick_not_associated:
  assumes "host_ok s" "i < host_max s"
  shows "host_ok (kick_not_associated i s)"
  using assms clients_ok_disconnect [OF assms(1) [unfolded host_ok_def] assms(2) _ disjI1 [OF refl]]
  by (simp add: kick_not_associated_def)

lemma host_ok_kick_all_not_associated:
  assumes "host_ok s"
  shows "host_ok (Wifi_MPHost_KickNotAssociatedClients s)"
proof -
  have "host_ok t \<Longrightarrow> \<forall>i \<in> set is. i < host_max t \<Longrightarrow> host_ok (fold kick_not_associated is t)" for "is" t
    by (induction "is" arbitrary: t) (simp_all add: host_ok_kick_not_associated)
  with assms show ?thesis by (simp add: Wifi_MPHost_KickNotAssociatedClients_def)
qed

lemma fold_kick_max [simp]: "host_max (fold kick_not_associated is s) = host_max s"
  by (induction "is" arbitrary: s) simp_all

text \<open>What happens to a host: frames of its clients and requests of the ARM9.\<close>

datatype host_op =
    Authenticate mac | Associate mac | Disconnect mac
  | KickAID nat | KickNotAssociated | KickAll | Flags u16

fun host_do :: "host_op \<Rightarrow> arm7 \<Rightarrow> arm7" where
  "host_do (Authenticate m) s = snd (Wifi_MPHost_ClientAuthenticate m s)"
| "host_do (Associate m) s = snd (Wifi_MPHost_ClientAssociate m s)"
| "host_do (Disconnect m) s = snd (Wifi_MPHost_ClientDisconnect m s)"
| "host_do (KickAID aid) s = Wifi_MPHost_KickByAID aid s"
| "host_do KickNotAssociated s = Wifi_MPHost_KickNotAssociatedClients s"
| "host_do KickAll s = Wifi_MPHost_ClientKickAll s"
| "host_do (Flags f) s = upd_data (\<lambda>d. d\<lparr>reqFlags := f\<rparr>) s"

lemma host_ok_do: "host_ok s \<Longrightarrow> host_ok (host_do e s)"
proof (cases e)
  case KickAll
  assume "host_ok s"
  then have "host_max s \<le> 15" by (simp add: host_ok_def clients_ok_def)
  then show ?thesis by (simp add: KickAll Wifi_MPHost_ClientKickAll_def host_ok_reset)
next
  case (Flags f)
  assume "host_ok s"
  then show ?thesis by (simp add: Flags host_ok_def upd_data_def)
qed (auto intro: host_ok_authenticate host_ok_associate host_ok_disconnect host_ok_kick_aid
    host_ok_kick_all_not_associated)

text \<open>
  C9. From a reset of the list, whatever clients and the ARM9 do: the number of players kept for
  the beacon is the number of entries in use, bit aid of the mask is set exactly for the entry
  aid - 1 that is associated, an association ID is always the position of its entry, no entry
  above the maximum is used, and no address is in the list twice.
\<close>

theorem host_clients_invariant:
  assumes "host_max s \<le> 15"
  shows "clients_ok (host_max s) (clients (WifiData (fold host_do es (Wifi_MPHost_ResetClients s))))"
proof -
  have max: "host_max (host_do e t) = host_max t" for e t
    by (cases e) (auto simp: Wifi_MPHost_ClientAuthenticate_def Wifi_MPHost_ClientAssociate_def
        Wifi_MPHost_ClientDisconnect_def Wifi_MPHost_KickByAID_def Wifi_MPHost_ClientKickAll_def
        Wifi_MPHost_ResetClients_def Let_def upd_data_def
        Wifi_MPHost_KickNotAssociatedClients_def
        split: option.split Wifi_ConnectedClientState.split)
  have "host_ok t \<Longrightarrow> host_ok (fold host_do es t) \<and> host_max (fold host_do es t) = host_max t" for t
    by (induction es arbitrary: t) (simp_all add: host_ok_do max)
  from this [OF host_ok_reset [OF assms]]
  have "host_ok (fold host_do es (Wifi_MPHost_ResetClients s))"
    and "host_max (fold host_do es (Wifi_MPHost_ResetClients s)) = host_max (Wifi_MPHost_ResetClients s)"
    by simp_all
  moreover have "host_max (Wifi_MPHost_ResetClients s) = host_max s"
    by (simp add: Wifi_MPHost_ResetClients_def)
  ultimately show ?thesis unfolding host_ok_def by simp
qed

lemma host_clients_invariant_witness:
  "clients_ok 3 (clients (WifiData (fold host_do [Flags 0x40, Authenticate (1, 2, 3), Associate (1, 2, 3), KickAID 1]
    (Wifi_MPHost_ResetClients (arm7_start (cleared\<lparr>curMaxClients := 3\<rparr>))))))"
proof -
  have m: "host_max (arm7_start (cleared\<lparr>curMaxClients := 3\<rparr>)) = 3" by (simp add: arm7_start_def)
  have "(3 :: nat) \<le> 15" by simp
  then show ?thesis by (rule host_clients_invariant [of "arm7_start (cleared\<lparr>curMaxClients := 3\<rparr>)", unfolded m])
qed



section \<open>Requests of the ARM9\<close>

text \<open>The part of \<open>Wifi_NTR_Update\<close> (source/arm7/ntr/update.c) that serves a host in access point mode.\<close>

definition kick_requested :: "u16 \<Rightarrow> arm7 \<Rightarrow> arm7" where
  "kick_requested am s = fold (\<lambda>aid s. if am AND BIT16 aid \<noteq> 0 then Wifi_MPHost_KickByAID aid s else s) [1..<16] s"

definition Wifi_NTR_Update_AccessPoint :: "arm7 \<Rightarrow> arm7" where
  "Wifi_NTR_Update_AccessPoint s =
     (let s1 = Wifi_BeaconApplyPatches s;
          am = ucast (reqKickClientAIDMask (clients (WifiData s1))) :: u16;
          s2 = (if am \<noteq> 0
                then kick_requested am (upd_clients (\<lambda>c. c\<lparr>reqKickClientAIDMask := 0\<rparr>) s1) else s1);
          req_allow = (reqFlags (WifiData s2) AND WFLAG_REQ_ALLOWCLIENTS \<noteq> 0)
      in if beacon_allows_connections s2 \<noteq> req_allow then
           if req_allow then Wifi_SetBeaconAllowsConnections 1 s2
           else Wifi_MPHost_KickNotAssociatedClients (Wifi_SetBeaconAllowsConnections 0 s2)
         else s2)"

text \<open>\<open>Wifi_MultiplayerKickClientByAID\<close> (source/arm9/ipc.c): the mask has eight bits.\<close>

definition Wifi_MultiplayerKickClientByAID :: "int \<Rightarrow> Wifi_MainStruct \<Rightarrow> Wifi_MainStruct" where
  "Wifi_MultiplayerKickClientByAID association_id d =
     (if association_id < 1 \<or> association_id > int WIFI_MAX_MULTIPLAYER_CLIENTS then d
      else d\<lparr>clients := (clients d)\<lparr>reqKickClientAIDMask :=
                reqKickClientAIDMask (clients d) OR ucast (BIT16 (nat association_id))\<rparr>\<rparr>)"

lemma kick_data:
  "WifiData (Wifi_MPHost_KickByAID aid s) = (WifiData s)\<lparr>clients := clients (WifiData (Wifi_MPHost_KickByAID aid s))\<rparr>"
  by (simp add: Wifi_MPHost_KickByAID_def Let_def upd_clients_def upd_data_def)

lemma KickByAID_list:
  assumes "length (host_list s) = 15" "host_max s \<le> 15"
  shows "length (host_list (Wifi_MPHost_KickByAID aid s)) = 15"
    and "host_max (Wifi_MPHost_KickByAID aid s) = host_max s"
    and "i < 15 \<Longrightarrow> connected (host_list (Wifi_MPHost_KickByAID aid s) ! i) \<longleftrightarrow>
      connected (host_list s ! i) \<and> \<not> (aid = i + 1 \<and> i < host_max s)"
  using assms by (auto simp: Wifi_MPHost_KickByAID_def Let_def set_client_def nth_list_update)

lemma kick_requested_list:
  assumes "length (host_list s) = 15" "host_max s \<le> 15"
  shows "i < 15 \<Longrightarrow> connected (host_list (kick_requested am s) ! i) \<longleftrightarrow>
    connected (host_list s ! i) \<and> \<not> (bit am (i + 1) \<and> i < host_max s)"
proof -
  let ?f = "\<lambda>aid s. if am AND BIT16 aid \<noteq> 0 then Wifi_MPHost_KickByAID aid s else s"
  have "length (host_list (fold ?f as t)) = 15 \<and> host_max (fold ?f as t) = host_max t
      \<and> (\<forall>i<15. connected (host_list (fold ?f as t) ! i) \<longleftrightarrow>
           connected (host_list t ! i) \<and> \<not> (i + 1 \<in> set as \<and> bit am (i + 1) \<and> i < host_max t))"
    if "length (host_list t) = 15" "host_max t \<le> 15" for "as" t
    using that
  proof (induction "as" arbitrary: t)
    case (Cons a as)
    have "length (host_list (?f a t)) = 15" "host_max (?f a t) = host_max t"
      and c: "\<And>i. i < 15 \<Longrightarrow> connected (host_list (?f a t) ! i) \<longleftrightarrow>
        connected (host_list t ! i) \<and> \<not> (bit am a \<and> a = i + 1 \<and> i < host_max t)"
      using Cons.prems KickByAID_list [OF Cons.prems, where aid = a] by (auto simp: mask_test_iff)
    with Cons.IH [of "?f a t"] Cons.prems c show ?case by auto
  qed simp
  from this [OF assms, of "[1..<16]"] show "i < 15 \<Longrightarrow> ?thesis" by (auto simp: kick_requested_def)
qed

lemma KickByAID_other:
  assumes "i + 1 \<noteq> aid"
  shows "host_list (Wifi_MPHost_KickByAID aid s) ! i = host_list s ! i"
  using assms by (cases "i = aid - 1") (auto simp: Wifi_MPHost_KickByAID_def Let_def set_client_def)

lemma KickByAID_frame [simp]:
  "reqFlags (WifiData (Wifi_MPHost_KickByAID aid s)) = reqFlags (WifiData s)"
  "curMaxClients (WifiData (Wifi_MPHost_KickByAID aid s)) = curMaxClients (WifiData s)"
  "reqKickClientAIDMask (clients (WifiData (Wifi_MPHost_KickByAID aid s))) = reqKickClientAIDMask (clients (WifiData s))"
  by (simp_all add: Wifi_MPHost_KickByAID_def Let_def upd_clients_def upd_data_def set_client_def)

lemma kick_requested_other:
  assumes "\<not> bit am (i + 1)"
  shows "host_list (kick_requested am s) ! i = host_list s ! i"
proof -
  have "host_list (fold (\<lambda>aid s. if am AND BIT16 aid \<noteq> 0 then Wifi_MPHost_KickByAID aid s else s) as t) ! i
      = host_list t ! i" for "as" t
  proof (induction "as" arbitrary: t)
    case (Cons a as)
    have "am AND BIT16 a \<noteq> 0 \<Longrightarrow> i + 1 \<noteq> a" using assms by (auto simp: mask_test_iff)
    with Cons show ?case by (simp add: KickByAID_other)
  qed simp
  then show ?thesis by (simp add: kick_requested_def)
qed

lemma kick_requested_frame [simp]:
  "reqKickClientAIDMask (clients (WifiData (kick_requested am s))) = reqKickClientAIDMask (clients (WifiData s))"
  "curMaxClients (WifiData (kick_requested am s)) = curMaxClients (WifiData s)"
proof -
  let ?f = "\<lambda>aid s. if am AND BIT16 aid \<noteq> 0 then Wifi_MPHost_KickByAID aid s else s"
  have "reqKickClientAIDMask (clients (WifiData (fold ?f as t))) = reqKickClientAIDMask (clients (WifiData t))
      \<and> curMaxClients (WifiData (fold ?f as t)) = curMaxClients (WifiData t)" for "as" t
    by (induction "as" arbitrary: t) simp_all
  then show "reqKickClientAIDMask (clients (WifiData (kick_requested am s))) = reqKickClientAIDMask (clients (WifiData s))"
    "curMaxClients (WifiData (kick_requested am s)) = curMaxClients (WifiData s)"
    by (simp_all add: kick_requested_def)
qed

lemma kick_not_associated_entry:
  "\<not> connected (host_list s ! i) \<Longrightarrow> \<not> connected (host_list (fold kick_not_associated is s) ! i)"
  "cl_state (host_list s ! i) = WIFI_CLIENT_ASSOCIATED \<Longrightarrow> host_list (fold kick_not_associated is s) ! i = host_list s ! i"
  "reqKickClientAIDMask (clients (WifiData (fold kick_not_associated is s))) = reqKickClientAIDMask (clients (WifiData s))"
proof -
  have step: "\<not> connected (host_list s ! i) \<Longrightarrow> \<not> connected (host_list (kick_not_associated k s) ! i)"
    "cl_state (host_list s ! i) = WIFI_CLIENT_ASSOCIATED \<Longrightarrow> host_list (kick_not_associated k s) ! i = host_list s ! i"
    "reqKickClientAIDMask (clients (WifiData (kick_not_associated k s))) = reqKickClientAIDMask (clients (WifiData s))" for k s
    by (cases "i = k"; cases "k < length (host_list s)"; simp add: kick_not_associated_def set_client_def list_update_beyond)+
  show "\<not> connected (host_list s ! i) \<Longrightarrow> \<not> connected (host_list (fold kick_not_associated is s) ! i)"
    using step(1) by (induction "is" arbitrary: s) simp_all
  show "cl_state (host_list s ! i) = WIFI_CLIENT_ASSOCIATED \<Longrightarrow> host_list (fold kick_not_associated is s) ! i = host_list s ! i"
    using step(2) by (induction "is" arbitrary: s) simp_all
  show "reqKickClientAIDMask (clients (WifiData (fold kick_not_associated is s))) = reqKickClientAIDMask (clients (WifiData s))"
    using step(3) by (induction "is" arbitrary: s) simp_all
qed

lemma patch_loop_clients [simp]:
  "clients (WifiData (patch_loop s)) = clients (WifiData s)"
  "curMaxClients (WifiData (patch_loop s)) = curMaxClients (WifiData s)"
proof -
  have "clients (WifiData (patch_loop s)) = clients (WifiData s)
      \<and> curMaxClients (WifiData (patch_loop s)) = curMaxClients (WifiData s)"
  proof (induction s rule: patch_loop.induct)
    case (1 s)
    then show ?case by (subst (1 2) patch_loop.simps) (auto simp: Let_def)
  qed
  then show "clients (WifiData (patch_loop s)) = clients (WifiData s)"
    "curMaxClients (WifiData (patch_loop s)) = curMaxClients (WifiData s)" by simp_all
qed

lemma ApplyPatches_clients [simp]:
  "clients (WifiData (Wifi_BeaconApplyPatches s)) = clients (WifiData s)"
  "curMaxClients (WifiData (Wifi_BeaconApplyPatches s)) = curMaxClients (WifiData s)"
  by (simp_all add: Wifi_BeaconApplyPatches_def Wifi_BeaconWriteStickyPatches_def write_patches_state Let_def)

lemma SetBeaconAllows_data [simp]: "WifiData (Wifi_SetBeaconAllowsConnections v s) = WifiData s"
  by (simp add: Wifi_SetBeaconAllowsConnections_def mac_write_byte_def Let_def)

text \<open>What one update does to an entry of the list, whatever else it has to do.\<close>

lemma update_entry:
  assumes "length (host_list s) = 15" "host_max s \<le> 15" "i < 15"
  defines "am \<equiv> ucast (reqKickClientAIDMask (clients (WifiData s))) :: u16"
  shows "bit am (i + 1) \<and> i < host_max s \<Longrightarrow> \<not> connected (host_list (Wifi_NTR_Update_AccessPoint s) ! i)"
    and "\<not> bit am (i + 1) \<Longrightarrow> cl_state (host_list s ! i) = WIFI_CLIENT_ASSOCIATED
      \<Longrightarrow> host_list (Wifi_NTR_Update_AccessPoint s) ! i = host_list s ! i"
    and "reqKickClientAIDMask (clients (WifiData (Wifi_NTR_Update_AccessPoint s))) = 0"
proof -
  let ?p = "Wifi_BeaconApplyPatches s"
  define s2 where "s2 = (if am \<noteq> 0
      then kick_requested am (upd_clients (\<lambda>c. c\<lparr>reqKickClientAIDMask := 0\<rparr>) ?p) else ?p)"
  have upd: "Wifi_NTR_Update_AccessPoint s =
      (if beacon_allows_connections s2 \<noteq> (reqFlags (WifiData s2) AND WFLAG_REQ_ALLOWCLIENTS \<noteq> 0) then
         if reqFlags (WifiData s2) AND WFLAG_REQ_ALLOWCLIENTS \<noteq> 0 then Wifi_SetBeaconAllowsConnections 1 s2
         else Wifi_MPHost_KickNotAssociatedClients (Wifi_SetBeaconAllowsConnections 0 s2)
       else s2)"
    unfolding Wifi_NTR_Update_AccessPoint_def Let_def ApplyPatches_clients am_def [symmetric] s2_def [symmetric] ..
  have kicked: "\<not> connected (host_list s2 ! i)" if "bit am (i + 1)" "i < host_max s"
    using that assms(1-3) kick_requested_list [of "upd_clients (\<lambda>c. c\<lparr>reqKickClientAIDMask := 0\<rparr>) ?p" i am]
    by (auto simp: s2_def)
  have other: "host_list s2 ! i = host_list s ! i" if "\<not> bit am (i + 1)"
    using that by (simp add: s2_def kick_requested_other)
  have "reqKickClientAIDMask (clients (WifiData s2)) = 0"
  proof (cases "am = 0")
    case True
    have "reqKickClientAIDMask (clients (WifiData s)) = 0"
    proof (rule bit_word_eqI)
      fix n assume "n < LENGTH(8)"
      with True show "bit (reqKickClientAIDMask (clients (WifiData s))) n = bit 0 n"
        using bit_ucast_iff [of "reqKickClientAIDMask (clients (WifiData s))" n, where 'a = 16] by (simp add: am_def)
    qed
    with True show ?thesis by (simp add: s2_def)
  qed (simp add: s2_def)
  then show "reqKickClientAIDMask (clients (WifiData (Wifi_NTR_Update_AccessPoint s))) = 0"
    by (simp add: upd Wifi_MPHost_KickNotAssociatedClients_def kick_not_associated_entry(3))
  show "\<not> connected (host_list (Wifi_NTR_Update_AccessPoint s) ! i)" if "bit am (i + 1) \<and> i < host_max s"
    using kicked that by (simp add: upd Wifi_MPHost_KickNotAssociatedClients_def kick_not_associated_entry(1) [simplified])
  show "host_list (Wifi_NTR_Update_AccessPoint s) ! i = host_list s ! i"
    if "\<not> bit am (i + 1)" "cl_state (host_list s ! i) = WIFI_CLIENT_ASSOCIATED"
    using other that by (simp add: upd Wifi_MPHost_KickNotAssociatedClients_def kick_not_associated_entry(2))
qed




text \<open>
  C31. The mask of requests is narrower than the range of association IDs: asking to kick a
  client with an ID from 8 to 15, which the function accepts, changes nothing at all.
\<close>

theorem kick_request_lost:
  assumes "8 \<le> aid" "aid \<le> 15"
  shows "Wifi_MultiplayerKickClientByAID aid d = d"
proof -
  have "ucast (BIT16 (nat aid)) = (0 :: u8)"
    by (rule bit_word_eqI) (use assms in \<open>auto simp: bit_simps\<close>)
  then show ?thesis by (simp add: Wifi_MultiplayerKickClientByAID_def)
qed

lemma kick_request_lost_witness: "Wifi_MultiplayerKickClientByAID 9 cleared = cleared"
  by (rule kick_request_lost) simp_all


text \<open>
  C32. Authenticating a client again before it has associated removes bit 0, the host itself, from
  the mask of players.
\<close>

theorem authenticate_again_drops_host:
  assumes "reqFlags (WifiData s) AND WFLAG_REQ_ALLOWCLIENTS \<noteq> 0"
    and "Wifi_MPHost_ClientGetByMacAddr m s = Some i" "cl_association_id (host_list s ! i) = 0"
  shows "\<not> bit (aid_mask (clients (WifiData (snd (Wifi_MPHost_ClientAuthenticate m s))))) 0"
  using assms by (simp add: Wifi_MPHost_ClientAuthenticate_def Let_def)

lemma authenticate_again_drops_host_witness:
  "\<exists>s. bit (aid_mask (clients (WifiData s))) 0
    \<and> \<not> bit (aid_mask (clients (WifiData (snd (Wifi_MPHost_ClientAuthenticate (1, 2, 3) s))))) 0"
proof -
  let ?x = "\<lparr>cl_macaddr = (1, 2, 3), cl_association_id = 0, cl_state = WIFI_CLIENT_AUTHENTICATED\<rparr>"
  let ?s = "arm7_start (cleared\<lparr>curMaxClients := 1, reqFlags := 0x40, clients := (clients cleared)
      \<lparr>clients_list := ?x # replicate 14 no_client, aid_mask := 1, num_connected := 1\<rparr>\<rparr>)"
  have "reqFlags (WifiData ?s) AND WFLAG_REQ_ALLOWCLIENTS \<noteq> 0"
    "Wifi_MPHost_ClientGetByMacAddr (1, 2, 3) ?s = Some 0" "cl_association_id (host_list ?s ! 0) = 0"
    by (simp_all add: arm7_start_def WFLAG_REQ_ALLOWCLIENTS_def Wifi_MPHost_ClientGetByMacAddr_def)
  from authenticate_again_drops_host [OF this]
  have "\<not> bit (aid_mask (clients (WifiData (snd (Wifi_MPHost_ClientAuthenticate (1, 2, 3) ?s))))) 0" .
  moreover have "bit (aid_mask (clients (WifiData ?s))) 0" by (simp add: arm7_start_def)
  ultimately show ?thesis by blast
qed


end
