(* ===== verification/Arm7_Rx.thy ===== *)
theory Arm7_Rx
  imports Arm7_State
begin

text \<open>
  From the air to the ARM9: the ARM7 copies the received frames the ARM9 wants from the circular
  area of the MAC RAM to the receive buffer (source/arm7/ntr/rx_queue.c). What each frame is, and
  what the ARM7 does with it by itself, is decided by the management code: a parameter, which
  returns whether it is a data frame.
\<close>

section \<open>Definitions\<close>

definition Wifi_RxBufferAllocBuffer :: "ring \<Rightarrow> nat \<Rightarrow> (ring \<times> nat) option" where
  "Wifi_RxBufferAllocBuffer = ring_alloc WIFI_RXBUFFER_SIZE"

text \<open>Queueing \<open>size\<close> bytes, of which \<open>data\<close> holds one more when \<open>size\<close> is odd.\<close>

definition rx_store :: "u8 list \<Rightarrow> nat \<Rightarrow> arm7 \<Rightarrow> bool \<times> arm7" where
  "rx_store data n s =
     (case Wifi_RxBufferAllocBuffer (rxbuf (WifiData s)) (u32_add (u32_add 4 (round_up_32 n)) 4) of
        None \<Rightarrow> (False, upd_data (stat_add WSTAT_RXQUEUEDLOST 1) s)
      | Some (r, idx) \<Rightarrow>
          (True, upd_data (stat_add WSTAT_RXQUEUEDBYTES n \<circ> stat_add WSTAT_RXQUEUEDPACKETS 1
             \<circ> rxbuf_update (\<lambda>_. ring_store r idx data n (of_nat n))) s))"

definition Wifi_RxArm9QueueAdd :: "nat \<Rightarrow> nat \<Rightarrow> arm7 \<Rightarrow> bool \<times> arm7" where
  "Wifi_RxArm9QueueAdd base n s = rx_store (Wifi_MACRead (MACMEM s) base 0 n) n s"

definition HDR_RX_SIZE :: nat where "HDR_RX_SIZE = 12"
definition HDR_RX_IEEE_FRAME_SIZE :: nat where "HDR_RX_IEEE_FRAME_SIZE = 8"
definition WIFI_RX_PACKETS_PER_INTERRUPT :: nat where "WIFI_RX_PACKETS_PER_INTERRUPT = 5"

type_synonym rx_process = "nat \<Rightarrow> nat \<Rightarrow> arm7 \<Rightarrow> bool \<times> arm7"

definition rx_one :: "rx_process \<Rightarrow> arm7 \<Rightarrow> arm7" where
  "rx_one Wifi_ProcessReceivedFrame s =
     (let base = W_RXBUF_READCSR s * 2;
          packetlen = unat (Wifi_MACReadHWord (MACMEM s) base HDR_RX_IEEE_FRAME_SIZE);
          full_packetlen = HDR_RX_SIZE + round_up_32 packetlen;
          s1 = upd_data (stat_add WSTAT_RXDATABYTES (full_packetlen - HDR_RX_SIZE)
                 \<circ> stat_add WSTAT_RXBYTES full_packetlen \<circ> stat_add WSTAT_RXPACKETS 1) s;
          (is_data, s2) = Wifi_ProcessReceivedFrame base full_packetlen s1;
          s3 = (if is_data \<or> reqFlags (WifiData s2) AND WFLAG_REQ_PROMISC \<noteq> 0
                then snd (Wifi_RxArm9QueueAdd (base + HDR_RX_SIZE) packetlen (Wifi_NTR_KeepaliveCountReset s2))
                else s2);
          next_base = base + full_packetlen;
          next_base = (if next_base \<ge> MAC_RXBUF_END_OFFSET
                       then next_base - (MAC_RXBUF_END_OFFSET - MAC_RXBUF_START_OFFSET) else next_base)
      in s3\<lparr>W_RXBUF_READCSR := next_base div 2\<rparr>)"

text \<open>The test \<open>cut++ > LIMIT\<close> is made after each packet, so it lets through two more than the limit.\<close>

fun rx_flush_loop :: "rx_process \<Rightarrow> nat \<Rightarrow> arm7 \<Rightarrow> arm7" where
  "rx_flush_loop process 0 s = s"
| "rx_flush_loop process (Suc n) s =
     (if W_RXBUF_WRCSR s \<noteq> W_RXBUF_READCSR s then rx_flush_loop process n (rx_one process s) else s)"

definition Wifi_RxQueueFlush :: "rx_process \<Rightarrow> arm7 \<Rightarrow> arm7" where
  "Wifi_RxQueueFlush process s = rx_flush_loop process (WIFI_RX_PACKETS_PER_INTERRUPT + 2) s"

section \<open>The receive queue, as the interface\<close>

definition rx_holds :: "arm7 \<Rightarrow> packet list \<Rightarrow> bool" where
  "rx_holds s ps \<longleftrightarrow> ring_holds unat WIFI_RXBUFFER_SIZE (rxbuf (WifiData s)) ps"

definition rx_take :: "arm7 \<Rightarrow> (packet \<times> arm7) option" where
  "rx_take s = map_option (\<lambda>(p, r). (p, upd_data (rxbuf_update (\<lambda>_. r)) s)) (ring_get unat (rxbuf (WifiData s)))"

definition rx_put :: "u8 list \<times> nat \<Rightarrow> arm7 \<Rightarrow> bool \<times> arm7" where
  "rx_put x s = rx_store (fst x) (snd x) s"

definition rx_carries :: "u8 list \<times> nat \<Rightarrow> packet \<Rightarrow> bool" where
  "rx_carries x p \<longleftrightarrow> p = (of_nat (snd x), take (snd x) (fst x))"

text \<open>What the MAC delivers: some bytes, read in halfwords.\<close>

definition rx_valid :: "u8 list \<times> nat \<Rightarrow> bool" where
  "rx_valid x \<longleftrightarrow> 0 < snd x \<and> snd x < 65536 \<and> length (fst x) = (snd x + 1) div 2 * 2"

lemma WIFI_RXBUFFER_small: "WIFI_RXBUFFER_SIZE < 0x10000000"
  by (simp add: WIFI_RXBUFFER_SIZE_def)

lemma rx_store_push:
  "rx_store data n s =
     (case ring_push WIFI_RXBUFFER_SIZE (rxbuf (WifiData s)) data n (of_nat n) of
        None \<Rightarrow> (False, upd_data (stat_add WSTAT_RXQUEUEDLOST 1) s)
      | Some r \<Rightarrow> (True, upd_data (stat_add WSTAT_RXQUEUEDBYTES n \<circ> stat_add WSTAT_RXQUEUEDPACKETS 1
             \<circ> rxbuf_update (\<lambda>_. r)) s))"
  by (simp add: rx_store_def ring_push_def Wifi_RxBufferAllocBuffer_def split: option.split)

lemma rx_store_spec:
  assumes holds: "rx_holds s ps" and v: "0 < n" "n < 65536" "length data = (n + 1) div 2 * 2"
    and call: "rx_store data n s = (ok, s')"
  shows "rx_holds s' (if ok then ps @ [(of_nat n, take n data)] else ps)"
proof (cases "ring_push WIFI_RXBUFFER_SIZE (rxbuf (WifiData s)) data n (of_nat n)")
  case None
  with call holds show ?thesis by (auto simp: rx_store_push rx_holds_def)
next
  case (Some r)
  have un: "unat (of_nat n :: u32) = n" using v(2) by (simp add: unat_of_nat)
  have "(of_nat n :: u32) \<noteq> WIFI_SIZE_WRAP"
  proof
    assume "(of_nat n :: u32) = WIFI_SIZE_WRAP"
    then have "n = unat WIFI_SIZE_WRAP" using un by simp
    with v(2) show False by (simp add: WIFI_SIZE_WRAP_def)
  qed
  moreover have "(of_nat n :: u32) \<noteq> 0" using un v(1) by auto
  ultimately have ok: "pkt_ok unat n (of_nat n)" using v(2) un by (simp add: pkt_ok_def)
  have len: "length data \<le> (n + 3) div 4 * 4" "n \<le> length data" using v(3) by presburger+
  obtain fcs where "ring_holds unat WIFI_RXBUFFER_SIZE r (ps @ [(of_nat n, take n data @ fcs)])"
    "length (take n data @ fcs) = n"
    using ring_push_refines [OF holds [unfolded rx_holds_def] WIFI_RXBUFFER_small len(1) ok Some] by blast
  with len(2) call Some show ?thesis by (auto simp: rx_store_push rx_holds_def)
qed

interpretation rxq: packet_queue rx_holds rx_take rx_put rx_carries rx_valid
proof unfold_locales
  fix s
  assume "rx_holds s []"
  then have "ring_get unat (rxbuf (WifiData s)) = None"
    using ring_get_refines [OF _ WIFI_RXBUFFER_small, of unat _ "[]"] by (simp add: rx_holds_def)
  then show "rx_take s = None" by (simp add: rx_take_def)
next
  fix s p ps
  assume "rx_holds s (p # ps)"
  then obtain r where "ring_get unat (rxbuf (WifiData s)) = Some (p, r)" "ring_holds unat WIFI_RXBUFFER_SIZE r ps"
    using ring_get_refines [OF _ WIFI_RXBUFFER_small, of unat _ "p # ps"] by (auto simp: rx_holds_def)
  then show "\<exists>s'. rx_take s = Some (p, s') \<and> rx_holds s' ps" by (simp add: rx_take_def rx_holds_def)
next
  fix s ps x s'
  assume a: "rx_holds s ps" "rx_valid x" "rx_put x s = (True, s')"
  then have "rx_holds s' (ps @ [(of_nat (snd x), take (snd x) (fst x))])"
    using rx_store_spec [OF a(1), of "snd x" "fst x" True s'] by (simp add: rx_valid_def rx_put_def)
  then show "\<exists>p. rx_carries x p \<and> rx_holds s' (ps @ [p])" by (auto simp: rx_carries_def)
next
  fix s ps x s'
  assume a: "rx_holds s ps" "rx_valid x" "rx_put x s = (False, s')"
  then show "rx_holds s' ps"
    using rx_store_spec [OF a(1), of "snd x" "fst x" False s'] by (simp add: rx_valid_def rx_put_def)
qed

text \<open>
  C14. The receive queue is a queue: for any order of frames stored by the ARM7 and frames taken
  by the ARM9, the frames taken are those that were accepted, in order, with exactly the bytes
  and the length they had, also when the length is odd.
\<close>

theorem rx_queue_fifo:
  assumes "rx_holds s []" and "\<forall>x. Inl x \<in> set es \<longrightarrow> rx_valid x"
    and "run_queue rx_put rx_take es s = (accepted, taken, s')"
  shows "\<exists>rest. map (\<lambda>(data, n). (of_nat n, take n data)) accepted = taken @ rest \<and> rx_holds s' rest"
proof -
  obtain new rest where r: "list_all2 rx_carries accepted new" "new = taken @ rest" "rx_holds s' rest"
    using rxq.run_fifo [OF assms] by auto
  from r(1) have "new = map (\<lambda>(data, n). (of_nat n, take n data)) accepted"
    by (induction rule: list_all2_induct) (auto simp: rx_carries_def split: prod.split)
  with r show ?thesis by auto
qed

lemma rx_queue_fifo_witness:
  "\<exists>accepted taken s' rest.
    run_queue rx_put rx_take [Inl ([1, 2, 3, 4], 3), Inr ()] (arm7_start cleared) = (accepted, taken, s')
    \<and> map (\<lambda>(data, n). (of_nat n, take n data)) accepted = taken @ rest \<and> rx_holds s' rest"
proof -
  obtain accepted taken s' where
    c: "run_queue rx_put rx_take [Inl ([1, 2, 3, 4], 3), Inr ()] (arm7_start cleared) = (accepted, taken, s')"
    by (rule prod_cases3)
  have "rx_holds (arm7_start cleared) []"
    by (simp add: rx_holds_def ring_holds_def arm7_start_def cleared_def read_u32_def of_le32_def
        WIFI_RXBUFFER_SIZE_def)
  from rx_queue_fifo [OF this _ c] c show ?thesis by (auto simp: rx_valid_def)
qed


end
