(* ===== verification/Mp_Packets.thy ===== *)
theory Mp_Packets
  imports Tx_Frames
begin

text \<open>
  The ARM9 end of the receive buffer (source/arm9/wifi_arm9.c) and the multiplayer packet
  handlers (source/arm9/ntr/multiplayer.c): which frames reach the application, with which
  sender, and what is recorded about the others. The calls of the handlers an application
  registers are logged, oldest first.
\<close>

section \<open>Clients, seen from the ARM9\<close>

definition Wifi_MultiplayerGetClientMask :: "Wifi_MainStruct \<Rightarrow> u16" where
  "Wifi_MultiplayerGetClientMask d =
     (if curLibraryMode d \<noteq> DSWIFI_MULTIPLAYER_HOST then 0 else aid_mask (clients d))"

definition Wifi_MultiplayerGetNumClients :: "Wifi_MainStruct \<Rightarrow> nat" where
  "Wifi_MultiplayerGetNumClients d =
     (if curLibraryMode d \<noteq> DSWIFI_MULTIPLAYER_HOST then 0
      else fold (\<lambda>i c. if aid_mask (clients d) AND BIT16 (i + 1) \<noteq> 0 then c + 1 else c)
             [0..<WIFI_MAX_MULTIPLAYER_CLIENTS] 0)"

text \<open>\<^const>\<open>None\<close> is the result -1.\<close>

definition Wifi_MultiplayerGetClients :: "int \<Rightarrow> Wifi_MainStruct \<Rightarrow> Wifi_ConnectedClient list option" where
  "Wifi_MultiplayerGetClients max_clients d =
     (if curLibraryMode d \<noteq> DSWIFI_MULTIPLAYER_HOST then Some []
      else if max_clients \<le> 0 then None
      else Some (take (nat max_clients)
             (filter (\<lambda>c. cl_state c \<noteq> WIFI_CLIENT_DISCONNECTED)
               (take WIFI_MAX_MULTIPLAYER_CLIENTS (clients_list (clients d))))))"

definition Wifi_MultiplayerClientGetAIDFromMac :: "mac \<Rightarrow> Wifi_MainStruct \<Rightarrow> u16" where
  "Wifi_MultiplayerClientGetAIDFromMac m d =
     (case find (\<lambda>i. cl_state (clients_list (clients d) ! i) = WIFI_CLIENT_ASSOCIATED
                    \<and> cl_macaddr (clients_list (clients d) ! i) = m) [0..<unat (curMaxClients d)] of
        None \<Rightarrow> 0
      | Some i \<Rightarrow> cl_association_id (clients_list (clients d) ! i))"

definition Wifi_MultiplayerClientMatchesMacAndAID :: "int \<Rightarrow> mac \<Rightarrow> Wifi_MainStruct \<Rightarrow> bool" where
  "Wifi_MultiplayerClientMatchesMacAndAID aid m d =
     (if aid < 1 then False
      else if aid > uint (curMaxClients d) then False
      else let client = clients_list (clients d) ! nat (aid - 1) in
           cl_state client = WIFI_CLIENT_ASSOCIATED \<and> cl_macaddr client = m)"

section \<open>Packet handlers\<close>

datatype Wifi_MPPacketType = WIFI_MPTYPE_CMD | WIFI_MPTYPE_REPLY | WIFI_MPTYPE_DATA

datatype Wifi_MultiplayerDropReason =
    DSWIFI_MP_DROP_NO_HANDLER | DSWIFI_MP_DROP_TOO_SHORT | DSWIFI_MP_DROP_FRAME_TYPE
  | DSWIFI_MP_DROP_REPLY_MAC | DSWIFI_MP_DROP_DEST_MAC | DSWIFI_MP_DROP_AID_MISMATCH

record Wifi_MultiplayerRxDiag =
  drops :: "Wifi_MultiplayerDropReason \<Rightarrow> u16"
  accepted :: u16
  last_drop_frame :: "u8 list"
  last_drop_len :: nat
  last_drop_reason :: Wifi_MultiplayerDropReason

record arm9 =
  Data :: Wifi_MainStruct
  rx_diag :: Wifi_MultiplayerRxDiag
  from_client_handler :: bool
  from_host_handler :: bool
  raw_handler :: bool
  lwip_up :: bool
  from_client :: "(Wifi_MPPacketType \<times> u16 \<times> u8 list) list"
  from_host :: "(Wifi_MPPacketType \<times> u8 list) list"
  raw_packets :: "u8 list list"
  lwip_packets :: "u8 list list"

text \<open>No handler is installed at the start.\<close>

definition arm9_start :: "Wifi_MainStruct \<Rightarrow> arm9" where
  "arm9_start d = \<lparr>Data = d, rx_diag = \<lparr>drops = (\<lambda>_. 0), accepted = 0, last_drop_frame = [], last_drop_len = 0,
       last_drop_reason = DSWIFI_MP_DROP_NO_HANDLER\<rparr>,
     from_client_handler = False, from_host_handler = False, raw_handler = False, lwip_up = False,
     from_client = [], from_host = [], raw_packets = [], lwip_packets = []\<rparr>"

definition DSWIFI_MP_DIAG_BYTES :: nat where "DSWIFI_MP_DIAG_BYTES = 16"

definition Wifi_MultiplayerDropFrame :: "Wifi_MultiplayerDropReason \<Rightarrow> u8 list \<Rightarrow> arm9 \<Rightarrow> arm9" where
  "Wifi_MultiplayerDropFrame reason packet s =
     (let n = min (length packet) DSWIFI_MP_DIAG_BYTES; r = rx_diag s in
      s\<lparr>rx_diag := r\<lparr>drops := (drops r)(reason := drops r reason + 1),
                    last_drop_frame := take n packet @ drop n (last_drop_frame r),
                    last_drop_len := n, last_drop_reason := reason\<rparr>\<rparr>)"

definition FC_MASK :: u16 where
  "FC_MASK = FC_TO_DS OR FC_FROM_DS OR FC_TYPE_SUBTYPE_MASK"

definition frame_control :: "u8 list \<Rightarrow> u16" where
  "frame_control packet = of_le16 (packet ! 0) (packet ! 1)"

definition mac_at :: "u8 list \<Rightarrow> nat \<Rightarrow> mac" where
  "mac_at packet k = (of_le16 (packet ! k) (packet ! (k + 1)),
     of_le16 (packet ! (k + 2)) (packet ! (k + 3)), of_le16 (packet ! (k + 4)) (packet ! (k + 5)))"

definition Wifi_MultiplayerHandlePacketFromClient :: "u8 list \<Rightarrow> arm9 \<Rightarrow> arm9" where
  "Wifi_MultiplayerHandlePacketFromClient packet s =
     (if \<not> from_client_handler s then Wifi_MultiplayerDropFrame DSWIFI_MP_DROP_NO_HANDLER packet s
      else if length packet < 26 then Wifi_MultiplayerDropFrame DSWIFI_MP_DROP_TOO_SHORT packet s
      else
        let fc = frame_control packet AND FC_MASK;
            accept = (\<lambda>type.
              let aid = Wifi_MultiplayerClientGetAIDFromMac (mac_at packet 10) (Data s) in
              if aid = 0 then Wifi_MultiplayerDropFrame DSWIFI_MP_DROP_AID_MISMATCH packet s
              else s\<lparr>rx_diag := (rx_diag s)\<lparr>accepted := accepted (rx_diag s) + 1\<rparr>,
                     from_client := from_client s @ [(type, aid, drop 26 packet)]\<rparr>)
        in
        if fc = (TYPE_DATA_CF_ACK OR FC_TO_DS) then
          if \<not> Wifi_CmpMacAddr packet 16 wifi_reply_mac
          then Wifi_MultiplayerDropFrame DSWIFI_MP_DROP_REPLY_MAC packet s
          else accept WIFI_MPTYPE_REPLY
        else if fc = (TYPE_DATA OR FC_TO_DS) then
          if \<not> Wifi_CmpMacAddr packet 16 (MacAddr (Data s))
          then Wifi_MultiplayerDropFrame DSWIFI_MP_DROP_DEST_MAC packet s
          else accept WIFI_MPTYPE_DATA
        else Wifi_MultiplayerDropFrame DSWIFI_MP_DROP_FRAME_TYPE packet s)"

definition Wifi_MultiplayerHandlePacketFromHost :: "u8 list \<Rightarrow> arm9 \<Rightarrow> arm9" where
  "Wifi_MultiplayerHandlePacketFromHost packet s =
     (if \<not> from_host_handler s then s
      else if length packet < 28 then s
      else
        let fc = frame_control packet AND FC_MASK;
            accept = (\<lambda>type header_size.
              if \<not> Wifi_CmpMacAddr packet 16 (curAp_bssid (Data s)) then s
              else s\<lparr>from_host := from_host s @ [(type, drop header_size packet)]\<rparr>)
        in
        if fc = (TYPE_DATA_CF_POLL OR FC_FROM_DS) then
          if \<not> Wifi_CmpMacAddr packet 4 wifi_cmd_mac then s else accept WIFI_MPTYPE_CMD 28
        else if fc = (TYPE_DATA OR FC_FROM_DS) then
          if \<not> Wifi_CmpMacAddr packet 4 (MacAddr (Data s)) then s else accept WIFI_MPTYPE_DATA 24
        else s)"

section \<open>The loop that empties the receive buffer\<close>

definition upd_Data :: "(Wifi_MainStruct \<Rightarrow> Wifi_MainStruct) \<Rightarrow> arm9 \<Rightarrow> arm9" where
  "upd_Data f s = s\<lparr>Data := f (Data s)\<rparr>"

text \<open>Who gets a packet.\<close>

definition dispatch :: "u8 list \<Rightarrow> arm9 \<Rightarrow> arm9" where
  "dispatch packet s =
     (let s = (if curLibraryMode (Data s) = DSWIFI_INTERNET \<and> lwip_up s
               then s\<lparr>lwip_packets := lwip_packets s @ [packet]\<rparr> else s);
          s = (case curLibraryMode (Data s) of
                 DSWIFI_MULTIPLAYER_HOST \<Rightarrow> Wifi_MultiplayerHandlePacketFromClient packet s
               | DSWIFI_MULTIPLAYER_CLIENT \<Rightarrow> Wifi_MultiplayerHandlePacketFromHost packet s
               | DSWIFI_INTERNET \<Rightarrow> s)
      in if raw_handler s then s\<lparr>raw_packets := raw_packets s @ [packet]\<rparr> else s)"

text \<open>
  One turn of the loop from a local read index: \<^const>\<open>None\<close> ends the loop. The wrap marker is
  followed in the local index only; the shared one moves after a packet.
\<close>

definition update_turn :: "nat \<Rightarrow> arm9 \<Rightarrow> (nat \<times> arm9) option" where
  "update_turn read_idx s =
     (let r = rxbuf (Data s);
          read_idx = (if read_u32 (ring_data r) read_idx = WIFI_SIZE_WRAP then 0 else read_idx);
          n = unat (read_u32 (ring_data r) read_idx)
      in if n = 0 then None
         else
           let s = dispatch (mem_read (ring_data r) (read_idx + 4) n) s;
               next_idx = read_idx + 4 + round_up_32 n
           in Some (next_idx, upd_Data (stat_add WSTAT_TXDATABYTES n \<circ> stat_add WSTAT_TXBYTES n
                \<circ> stat_add WSTAT_TXPACKETS 1 \<circ> (\<lambda>d. d\<lparr>rxbuf := (rxbuf d)\<lparr>ring_read := next_idx\<rparr>\<rparr>)) s))"

fun update_loop :: "nat \<Rightarrow> nat \<Rightarrow> arm9 \<Rightarrow> arm9" where
  "update_loop 0 read_idx s = s"
| "update_loop (Suc n) read_idx s =
     (case update_turn read_idx s of None \<Rightarrow> s | Some (i, s') \<Rightarrow> update_loop n i s')"

text \<open>\<open>if (cnt++ > 20) break\<close> after each packet: up to 22 of them.\<close>

definition Wifi_NTR_Update :: "arm9 \<Rightarrow> arm9" where
  "Wifi_NTR_Update s = update_loop 22 (ring_read (rxbuf (Data s))) s"

section \<open>Lemmas\<close>

lemma DropFrame_Data [simp]: "Data (Wifi_MultiplayerDropFrame reason packet s) = Data s"
  by (simp add: Wifi_MultiplayerDropFrame_def Let_def)

lemma FromClient_Data [simp]: "Data (Wifi_MultiplayerHandlePacketFromClient packet s) = Data s"
  by (simp add: Wifi_MultiplayerHandlePacketFromClient_def Let_def)

lemma FromHost_Data [simp]: "Data (Wifi_MultiplayerHandlePacketFromHost packet s) = Data s"
  by (simp add: Wifi_MultiplayerHandlePacketFromHost_def Let_def)

lemma dispatch_Data [simp]: "Data (dispatch p s) = Data s"
  by (simp add: dispatch_def Let_def split: DSWifi_Mode.split)

lemma mac_at_bytes: "length ms = k \<Longrightarrow> mac_at (ms @ mac_bytes m @ rest) k = m"
  by (cases m) (simp add: mac_at_def mac_bytes_def le16_def nth_append of_le16_le16 [unfolded le16_def, simplified])

lemma Wifi_CmpMacAddr_bytes:
  "length ms = k \<Longrightarrow> Wifi_CmpMacAddr (ms @ mac_bytes m @ rest) k m' \<longleftrightarrow> m = m'"
  by (simp add: Wifi_CmpMacAddr_def)

lemma frame_control_le16 [simp]: "frame_control (le16 fc @ rest) = fc"
  using of_le16_le16 [of fc] by (simp add: frame_control_def nth_append)

text \<open>A frame header on the air, where the hardware has filled in the duration and the sequence number.\<close>

definition air_header :: "u16 \<Rightarrow> u16 \<Rightarrow> mac \<Rightarrow> mac \<Rightarrow> mac \<Rightarrow> u16 \<Rightarrow> u8 list" where
  "air_header fc dur a1 a2 a3 seq =
     le16 fc @ le16 dur @ mac_bytes a1 @ mac_bytes a2 @ mac_bytes a3 @ le16 seq"

lemma air_header_fields:
  "frame_control (air_header fc dur a1 a2 a3 seq @ rest) = fc"
  "mac_at (air_header fc dur a1 a2 a3 seq @ rest) 4 = a1"
  "mac_at (air_header fc dur a1 a2 a3 seq @ rest) 10 = a2"
  "mac_at (air_header fc dur a1 a2 a3 seq @ rest) 16 = a3"
  "Wifi_CmpMacAddr (air_header fc dur a1 a2 a3 seq @ rest) 4 m \<longleftrightarrow> a1 = m"
  "Wifi_CmpMacAddr (air_header fc dur a1 a2 a3 seq @ rest) 16 m \<longleftrightarrow> a3 = m"
  "length (air_header fc dur a1 a2 a3 seq) = 24"
  using mac_at_bytes [of "le16 fc @ le16 dur" 4] mac_at_bytes [of "le16 fc @ le16 dur @ mac_bytes a1" 10]
    mac_at_bytes [of "le16 fc @ le16 dur @ mac_bytes a1 @ mac_bytes a2" 16]
    Wifi_CmpMacAddr_bytes [of "le16 fc @ le16 dur" 4]
    Wifi_CmpMacAddr_bytes [of "le16 fc @ le16 dur @ mac_bytes a1 @ mac_bytes a2" 16]
  by (simp_all add: air_header_def)


section \<open>What one console sends and the other receives\<close>

text \<open>What the hardware does to the bytes queued: its own header goes, two fields are filled in.\<close>

definition hw_fill :: "u16 \<Rightarrow> u16 \<Rightarrow> u8 list \<Rightarrow> u8 list" where
  "hw_fill dur seq frame = overwrite 22 (le16 seq) (overwrite 2 (le16 dur) (drop 12 frame))"

lemma hw_fill_frame:
  "hw_fill dur seq (tx_header r l @ ieee_header fc a b c @ rest) = air_header fc dur a b c seq @ rest"
  by (simp add: hw_fill_def overwrite_def ieee_header_def air_header_def)

text \<open>In a multiplayer command, the ARM7 also sets the two halfwords after the header.\<close>

definition cmd_fill :: "u16 \<Rightarrow> u16 \<Rightarrow> u16 \<Rightarrow> u16 \<Rightarrow> u8 list \<Rightarrow> u8 list" where
  "cmd_fill dur seq client_time client_bits frame =
     overwrite 24 (le16 client_time @ le16 client_bits) (hw_fill dur seq frame)"

lemma fc_masks:
  "0x228 AND FC_MASK = TYPE_DATA_CF_POLL OR FC_FROM_DS" "0x208 AND FC_MASK = TYPE_DATA OR FC_FROM_DS"
  "0x118 AND FC_MASK = TYPE_DATA_CF_ACK OR FC_TO_DS" "0x108 AND FC_MASK = TYPE_DATA OR FC_TO_DS"
  by (simp_all add: FC_MASK_def fc_defs)

lemma fc_types:
  "TYPE_DATA OR FC_FROM_DS \<noteq> TYPE_DATA_CF_POLL OR FC_FROM_DS"
  "TYPE_DATA OR FC_TO_DS \<noteq> TYPE_DATA_CF_ACK OR FC_TO_DS"
  by (simp_all add: fc_defs)

lemma cmd_frame_heard:
  assumes "tx_frame host (HostCmdTx bs) = Some (kind, frame)"
    and "from_host_handler s" and "curAp_bssid (Data s) = MacAddr host"
  shows "Wifi_MultiplayerHandlePacketFromHost (cmd_fill dur seq ct cb frame) s
    = s\<lparr>from_host := from_host s @ [(WIFI_MPTYPE_CMD, bs)]\<rparr>"
proof -
  have "frame = tx_header WIFI_TRANSFER_RATE_2MBPS (of_nat (length bs + 32))
      @ ieee_header 0x228 wifi_cmd_mac (MacAddr host) (MacAddr host) @ [0, 0, 0, 0] @ bs"
    using assms(1) by simp
  then have f: "cmd_fill dur seq ct cb frame =
      air_header 0x228 dur wifi_cmd_mac (MacAddr host) (MacAddr host) seq @ le16 ct @ le16 cb @ bs"
    by (simp add: cmd_fill_def hw_fill_frame overwrite_def air_header_fields)
  show ?thesis
    using assms(2,3)
    by (simp add: f Wifi_MultiplayerHandlePacketFromHost_def air_header_fields fc_masks Let_def)
qed







lemma client_frame_heard:
  assumes "tx_frame client c = Some (kind, frame)" "c = ClientReplyTx bs \<or> c = ClientToHostTx bs"
    and "from_client_handler s" and "curAp_bssid client = MacAddr (Data s)"
  shows "Wifi_MultiplayerHandlePacketFromClient (hw_fill dur seq frame) s =
    (let aid = Wifi_MultiplayerClientGetAIDFromMac (MacAddr client) (Data s);
         type = (if c = ClientReplyTx bs then WIFI_MPTYPE_REPLY else WIFI_MPTYPE_DATA) in
     if aid = 0 then Wifi_MultiplayerDropFrame DSWIFI_MP_DROP_AID_MISMATCH (hw_fill dur seq frame) s
     else s\<lparr>rx_diag := (rx_diag s)\<lparr>accepted := accepted (rx_diag s) + 1\<rparr>,
            from_client := from_client s @ [(type, aid, bs)]\<rparr>)"
  using assms(2)
proof
  assume c: "c = ClientReplyTx bs"
  with assms(1) have "frame = tx_header WIFI_TRANSFER_RATE_2MBPS (of_nat (length bs + 30))
      @ ieee_header 0x118 (MacAddr (Data s)) (MacAddr client) wifi_reply_mac
      @ [curClientAID (clients client), 0] @ bs" by (simp add: assms(4))
  then have f: "hw_fill dur seq frame = air_header 0x118 dur (MacAddr (Data s)) (MacAddr client)
      wifi_reply_mac seq @ [curClientAID (clients client), 0] @ bs"
    by (simp only: hw_fill_frame)
  show ?thesis
    using assms(3) c
    by (simp add: f Wifi_MultiplayerHandlePacketFromClient_def air_header_fields fc_masks Let_def)
next
  assume c: "c = ClientToHostTx bs"
  with assms(1) have "frame = tx_header WIFI_TRANSFER_RATE_2MBPS (of_nat (length bs + 30))
      @ ieee_header 0x108 (MacAddr (Data s)) (MacAddr client) (MacAddr (Data s))
      @ [curClientAID (clients client), 0] @ bs" by (simp add: assms(4))
  then have f: "hw_fill dur seq frame = air_header 0x108 dur (MacAddr (Data s)) (MacAddr client)
      (MacAddr (Data s)) seq @ [curClientAID (clients client), 0] @ bs"
    by (simp only: hw_fill_frame)
  show ?thesis
    using assms(3) c
    by (simp add: f Wifi_MultiplayerHandlePacketFromClient_def air_header_fields fc_masks fc_types Let_def)
qed




section \<open>Emptying the receive buffer\<close>

definition rx9_holds :: "arm9 \<Rightarrow> packet list \<Rightarrow> bool" where
  "rx9_holds s ps \<longleftrightarrow> ring_holds unat WIFI_RXBUFFER_SIZE (rxbuf (Data s)) ps"

text \<open>The fields of the shared structure that decide who gets a packet.\<close>

definition same_view :: "Wifi_MainStruct \<Rightarrow> Wifi_MainStruct \<Rightarrow> bool" where
  "same_view d d' \<longleftrightarrow> curLibraryMode d = curLibraryMode d' \<and> clients d = clients d'
     \<and> curMaxClients d = curMaxClients d' \<and> MacAddr d = MacAddr d' \<and> curAp_bssid d = curAp_bssid d'"

lemma AIDFromMac_view:
  "same_view d d' \<Longrightarrow> Wifi_MultiplayerClientGetAIDFromMac m d = Wifi_MultiplayerClientGetAIDFromMac m d'"
  by (simp add: Wifi_MultiplayerClientGetAIDFromMac_def same_view_def cong: option.case_cong)

lemma FromClient_view: "same_view (Data s) d \<Longrightarrow>
    Wifi_MultiplayerHandlePacketFromClient p (s\<lparr>Data := d\<rparr>) = (Wifi_MultiplayerHandlePacketFromClient p s)\<lparr>Data := d\<rparr>"
  using AIDFromMac_view [of "Data s" d]
  by (simp add: Wifi_MultiplayerHandlePacketFromClient_def Wifi_MultiplayerDropFrame_def same_view_def Let_def)

lemma FromHost_view: "same_view (Data s) d \<Longrightarrow>
    Wifi_MultiplayerHandlePacketFromHost p (s\<lparr>Data := d\<rparr>) = (Wifi_MultiplayerHandlePacketFromHost p s)\<lparr>Data := d\<rparr>"
  by (simp add: Wifi_MultiplayerHandlePacketFromHost_def same_view_def Let_def)


lemma dispatch_view: "same_view (Data s) d \<Longrightarrow> dispatch p (s\<lparr>Data := d\<rparr>) = (dispatch p s)\<lparr>Data := d\<rparr>"
  by (cases "curLibraryMode d")
     (auto simp: dispatch_def Let_def FromClient_view FromHost_view same_view_def)

lemma fold_dispatch_Data [simp]: "Data (fold dispatch ps s) = Data s"
  by (induction ps arbitrary: s) simp_all

lemma fold_dispatch_view:
  "same_view (Data s) d \<Longrightarrow> fold dispatch ps (s\<lparr>Data := d\<rparr>) = (fold dispatch ps s)\<lparr>Data := d\<rparr>"
  by (induction ps arbitrary: s) (simp_all add: dispatch_view)

definition rx_count :: "nat \<Rightarrow> Wifi_MainStruct \<Rightarrow> Wifi_MainStruct" where
  "rx_count n = stat_add WSTAT_TXDATABYTES n \<circ> stat_add WSTAT_TXBYTES n \<circ> stat_add WSTAT_TXPACKETS 1"

lemma same_view_rx: "same_view d (rx_count n (d\<lparr>rxbuf := r\<rparr>))"
  by (simp add: same_view_def rx_count_def stat_add_def stat_addw_def)

lemma update_turn_get:
  "update_turn (ring_read (rxbuf (Data s))) s =
    (case ring_get unat (rxbuf (Data s)) of
       None \<Rightarrow> None
     | Some (p, r) \<Rightarrow> Some (ring_read r, (dispatch (snd p) s)\<lparr>Data :=
         rx_count (length (snd p)) ((Data s)\<lparr>rxbuf := r\<rparr>)\<rparr>))"
  by (auto simp: update_turn_def ring_get_def ring_follow_def ring_status_def ring_skip_def ring_bytes_def
      upd_Data_def rx_count_def Let_def unat_eq_0)

text \<open>Up to \<open>n\<close> packets are dispatched in order and leave the buffer.\<close>

lemma update_loop_drains:
  "rx9_holds s ps \<Longrightarrow> \<exists>d. update_loop n (ring_read (rxbuf (Data s))) s
      = (fold dispatch (map snd (take n ps)) s)\<lparr>Data := d\<rparr>
    \<and> same_view (Data s) d \<and> ring_holds unat WIFI_RXBUFFER_SIZE (rxbuf d) (drop n ps)"
proof (induction n arbitrary: s ps)
  case 0
  then show ?case by (intro exI [of _ "Data s"]) (simp add: rx9_holds_def same_view_def)
next
  case (Suc n)
  note get = ring_get_refines [OF Suc.prems [unfolded rx9_holds_def]]
  have small: "WIFI_RXBUFFER_SIZE < 0x10000000" by (simp add: WIFI_RXBUFFER_SIZE_def)
  show ?case
  proof (cases ps)
    case Nil
    with get small Suc.prems show ?thesis
      by (intro exI [of _ "Data s"]) (simp add: update_turn_get rx9_holds_def same_view_def)
  next
    case (Cons p qs)
    with get small obtain r where r: "ring_get unat (rxbuf (Data s)) = Some (p, r)"
      "ring_holds unat WIFI_RXBUFFER_SIZE r qs" by auto
    let ?d1 = "rx_count (length (snd p)) ((Data s)\<lparr>rxbuf := r\<rparr>)"
    let ?s1 = "(dispatch (snd p) s)\<lparr>Data := ?d1\<rparr>"
    have rx: "rxbuf ?d1 = r" by (simp add: rx_count_def)
    have turn: "update_turn (ring_read (rxbuf (Data s))) s = Some (ring_read (rxbuf (Data ?s1)), ?s1)"
      using r(1) by (simp add: update_turn_get rx)
    have "rx9_holds ?s1 qs" using r(2) by (simp add: rx9_holds_def rx)
    from Suc.IH [OF this] obtain d where d: "update_loop n (ring_read (rxbuf (Data ?s1))) ?s1
        = (fold dispatch (map snd (take n qs)) ?s1)\<lparr>Data := d\<rparr>" "same_view ?d1 d"
      "ring_holds unat WIFI_RXBUFFER_SIZE (rxbuf d) (drop n qs)" by auto
    have v: "same_view (Data s) ?d1" by (rule same_view_rx)
    have "fold dispatch (map snd (take n qs)) ?s1
        = (fold dispatch (map snd (take n qs)) (dispatch (snd p) s))\<lparr>Data := ?d1\<rparr>"
      by (rule fold_dispatch_view) (simp add: v)
    moreover have "same_view (Data s) d" using v d(2) by (simp add: same_view_def)
    ultimately show ?thesis using d(1,3) turn Cons by (intro exI [of _ d]) simp
  qed
qed

text \<open>
  C23. One update of the ARM9 hands out the packets waiting in the receive buffer, oldest first
  and each once, up to 22 of them, and leaves the others in the buffer; who gets what does not
  depend on how the packets are stored.
\<close>

theorem NTR_Update_delivers:
  assumes "ring_holds unat WIFI_RXBUFFER_SIZE (rxbuf (Data s)) ps"
  shows "\<exists>d. Wifi_NTR_Update s = (fold dispatch (map snd (take 22 ps)) s)\<lparr>Data := d\<rparr>
    \<and> ring_holds unat WIFI_RXBUFFER_SIZE (rxbuf d) (drop 22 ps)"
  using update_loop_drains [of s ps 22] assms by (auto simp: Wifi_NTR_Update_def rx9_holds_def)

lemma NTR_Update_delivers_witness:
  "\<exists>d. Wifi_NTR_Update (arm9_start cleared) = (arm9_start cleared)\<lparr>Data := d\<rparr>
    \<and> ring_holds unat WIFI_RXBUFFER_SIZE (rxbuf d) []"
proof -
  have "ring_holds unat WIFI_RXBUFFER_SIZE (rxbuf (Data (arm9_start cleared))) []"
    by (simp add: ring_holds_def arm9_start_def cleared_def read_u32_def of_le32_def WIFI_RXBUFFER_SIZE_def)
  from NTR_Update_delivers [OF this] show ?thesis by simp
qed


end
