(* ===== verification/Dlplay_Rom.thy ===== *)
theory Dlplay_Rom
  imports Prelude
begin

text \<open>
  Cutting a program in blocks (source/arm9/ntr/dlplay/rom.c). The ROM is its list of bytes and a
  pointer into it is an offset; a field read outside of it, which C leaves undefined, is
  \<^const>\<open>None\<close>. The size of a block is the static variable \<open>rom_block_size\<close>, an argument here.
\<close>

section \<open>Definitions\<close>

definition NDS_HDR_SIZE :: nat where "NDS_HDR_SIZE = 0x160"
definition NDS_HDR_ARM9_ROM_OFFSET :: nat where "NDS_HDR_ARM9_ROM_OFFSET = 0x20"
definition NDS_HDR_ARM9_SIZE :: nat where "NDS_HDR_ARM9_SIZE = 0x2C"
definition NDS_HDR_ARM7_ROM_OFFSET :: nat where "NDS_HDR_ARM7_ROM_OFFSET = 0x30"
definition NDS_HDR_ARM7_SIZE :: nat where "NDS_HDR_ARM7_SIZE = 0x3C"
definition NDS_HDR_USED_ROM_SIZE :: nat where "NDS_HDR_USED_ROM_SIZE = 0x80"
definition NDS_RSA_SIZE :: nat where "NDS_RSA_SIZE = 0x88"
definition DSWIFI_DLPLAY_MAX_PROGRAM_SIZE :: nat where "DSWIFI_DLPLAY_MAX_PROGRAM_SIZE = 0x400000"

lemmas nds_header_defs = NDS_HDR_SIZE_def NDS_HDR_ARM9_ROM_OFFSET_def NDS_HDR_ARM9_SIZE_def
  NDS_HDR_ARM7_ROM_OFFSET_def NDS_HDR_ARM7_SIZE_def NDS_HDR_USED_ROM_SIZE_def NDS_RSA_SIZE_def

definition Wifi_DlPlayRead32 :: "u8 list \<Rightarrow> nat \<Rightarrow> nat" where
  "Wifi_DlPlayRead32 src i = unat (of_le32 (src ! i) (src ! (i + 1)) (src ! (i + 2)) (src ! (i + 3)))"

definition Wifi_DlPlayRomIsSigned :: "u8 list \<Rightarrow> bool option" where
  "Wifi_DlPlayRomIsSigned rom =
     (if length rom < NDS_HDR_USED_ROM_SIZE + 4 then Some False
      else
        let used_size = Wifi_DlPlayRead32 rom NDS_HDR_USED_ROM_SIZE in
        if u32_add used_size NDS_RSA_SIZE > length rom then Some False
        else if used_size < length rom then
          if rom ! used_size = 0x61 then
            if used_size + 1 < length rom then Some (rom ! (used_size + 1) = 0x63) else None
          else Some False
        else None)"

definition Wifi_DlPlayBlockCount :: "nat \<Rightarrow> nat \<Rightarrow> nat" where
  "Wifi_DlPlayBlockCount bs n = u32_add n (bs - 1) div bs"

record dl_segment =
  seg_data :: nat
  seg_size :: nat
  first_block :: nat
  seg_blocks :: nat

text \<open>\<open>rsa\<close> is the offset of the signature, \<^const>\<open>None\<close> the block of zeros used without one.\<close>

record Wifi_DlPlayRom =
  rom :: "u8 list"
  segment :: "dl_segment list"
  total_blocks :: nat
  rsa :: "nat option"

text \<open>Numbering the blocks of the parts of the program, one part after the other.\<close>

fun number_blocks :: "nat \<Rightarrow> nat \<Rightarrow> (nat \<times> nat) list \<Rightarrow> dl_segment list \<times> nat" where
  "number_blocks bs block [] = ([], block)"
| "number_blocks bs block ((off, n) # parts) =
     (let blocks = Wifi_DlPlayBlockCount bs n;
          seg = \<lparr>seg_data = off, seg_size = n, first_block = block, seg_blocks = blocks\<rparr>
      in case number_blocks bs (block + blocks) parts of (segs, final) \<Rightarrow> (seg # segs, final))"

text \<open>The inner \<^const>\<open>None\<close> is the result -1.\<close>

definition Wifi_DlPlayRomParse :: "nat \<Rightarrow> u8 list \<Rightarrow> Wifi_DlPlayRom option option" where
  "Wifi_DlPlayRomParse bs data =
     (if length data < NDS_HDR_SIZE then Some None
      else
        let arm9_offset = Wifi_DlPlayRead32 data NDS_HDR_ARM9_ROM_OFFSET;
            arm9_size = Wifi_DlPlayRead32 data NDS_HDR_ARM9_SIZE;
            arm7_offset = Wifi_DlPlayRead32 data NDS_HDR_ARM7_ROM_OFFSET;
            arm7_size = Wifi_DlPlayRead32 data NDS_HDR_ARM7_SIZE
        in
        if arm9_size = 0 \<or> arm7_size = 0 then Some None
        else if arm9_offset > length data \<or> length data - arm9_offset < arm9_size then Some None
        else if arm7_offset > length data \<or> length data - arm7_offset < arm7_size then Some None
        else
          case number_blocks bs 0 [(0, NDS_HDR_SIZE), (arm9_offset, arm9_size), (arm7_offset, arm7_size)] of
            (segs, block) \<Rightarrow>
              if block * bs mod 4294967296 > DSWIFI_DLPLAY_MAX_PROGRAM_SIZE then Some None
              else
                (case Wifi_DlPlayRomIsSigned data of
                   None \<Rightarrow> None
                 | Some has_rsa \<Rightarrow> Some (Some \<lparr>rom = data, segment = segs, total_blocks = block,
                     rsa = (if has_rsa then Some (Wifi_DlPlayRead32 data NDS_HDR_USED_ROM_SIZE) else None)\<rparr>)))"

fun get_block :: "nat \<Rightarrow> dl_segment list \<Rightarrow> nat \<Rightarrow> (nat \<times> nat) option" where
  "get_block bs [] block = None"
| "get_block bs (s # segs) block =
     (if block < first_block s \<or> block - first_block s \<ge> seg_blocks s then get_block bs segs block
      else
        let offset = (block - first_block s) * bs;
            remaining = seg_size s - offset
        in Some (seg_data s + offset, if remaining > bs then bs else remaining))"

definition Wifi_DlPlayRomGetBlock :: "nat \<Rightarrow> Wifi_DlPlayRom \<Rightarrow> int \<Rightarrow> u8 list option" where
  "Wifi_DlPlayRomGetBlock bs r block =
     (if block < 0 \<or> block \<ge> int (total_blocks r) then None
      else map_option (\<lambda>(off, n). take n (drop off (rom r))) (get_block bs (segment r) (nat block)))"

definition rom_rsa :: "Wifi_DlPlayRom \<Rightarrow> u8 list" where
  "rom_rsa r = (case rsa r of Some off \<Rightarrow> take NDS_RSA_SIZE (drop off (rom r)) | None \<Rightarrow> replicate NDS_RSA_SIZE 0)"

section \<open>The blocks are the program\<close>

lemma concat_chunks: "concat (map (\<lambda>k. take bs (drop (k * bs) xs)) [0..<m]) = take (m * bs) xs"
proof (induction m)
  case (Suc m)
  have "take (Suc m * bs) xs = take (m * bs) xs @ take bs (drop (m * bs) xs)"
    by (simp add: take_add add.commute [of bs])
  with Suc show ?case by simp
qed simp

lemma part_chunks:
  assumes "0 < bs"
  shows "concat (map (\<lambda>k. take (if n - k * bs > bs then bs else n - k * bs) (drop (off + k * bs) data))
      [0..<(n + (bs - 1)) div bs]) = take n (drop off data)"
proof -
  let ?xs = "take n (drop off data)" and ?m = "(n + (bs - 1)) div bs"
  have "take (if n - k * bs > bs then bs else n - k * bs) (drop (off + k * bs) data)
      = take bs (drop (k * bs) ?xs)" for k
    by (simp add: drop_take min_def add.commute)
  then have "concat (map (\<lambda>k. take (if n - k * bs > bs then bs else n - k * bs) (drop (off + k * bs) data))
      [0..<?m]) = take (?m * bs) ?xs"
    using concat_chunks [of bs ?xs ?m] by simp
  moreover have "n \<le> ?m * bs"
  proof -
    have "n + (bs - 1) < (?m + 1) * bs"
      using dividend_less_div_times [OF assms, of "n + (bs - 1)"] by (simp add: algebra_simps)
    with assms show ?thesis by (simp add: algebra_simps)
  qed
  ultimately show ?thesis by simp
qed

definition part_ok :: "nat \<Rightarrow> nat \<times> nat \<Rightarrow> bool" where
  "part_ok bs p \<longleftrightarrow> 0 < snd p \<and> snd p + bs < 4294967296"

lemma BlockCount_eq:
  assumes "part_ok bs (off, n)"
  shows "Wifi_DlPlayBlockCount bs n = (n + (bs - 1)) div bs"
proof -
  from assms have "n + (bs - 1) < 4294967296" by (auto simp: part_ok_def)
  then show ?thesis by (simp only: Wifi_DlPlayBlockCount_def u32_add_small)
qed

lemma number_blocks_mono: "number_blocks bs b parts = (segs, fin) \<Longrightarrow> b \<le> fin"
  by (induction bs b parts arbitrary: segs fin rule: number_blocks.induct)
     (fastforce simp: Let_def split: prod.splits)+

definition block_at :: "nat \<Rightarrow> dl_segment list \<Rightarrow> u8 list \<Rightarrow> nat \<Rightarrow> u8 list" where
  "block_at bs segs data k =
     (case get_block bs segs k of None \<Rightarrow> [] | Some (off, n) \<Rightarrow> take n (drop off data))"

lemma number_blocks_concat:
  assumes "0 < bs"
  shows "\<lbrakk>number_blocks bs b parts = (segs, fin); \<forall>p \<in> set parts. part_ok bs p\<rbrakk> \<Longrightarrow>
    concat (map (block_at bs segs data) [b..<fin]) = concat (map (\<lambda>(off, n). take n (drop off data)) parts)"
proof (induction parts arbitrary: b segs fin)
  case (Cons p parts)
  obtain off n where p: "p = (off, n)" by (cases p)
  let ?m = "(n + (bs - 1)) div bs"
  have m: "Wifi_DlPlayBlockCount bs n = ?m" by (rule BlockCount_eq [of _ off]) (use Cons.prems(2) p in simp)
  obtain rest where r: "number_blocks bs (b + ?m) parts = (rest, fin)"
    "segs = \<lparr>seg_data = off, seg_size = n, first_block = b, seg_blocks = ?m\<rparr> # rest"
    using Cons.prems(1) by (auto simp: p m Let_def split: prod.splits)
  from number_blocks_mono [OF r(1)] have fin: "[b..<fin] = [b..<b + ?m] @ [b + ?m..<fin]"
    by (metis le_add1 upt_add_eq_append le_add_diff_inverse)
  have "map (block_at bs segs data) [b..<b + ?m] = map (\<lambda>k. take (if n - k * bs > bs then bs else n - k * bs)
      (drop (off + k * bs) data)) [0..<?m]"
    by (rule nth_equalityI) (auto simp: block_at_def r(2) Let_def)
  then have head: "concat (map (block_at bs segs data) [b..<b + ?m]) = take n (drop off data)"
    using part_chunks [OF assms, of n off data] by simp
  have "map (block_at bs segs data) [b + ?m..<fin] = map (block_at bs rest data) [b + ?m..<fin]"
    by (rule map_cong) (auto simp: block_at_def r(2))
  moreover have "\<forall>p \<in> set parts. part_ok bs p" using Cons.prems(2) by simp
  ultimately
  have "concat (map (block_at bs segs data) [b + ?m..<fin]) = concat (map (\<lambda>(off, n). take n (drop off data)) parts)"
    using Cons.IH [OF r(1)] by metis
  with head show ?case by (simp add: fin p)
qed simp

lemma get_block_bounds:
  assumes "0 < bs"
  shows "\<lbrakk>number_blocks bs b parts = (segs, fin); \<forall>p \<in> set parts. part_ok bs p; b \<le> k; k < fin\<rbrakk> \<Longrightarrow>
    \<exists>off n. get_block bs segs k = Some (off, n) \<and> 0 < n \<and> n \<le> bs
      \<and> (\<exists>(o', n') \<in> set parts. o' \<le> off \<and> off + n \<le> o' + n')"
proof (induction parts arbitrary: b segs fin)
  case (Cons p parts)
  obtain off n where p: "p = (off, n)" by (cases p)
  let ?m = "(n + (bs - 1)) div bs"
  have m: "Wifi_DlPlayBlockCount bs n = ?m" by (rule BlockCount_eq [of _ off]) (use Cons.prems(2) p in simp)
  obtain rest where r: "number_blocks bs (b + ?m) parts = (rest, fin)"
    "segs = \<lparr>seg_data = off, seg_size = n, first_block = b, seg_blocks = ?m\<rparr> # rest"
    using Cons.prems(1) by (auto simp: p m Let_def split: prod.splits)
  show ?case
  proof (cases "k < b + ?m")
    case True
    let ?i = "k - b"
    from True Cons.prems(3) have "?i < ?m" by linarith
    then have "(?i + 1) * bs \<le> n + (bs - 1)"
      using assms by (metis Suc_eq_plus1 Suc_leI div_times_less_eq_dividend le_trans mult_le_mono1)
    then have lt: "?i * bs < n" using assms by (simp add: algebra_simps)
    then have "get_block bs segs k = Some (off + ?i * bs, if n - ?i * bs > bs then bs else n - ?i * bs)"
      unfolding r(2) using \<open>?i < ?m\<close> Cons.prems(3) by (simp only: get_block.simps dl_segment.simps Let_def) simp
    with lt assms p show ?thesis
      by (intro exI [of _ "off + ?i * bs"] exI [of _ "if n - ?i * bs > bs then bs else n - ?i * bs"]) auto
  next
    case False
    then have "get_block bs segs k = get_block bs rest k" by (auto simp: r(2))
    with Cons.IH [OF r(1)] Cons.prems False show ?thesis by fastforce
  qed
qed (simp)

definition parsed_parts :: "u8 list \<Rightarrow> (nat \<times> nat) list" where
  "parsed_parts data = [(0, NDS_HDR_SIZE),
     (Wifi_DlPlayRead32 data NDS_HDR_ARM9_ROM_OFFSET, Wifi_DlPlayRead32 data NDS_HDR_ARM9_SIZE),
     (Wifi_DlPlayRead32 data NDS_HDR_ARM7_ROM_OFFSET, Wifi_DlPlayRead32 data NDS_HDR_ARM7_SIZE)]"

lemma RomParse_parts:
  assumes "Wifi_DlPlayRomParse bs data = Some (Some r)"
  shows "rom r = data" "number_blocks bs 0 (parsed_parts data) = (segment r, total_blocks r)"
    and "\<forall>(off, n) \<in> set (parsed_parts data). 0 < n \<and> off + n \<le> length data"
  using assms
  by (auto simp: Wifi_DlPlayRomParse_def parsed_parts_def Let_def NDS_HDR_SIZE_def
      split: if_splits prod.splits option.splits)


text \<open>A program that is accepted has few blocks.\<close>

lemma parsed_total:
  assumes "Wifi_DlPlayRomParse bs data = Some (Some r)" and "64 \<le> bs" and "bs \<le> 504" and "length data < 0x7FFF0000"
  shows "total_blocks r \<le> 65536"
proof -
  note p = RomParse_parts [OF assms(1)]
  let ?m = "\<lambda>n. (n + (bs - 1)) div bs"
  obtain o9 n9 o7 n7 where parts: "parsed_parts data = [(0, 0x160), (o9, n9), (o7, n7)]"
    by (auto simp: parsed_parts_def NDS_HDR_SIZE_def)
  have n: "part_ok bs (o9, n9)" "part_ok bs (o7, n7)" "part_ok bs (0, 0x160)"
    using p(3) assms(3,4) by (auto simp: part_ok_def parts)
  have total: "total_blocks r = ?m 0x160 + ?m n9 + ?m n7"
    using p(2) BlockCount_eq [OF n(1)] BlockCount_eq [OF n(2)] BlockCount_eq [OF n(3)] by (simp add: parts Let_def)
  have "?m k * bs \<le> k + bs" for k
    using div_times_less_eq_dividend [of "k + (bs - 1)" bs] by linarith
  note this [of "0x160"] this [of n9] this [of n7]
  moreover have "n9 \<le> length data" "n7 \<le> length data" using p(3) by (auto simp: parts)
  ultimately have "total_blocks r * bs \<le> 2 * length data + 3 * bs + 0x160"
    unfolding total add_mult_distrib by linarith
  then have "total_blocks r * bs < 4294967296" using assms(3,4) by linarith
  moreover have "total_blocks r * bs mod 4294967296 \<le> 0x400000"
    using assms(1) p(2) by (auto simp: Wifi_DlPlayRomParse_def parsed_parts_def Let_def
        DSWIFI_DLPLAY_MAX_PROGRAM_SIZE_def split: if_splits prod.splits option.splits)
  ultimately have "total_blocks r * bs \<le> 0x400000" by simp
  moreover have "total_blocks r * 64 \<le> total_blocks r * bs" using assms(2) by simp
  ultimately show ?thesis by linarith
qed

text \<open>A ROM with two parts of four bytes after its header, and one that claims to be 4 GB long.\<close>

definition small_rom :: "u8 list" where
  "small_rom = (replicate 0x168 7)[0x20 := 0x60, 0x21 := 1, 0x22 := 0, 0x23 := 0, 0x2C := 4, 0x2D := 0, 0x2E := 0,
     0x2F := 0, 0x30 := 0x64, 0x31 := 1, 0x32 := 0, 0x33 := 0, 0x3C := 4, 0x3D := 0, 0x3E := 0, 0x3F := 0,
     0x80 := 0x64, 0x81 := 1, 0x82 := 0, 0x83 := 0]"

definition huge_rom :: "u8 list" where
  "huge_rom = small_rom[0x80 := 0xFF, 0x81 := 0xFF, 0x82 := 0xFF, 0x83 := 0xFF]"

lemma small_rom_nth [simp]:
  "small_rom ! 0x20 = 0x60" "small_rom ! 0x21 = 1" "small_rom ! 0x22 = 0" "small_rom ! 0x23 = 0"
  "small_rom ! 0x2C = 4" "small_rom ! 0x2D = 0" "small_rom ! 0x2E = 0" "small_rom ! 0x2F = 0"
  "small_rom ! 0x30 = 0x64" "small_rom ! 0x31 = 1" "small_rom ! 0x32 = 0" "small_rom ! 0x33 = 0"
  "small_rom ! 0x3C = 4" "small_rom ! 0x3D = 0" "small_rom ! 0x3E = 0" "small_rom ! 0x3F = 0"
  "small_rom ! 0x80 = 0x64" "small_rom ! 0x81 = 1" "small_rom ! 0x82 = 0" "small_rom ! 0x83 = 0"
  "length small_rom = 0x168"
  by (simp_all add: small_rom_def)

lemma small_rom_fields:
  "Wifi_DlPlayRead32 small_rom 0x20 = 0x160" "Wifi_DlPlayRead32 small_rom 0x2C = 4"
  "Wifi_DlPlayRead32 small_rom 0x30 = 0x164" "Wifi_DlPlayRead32 small_rom 0x3C = 4"
  "Wifi_DlPlayRead32 small_rom 0x80 = 0x164" "Wifi_DlPlayRead32 huge_rom 0x80 = 0xFFFFFFFF"
  by (simp_all add: Wifi_DlPlayRead32_def of_le32_def huge_rom_def)

lemma parsed_blocks:
  assumes "Wifi_DlPlayRomParse bs data = Some (Some r)"
    and "0 < bs" "length data + bs < 4294967296" and b: "block = Wifi_DlPlayRomGetBlock bs r"
  shows "concat (map (\<lambda>k. the (block (int k))) [0..<total_blocks r]) =
      take NDS_HDR_SIZE data
      @ take (Wifi_DlPlayRead32 data NDS_HDR_ARM9_SIZE) (drop (Wifi_DlPlayRead32 data NDS_HDR_ARM9_ROM_OFFSET) data)
      @ take (Wifi_DlPlayRead32 data NDS_HDR_ARM7_SIZE) (drop (Wifi_DlPlayRead32 data NDS_HDR_ARM7_ROM_OFFSET) data)
    \<and> (\<forall>k. 0 \<le> k \<and> k < int (total_blocks r) \<longleftrightarrow> block k \<noteq> None)
    \<and> (\<forall>k bytes. block k = Some bytes \<longrightarrow> 0 < length bytes \<and> length bytes \<le> bs)"
proof -
  note p = RomParse_parts [OF assms(1)]
  have ok: "\<forall>p \<in> set (parsed_parts data). part_ok bs p"
    using p(3) assms(3) by (auto simp: part_ok_def)
  have inside: "off + n \<le> length data" if "(o', n') \<in> set (parsed_parts data)" "off + n \<le> o' + n'" for off n o' n'
    using p(3) that by fastforce
  have blk: "\<exists>bytes. block k = Some bytes \<and> bytes = block_at bs (segment r) data (nat k)
      \<and> 0 < length bytes \<and> length bytes \<le> bs" if k: "0 \<le> k" "k < int (total_blocks r)" for k
  proof -
    have "nat k < total_blocks r" using k by linarith
    from get_block_bounds [OF assms(2) p(2) ok le0 this] obtain off n o' n' where
      g: "get_block bs (segment r) (nat k) = Some (off, n)" "0 < n" "n \<le> bs"
        "(o', n') \<in> set (parsed_parts data)" "off + n \<le> o' + n'" by blast
    from inside [OF g(4,5)] g k show ?thesis
      by (simp add: b Wifi_DlPlayRomGetBlock_def block_at_def p(1))
  qed
  have none: "block k = None" if "\<not> (0 \<le> k \<and> k < int (total_blocks r))" for k
    using that by (auto simp: b Wifi_DlPlayRomGetBlock_def)
  have m: "map (\<lambda>k. the (block (int k))) [0..<total_blocks r] = map (block_at bs (segment r) data) [0..<total_blocks r]"
  proof (rule map_cong)
    fix k assume "k \<in> set [0..<total_blocks r]"
    with blk [of "int k"] show "the (block (int k)) = block_at bs (segment r) data k" by auto
  qed simp
  have "concat (map (\<lambda>k. the (block (int k))) [0..<total_blocks r])
      = concat (map (\<lambda>(off, n). take n (drop off data)) (parsed_parts data))"
    unfolding m by (rule number_blocks_concat [OF assms(2) p(2) ok])
  moreover have "\<forall>k. 0 \<le> k \<and> k < int (total_blocks r) \<longleftrightarrow> block k \<noteq> None"
    using blk none by (metis option.distinct(1))
  moreover have "\<forall>k bytes. block k = Some bytes \<longrightarrow> 0 < length bytes \<and> length bytes \<le> bs"
    using blk none by (metis option.distinct(1) option.inject)
  ultimately show ?thesis by (simp add: parsed_parts_def)
qed

text \<open>
  C10. The blocks of a parsed program are the program: sent one after the other they are the
  header, the ARM9 binary and the ARM7 binary of the ROM, every block has at least one byte and
  at most the size of a block, and there is no block outside of the numbered ones.
\<close>

theorem rom_blocks_are_program:
  assumes "Wifi_DlPlayRomParse bs data = Some (Some r)"
    and "0 < bs" "length data + bs < 4294967296" and b: "block = Wifi_DlPlayRomGetBlock bs r"
  shows "concat (map (\<lambda>k. the (block (int k))) [0..<total_blocks r]) =
      take NDS_HDR_SIZE data
      @ take (Wifi_DlPlayRead32 data NDS_HDR_ARM9_SIZE) (drop (Wifi_DlPlayRead32 data NDS_HDR_ARM9_ROM_OFFSET) data)
      @ take (Wifi_DlPlayRead32 data NDS_HDR_ARM7_SIZE) (drop (Wifi_DlPlayRead32 data NDS_HDR_ARM7_ROM_OFFSET) data)
    \<and> (\<forall>k. 0 \<le> k \<and> k < int (total_blocks r) \<longleftrightarrow> block k \<noteq> None)
    \<and> (\<forall>k bytes. block k = Some bytes \<longrightarrow> 0 < length bytes \<and> length bytes \<le> bs)"
  using assms by (rule parsed_blocks)

lemma rom_blocks_are_program_witness:
  "\<exists>r. Wifi_DlPlayRomParse 0x100 small_rom = Some (Some r)
    \<and> concat (map (\<lambda>k. the (Wifi_DlPlayRomGetBlock 0x100 r (int k))) [0..<total_blocks r]) = small_rom"
proof -
  obtain r where r: "Wifi_DlPlayRomParse 0x100 small_rom = Some (Some r)"
    by (simp add: Wifi_DlPlayRomParse_def nds_header_defs small_rom_fields Let_def Wifi_DlPlayBlockCount_def
        DSWIFI_DLPLAY_MAX_PROGRAM_SIZE_def Wifi_DlPlayRomIsSigned_def)
  have "take 4 (drop 0x164 small_rom) = drop 0x164 small_rom" by simp
  moreover have "take 4 (drop 0x160 small_rom) @ drop 0x164 small_rom = drop 0x160 small_rom"
    using append_take_drop_id [of 4 "drop 0x160 small_rom"] by simp
  ultimately have "take 0x160 small_rom @ take 4 (drop 0x160 small_rom) @ take 4 (drop 0x164 small_rom) = small_rom"
    using append_take_drop_id [of "0x160" small_rom] by simp
  with rom_blocks_are_program [OF r _ _ refl] r show ?thesis
    by (simp add: nds_header_defs small_rom_fields)
qed


text \<open>
  C33. The test that a signature is inside the ROM wraps around: if the used size of the header is
  within the size of a signature of 2 ^ 32, the test passes for any ROM that has a header, and
  the code reads outside of the ROM.
\<close>

theorem signature_test_wraps:
  assumes "length data < 0x8000000" and "NDS_HDR_SIZE \<le> length data"
    and "4294967296 - NDS_RSA_SIZE \<le> Wifi_DlPlayRead32 data NDS_HDR_USED_ROM_SIZE"
  shows "Wifi_DlPlayRomIsSigned data = None"
proof -
  let ?u = "Wifi_DlPlayRead32 data NDS_HDR_USED_ROM_SIZE"
  have lt: "?u < 4294967296"
  proof -
    have "unat w < 2 ^ LENGTH(32)" for w :: u32 by (rule unsigned_less)
    then show ?thesis by (simp add: Wifi_DlPlayRead32_def)
  qed
  have "u32_add ?u NDS_RSA_SIZE = ?u + NDS_RSA_SIZE - 4294967296"
    using assms(3) lt by (simp add: u32_add_def NDS_RSA_SIZE_def mod_if)
  with assms lt show ?thesis
    by (simp add: Wifi_DlPlayRomIsSigned_def nds_header_defs Let_def)
qed

lemma signature_test_wraps_witness: "Wifi_DlPlayRomIsSigned huge_rom = None"
  by (rule signature_test_wraps) (simp_all add: huge_rom_def nds_header_defs small_rom_fields [unfolded huge_rom_def])


end
