(* ===== verification/Arm9_Beacon.thy ===== *)
theory Arm9_Beacon
  imports Tx_Frames
begin

text \<open>
  The beacon of a host, seen from the ARM9 (source/arm9/ntr/beacon.c): building it, publishing the
  table of fragments its extra data cycles through and asking for patches of single bytes. The
  result -1 is \<^const>\<open>False\<close>.
\<close>

section \<open>Definitions\<close>

definition DSWIFI_BEACON_EXTRA_DATA_MAX :: nat where "DSWIFI_BEACON_EXTRA_DATA_MAX = 0x70"
definition DSWIFI_BEACON_MAX_FRAGMENTS :: nat where "DSWIFI_BEACON_MAX_FRAGMENTS = 13"
definition TYPE_BEACON :: u16 where "TYPE_BEACON = 0x80"
definition CAPS_BEACON :: u16 where "CAPS_BEACON = 0x21"

record Wifi_BeaconVendorInfo =
  stepping_offset :: u16
  lcd_video_sync :: u16
  fixed_id :: u32
  game_id :: u32
  stream_code :: u16
  beacon_type :: u8
  cmd_data_size :: u16
  reply_data_size :: u16
  extra_data :: "u8 list"
  extra_data_layout :: u8
  omit_ssid :: bool

definition ssid_element :: "u8 list \<Rightarrow> u8 list" where
  "ssid_element ssid = 0 # of_nat (length ssid) # ssid"

definition vendor_header :: "Wifi_BeaconVendorInfo \<Rightarrow> u8 list" where
  "vendor_header info =
     [0x00, 0x09, 0xBF, 0x00] @ le16 (stepping_offset info) @ le16 (lcd_video_sync info)
     @ le32 (fixed_id info) @ le32 (game_id info) @ le16 (stream_code info)
     @ [of_nat (length (extra_data info)), beacon_type info]
     @ le16 (cmd_data_size info) @ le16 (reply_data_size info)"

definition vendor_element :: "Wifi_BeaconVendorInfo \<Rightarrow> u8 list" where
  "vendor_element info =
     [221, of_nat (24 + length (extra_data info))] @ vendor_header info @ extra_data info"

definition beacon_body :: "u8 list \<Rightarrow> Wifi_BeaconVendorInfo option \<Rightarrow> u8 \<Rightarrow> u8 list" where
  "beacon_body ssid info channel =
     replicate 8 0 @ le16 100 @ le16 CAPS_BEACON
     @ (case info of
          None \<Rightarrow> ssid_element ssid
        | Some i \<Rightarrow> if omit_ssid i then [] else ssid_element ssid)
     @ [1, 2, 0x84, 0x82]
     @ [3, 1, channel]
     @ [5, 5, 0, 2, 0, 0, 0]
     @ (case info of None \<Rightarrow> [] | Some i \<Rightarrow> vendor_element i)"

definition mgt_header :: "u16 \<Rightarrow> mac \<Rightarrow> mac \<Rightarrow> mac \<Rightarrow> u8 list" where
  "mgt_header frame_control da sa bssid =
     le16 frame_control @ le16 0 @ mac_bytes da @ mac_bytes sa @ mac_bytes bssid @ le16 0"

definition Wifi_BeaconStartInternal ::
  "u8 list \<Rightarrow> Wifi_BeaconVendorInfo option \<Rightarrow> Wifi_MainStruct \<Rightarrow> bool \<times> Wifi_MainStruct" where
  "Wifi_BeaconStartInternal ssid info d =
     (if length ssid > 32 then (False, d)
      else if (case info of None \<Rightarrow> False
                 | Some i \<Rightarrow> length (extra_data i) > DSWIFI_BEACON_EXTRA_DATA_MAX) then (False, d)
      else
        let d1 = d\<lparr>curAp_ssid_len := of_nat (length ssid), curAp_ssid := ssid @ replicate (33 - length ssid) 0,
                   beaconExtraDataLayout := (case info of None \<Rightarrow> 1 | Some i \<Rightarrow> extra_data_layout i)\<rparr>;
            body = beacon_body ssid info (reqChannel d);
            frame_size = 12 + 24 + length body + 4
        in
        if frame_size > MAC_BEACON_SIZE then (False, d1)
        else
          case Wifi_TxBufferAllocBuffer (txbuf d1) (u32_add (u32_add 4 (round_up_32 frame_size)) 4) of
            None \<Rightarrow> (False, stat_add WSTAT_TXQUEUEDREJECTED 1 d1)
          | Some (r, idx) \<Rightarrow>
              let frame = tx_header WIFI_TRANSFER_RATE_2MBPS (of_nat (frame_size - HDR_TX_SIZE))
                     @ mgt_header TYPE_BEACON wifi_broadcast_addr (MacAddr d) (MacAddr d) @ body;
                  r' = ring_store r idx frame frame_size (of_nat frame_size OR WFLAG_SEND_AS_BEACON)
              in (True, stat_add WSTAT_TXQUEUEDBYTES frame_size
                          (stat_add WSTAT_TXQUEUEDPACKETS 1 (d1\<lparr>txbuf := r'\<rparr>))))"

text \<open>\<open>Wifi_BeaconStart\<close>. The name of the user, from the firmware settings, is an argument.\<close>

definition bswap32 :: "u32 \<Rightarrow> u32" where
  "bswap32 v = of_le32 (le32 v ! 3) (le32 v ! 2) (le32 v ! 1) (le32 v ! 0)"

definition dswifi_extra_data :: "Wifi_MainStruct \<Rightarrow> u8 list" where
  "dswifi_extra_data d =
     [curMaxClients d + 1, 1, (if reqFlags d AND WFLAG_REQ_ALLOWCLIENTS \<noteq> 0 then 1 else 0), hostPlayerNameLen d]
     @ concat (map (\<lambda>i. le16 (hostPlayerName d ! i)) [0..<10])"

definition Wifi_BeaconStart ::
  "u16 list \<Rightarrow> u8 list \<Rightarrow> u32 \<Rightarrow> Wifi_MainStruct \<Rightarrow> bool \<times> Wifi_MainStruct" where
  "Wifi_BeaconStart user_name ssid gid d =
     (let game_data_len = min (unat (hostGameDataLen d)) DSWIFI_BEACON_GAME_DATA_MAX;
          info = \<lparr>stepping_offset = 0, lcd_video_sync = 0, fixed_id = 0, game_id = bswap32 gid, stream_code = 0,
                  beacon_type = 1, cmd_data_size = curCmdDataSize d, reply_data_size = curReplyDataSize d,
                  extra_data = dswifi_extra_data d @ take game_data_len (hostGameData d),
                  extra_data_layout = 0, omit_ssid = False\<rparr>;
          (ret, d1) = Wifi_BeaconStartInternal ssid (Some info) d;
          name = take 10 user_name
      in (ret, d1\<lparr>hostPlayerName := name @ drop (length name) (hostPlayerName d1)\<rparr>))"

definition Wifi_BeaconSetExtraDataFragments ::
  "u8 list list \<Rightarrow> nat \<Rightarrow> int \<Rightarrow> Wifi_MainStruct \<Rightarrow> bool \<times> Wifi_MainStruct" where
  "Wifi_BeaconSetExtraDataFragments fragments fragment_size count d =
     (if count < 1 \<or> count > int DSWIFI_BEACON_MAX_FRAGMENTS then (False, d)
      else if fragment_size = 0 \<or> fragment_size > DSWIFI_BEACON_EXTRA_DATA_MAX then (False, d)
      else
        let n = nat count;
            copy = (\<lambda>i. take fragment_size (fragments ! i) @ drop fragment_size (beaconFragments d ! i))
        in (True, d\<lparr>beaconFragments := map copy [0..<n] @ drop n (beaconFragments d),
                    beaconFragmentSize := of_nat fragment_size, beaconFragmentCount := of_nat n,
                    beaconFragmentGeneration := beaconFragmentGeneration d + 1\<rparr>))"

definition Wifi_BeaconPatchVendorByte :: "nat \<Rightarrow> u8 \<Rightarrow> Wifi_MainStruct \<Rightarrow> bool \<times> Wifi_MainStruct" where
  "Wifi_BeaconPatchVendorByte offset v d =
     (if offset \<ge> 24 + DSWIFI_BEACON_EXTRA_DATA_MAX then (False, d)
      else
        let wr = beaconPatchWrite d; next_wr = (wr + 1) mod 8 in
        if next_wr = beaconPatchRead d then (False, d)
        else (True, d\<lparr>beaconPatch := (beaconPatch d)[unat wr := (of_nat offset, v)], beaconPatchWrite := next_wr\<rparr>))"

section \<open>The beacon that is built\<close>

lemma length_vendor_header [simp]: "length (vendor_header info) = 24"
  by (simp add: vendor_header_def)

lemma length_mgt_header [simp]: "length (mgt_header fc a b c) = 24"
  by (simp add: mgt_header_def)

lemma length_beacon_body:
  "length (beacon_body ssid info ch) \<le> 12 + (2 + length ssid) + 14
     + (case info of None \<Rightarrow> 0 | Some i \<Rightarrow> 26 + length (extra_data i))"
  by (simp add: beacon_body_def ssid_element_def vendor_element_def split: option.split)


definition beacon_frame :: "u8 list \<Rightarrow> Wifi_BeaconVendorInfo option \<Rightarrow> Wifi_MainStruct \<Rightarrow> u8 list" where
  "beacon_frame ssid info d =
     (let body = beacon_body ssid info (reqChannel d)
      in tx_header WIFI_TRANSFER_RATE_2MBPS (of_nat (24 + length body + 4))
         @ mgt_header TYPE_BEACON wifi_broadcast_addr (MacAddr d) (MacAddr d) @ body)"

definition info_ok :: "u8 list \<Rightarrow> Wifi_BeaconVendorInfo option \<Rightarrow> bool" where
  "info_ok ssid info \<longleftrightarrow> length ssid \<le> 32
     \<and> (case info of None \<Rightarrow> True | Some i \<Rightarrow> length (extra_data i) \<le> 0x70)"

lemma beacon_fits: "info_ok ssid info \<Longrightarrow> length (beacon_frame ssid info d) + 4 \<le> MAC_BEACON_SIZE"
  using length_beacon_body [of ssid info "reqChannel d"]
  by (auto simp: beacon_frame_def info_ok_def Let_def mac_map split: option.splits)

lemma BeaconStartInternal_push:
  assumes "info_ok ssid info"
  shows "\<exists>d1. txbuf d1 = txbuf d \<and> Wifi_BeaconStartInternal ssid info d =
    (let frame = beacon_frame ssid info d; fs = length frame + 4 in
     case ring_push WIFI_TXBUFFER_SIZE (txbuf d) frame fs (of_nat fs OR WFLAG_SEND_AS_BEACON) of
       None \<Rightarrow> (False, stat_add WSTAT_TXQUEUEDREJECTED 1 d1)
     | Some r' \<Rightarrow> (True, stat_add WSTAT_TXQUEUEDBYTES fs (stat_add WSTAT_TXQUEUEDPACKETS 1 (d1\<lparr>txbuf := r'\<rparr>))))"
proof -
  let ?d1 = "d\<lparr>curAp_ssid_len := of_nat (length ssid), curAp_ssid := ssid @ replicate (33 - length ssid) 0,
      beaconExtraDataLayout := (case info of None \<Rightarrow> 1 | Some i \<Rightarrow> extra_data_layout i)\<rparr>"
  let ?body = "beacon_body ssid info (reqChannel d)"
  have c: "\<not> length ssid > 32"
    "\<not> (case info of None \<Rightarrow> False | Some i \<Rightarrow> length (extra_data i) > DSWIFI_BEACON_EXTRA_DATA_MAX)"
    using assms by (auto simp: info_ok_def DSWIFI_BEACON_EXTRA_DATA_MAX_def split: option.splits)
  have fs: "12 + 24 + length ?body + 4 = length (beacon_frame ssid info d) + 4"
    by (simp add: beacon_frame_def Let_def)
  have fits: "\<not> length (beacon_frame ssid info d) + 4 > MAC_BEACON_SIZE"
    using beacon_fits [OF assms, of d] by simp
  have hdr: "length (beacon_frame ssid info d) + 4 - HDR_TX_SIZE = 24 + length ?body + 4"
    by (simp add: beacon_frame_def Let_def HDR_TX_SIZE_def)
  show ?thesis
    unfolding Wifi_BeaconStartInternal_def if_not_P [OF c(1)] if_not_P [OF c(2)] Let_def fs if_not_P [OF fits]
      ring_push_def hdr
    by (intro exI [of _ ?d1])
       (simp add: Wifi_TxBufferAllocBuffer_def beacon_frame_def Let_def split: option.split)
qed

text \<open>
  C24. A beacon with a name and extra data within their limits always fits in its buffer; it is
  either refused because the queue is full, or queued as one packet, tagged as a beacon, with the
  frame of the given fields.
\<close>

theorem BeaconStart_queued:
  assumes "tx_holds d ps" and "info_ok ssid info" and "Wifi_BeaconStartInternal ssid info d = (ok, d')"
  shows "length (beacon_frame ssid info d) + 4 \<le> MAC_BEACON_SIZE
    \<and> (if ok then \<exists>fcs. length fcs = 4 \<and> tx_holds d' (ps @
          [(of_nat (length (beacon_frame ssid info d) + 4) OR WFLAG_SEND_AS_BEACON, beacon_frame ssid info d @ fcs)])
       else tx_holds d' ps)"
proof -
  let ?f = "beacon_frame ssid info d"
  let ?fs = "length ?f + 4"
  note fits = beacon_fits [OF assms(2), of d]
  obtain d1 where d1: "txbuf d1 = txbuf d" "Wifi_BeaconStartInternal ssid info d =
     (case ring_push WIFI_TXBUFFER_SIZE (txbuf d) ?f ?fs (of_nat ?fs OR WFLAG_SEND_AS_BEACON) of
       None \<Rightarrow> (False, stat_add WSTAT_TXQUEUEDREJECTED 1 d1)
     | Some r' \<Rightarrow> (True, stat_add WSTAT_TXQUEUEDBYTES ?fs (stat_add WSTAT_TXQUEUEDPACKETS 1 (d1\<lparr>txbuf := r'\<rparr>))))"
    using BeaconStartInternal_push [OF assms(2), of d] unfolding Let_def by blast
  show ?thesis
  proof (cases "ring_push WIFI_TXBUFFER_SIZE (txbuf d) ?f ?fs (of_nat ?fs OR WFLAG_SEND_AS_BEACON)")
    case None
    with d1 assms(1,3) fits show ?thesis by (auto simp: tx_holds_def)
  next
    case (Some r')
    have small: "?fs < 0x10000000" using fits by (simp add: mac_map)
    from tx_push_spec [OF assms(1) send_kinds(2) refl small Some] d1(2) assms(3) fits Some
    show ?thesis by (auto simp: tx_holds_def)
  qed
qed

lemma BeaconStart_queued_witness:
  "\<exists>d'. Wifi_BeaconStartInternal [65] None cleared = (True, d')
    \<and> (\<exists>fcs. length fcs = 4 \<and> tx_holds d'
        [(of_nat (length (beacon_frame [65] None cleared) + 4) OR WFLAG_SEND_AS_BEACON, beacon_frame [65] None cleared @ fcs)])"
proof -
  obtain ok d' where c: "Wifi_BeaconStartInternal [65] None cleared = (ok, d')" by fastforce
  have i: "info_ok [65] None" by (simp add: info_ok_def)
  have ok
    using c by (auto simp: Wifi_BeaconStartInternal_def Let_def Wifi_TxBufferAllocBuffer_def ring_alloc_def
        cleared_def WIFI_TXBUFFER_SIZE_def beacon_body_def ssid_element_def mac_map round_up_32_def split: option.splits)
  with BeaconStart_queued [OF tx_holds_cleared i c] c show ?thesis by simp
qed


text \<open>Publishing a table of fragments.\<close>

definition fragment_table :: "Wifi_MainStruct \<Rightarrow> bool" where
  "fragment_table d \<longleftrightarrow> length (beaconFragments d) = 13 \<and> (\<forall>f \<in> set (beaconFragments d). length f = 112)"

lemma SetExtraDataFragments_iff:
  "fst (Wifi_BeaconSetExtraDataFragments fragments fs count d) \<longleftrightarrow>
     1 \<le> count \<and> count \<le> 13 \<and> 0 < fs \<and> fs \<le> 112"
  by (auto simp: Wifi_BeaconSetExtraDataFragments_def DSWIFI_BEACON_MAX_FRAGMENTS_def
      DSWIFI_BEACON_EXTRA_DATA_MAX_def Let_def)

lemma SetExtraDataFragments_stored:
  assumes "fragment_table d" and "1 \<le> count" "count \<le> 13" "0 < fs" "fs \<le> 112"
    and "\<forall>i < nat count. fs \<le> length (fragments ! i)"
  defines "d' \<equiv> snd (Wifi_BeaconSetExtraDataFragments fragments fs count d)"
  shows "\<forall>i < nat count. take fs (beaconFragments d' ! i) = take fs (fragments ! i)"
    and "unat (beaconFragmentSize d') = fs" "unat (beaconFragmentCount d') = nat count"
    and "beaconFragmentGeneration d' = beaconFragmentGeneration d + 1" "fragment_table d'"
    and "d' = d\<lparr>beaconFragments := beaconFragments d', beaconFragmentSize := beaconFragmentSize d',
      beaconFragmentCount := beaconFragmentCount d', beaconFragmentGeneration := beaconFragmentGeneration d'\<rparr>"
proof -
  define n where "n = nat count"
  have n: "1 \<le> n" "n \<le> 13" "count = int n" using assms(2,3) by (auto simp: n_def)
  let ?copy = "\<lambda>i. take fs (fragments ! i) @ drop fs (beaconFragments d ! i)"
  have d': "d' = d\<lparr>beaconFragments := map ?copy [0..<n] @ drop n (beaconFragments d),
      beaconFragmentSize := of_nat fs, beaconFragmentCount := of_nat n,
      beaconFragmentGeneration := beaconFragmentGeneration d + 1\<rparr>"
    using assms(4,5) n by (simp add: d'_def Wifi_BeaconSetExtraDataFragments_def
        DSWIFI_BEACON_MAX_FRAGMENTS_def DSWIFI_BEACON_EXTRA_DATA_MAX_def Let_def)
  have len: "length (beaconFragments d) = 13" "\<And>i. i < 13 \<Longrightarrow> length (beaconFragments d ! i) = 112"
    using assms(1) by (auto simp: fragment_table_def)
  show "\<forall>i < nat count. take fs (beaconFragments d' ! i) = take fs (fragments ! i)"
    using assms(6) by (auto simp: d' nth_append n_def)
  show "unat (beaconFragmentSize d') = fs" "unat (beaconFragmentCount d') = nat count"
    using assms(5) n by (simp_all add: d' unat_of_nat)
  show "beaconFragmentGeneration d' = beaconFragmentGeneration d + 1" by (simp add: d')
  have "length (?copy i) = 112" if "i < n" for i
    using that n(2) assms(5,6) len(2) [of i] by (simp add: n_def)
  then have "\<forall>f \<in> set (map ?copy [0..<n]). length f = 112" by simp
  moreover have "\<forall>f \<in> set (drop n (beaconFragments d)). length f = 112"
    using assms(1) by (auto simp: fragment_table_def dest: in_set_dropD)
  ultimately show "fragment_table d'"
    using len(1) n(2) unfolding fragment_table_def d' by (simp add: ball_Un)
  show "d' = d\<lparr>beaconFragments := beaconFragments d', beaconFragmentSize := beaconFragmentSize d',
      beaconFragmentCount := beaconFragmentCount d', beaconFragmentGeneration := beaconFragmentGeneration d'\<rparr>"
    by (simp add: d')
qed

end
