(* ===== verification/Dlplay_Beacon.thy ===== *)
theory Dlplay_Beacon
  imports Dlplay_Rom Arm9_Beacon
begin

text \<open>
  What a Download Play host announces (source/arm9/ntr/dlplay/beacon_info.c): a record that
  describes the program, cut in nine fragments, and fragments that list the players, all of them
  published as the table the ARM7 cycles through. The static variables of the file are the record
  \<open>dl_beacon\<close>; the settings of the console come from the firmware and are an argument.
\<close>

section \<open>Constants and state\<close>

definition DLPLAY_GAME_INFO_SIZE :: nat where "DLPLAY_GAME_INFO_SIZE = 0x358"
definition DLPLAY_FRAGMENT_SIZE :: nat where "DLPLAY_FRAGMENT_SIZE = 0x70"
definition DLPLAY_FIXED_FRAGMENT_COUNT :: nat where "DLPLAY_FIXED_FRAGMENT_COUNT = 9"
definition DLPLAY_FRAG_PAYLOAD_MAX :: nat where "DLPLAY_FRAG_PAYLOAD_MAX = 0x62"
definition DLPLAY_MEMBERS_PER_FRAGMENT :: nat where "DLPLAY_MEMBERS_PER_FRAGMENT = 4"
definition DLPLAY_MEMBER_SIZE :: nat where "DLPLAY_MEMBER_SIZE = 22"
definition DSWIFI_DLPLAY_HOST_NAME_LEN :: nat where "DSWIFI_DLPLAY_HOST_NAME_LEN = 10"
definition DSWIFI_DLPLAY_TITLE_LEN :: nat where "DSWIFI_DLPLAY_TITLE_LEN = 48"
definition DSWIFI_DLPLAY_DESC_LEN :: nat where "DSWIFI_DLPLAY_DESC_LEN = 96"
definition NDS_BANNER_TITLE_CHARS :: nat where "NDS_BANNER_TITLE_CHARS = 128"
definition NDS_HDR_BANNER_OFFSET :: nat where "NDS_HDR_BANNER_OFFSET = 0x68"

lemmas dlplay_sizes = DLPLAY_GAME_INFO_SIZE_def DLPLAY_FRAGMENT_SIZE_def DLPLAY_FIXED_FRAGMENT_COUNT_def
  DLPLAY_FRAG_PAYLOAD_MAX_def DLPLAY_MEMBERS_PER_FRAGMENT_def DLPLAY_MEMBER_SIZE_def
  DSWIFI_DLPLAY_HOST_NAME_LEN_def DSWIFI_DLPLAY_TITLE_LEN_def DSWIFI_DLPLAY_DESC_LEN_def

definition DLPLAY_VOLATILE_FRAGMENT_COUNT :: "nat \<Rightarrow> nat" where
  "DLPLAY_VOLATILE_FRAGMENT_COUNT n = (if n < 1 then 1 else (n - 1) div DLPLAY_MEMBERS_PER_FRAGMENT + 1)"

record Wifi_DlPlayMember =
  favorite_color :: u8
  member_name_len :: u8
  member_name :: "u16 list"

record dl_beacon =
  dlplay_game_info :: "u8 list"
  dlplay_fragments :: "u8 list list"
  dlplay_fragment_count :: nat
  dlplay_volatile_count :: nat
  dlplay_seq_fixed :: u8
  dlplay_player_mask :: u16
  dlplay_player_changed :: u16
  dlplay_player_sequence :: u8
  dlplay_members :: "Wifi_DlPlayMember list"
  dlplay_user_volat :: "u8 list"

record Wifi_DlPlayInfo =
  icon_bitmap :: "u8 list option"
  icon_palette :: "u8 list option"
  host_name :: "u16 list option"
  dl_title :: "u16 list option"
  dl_description :: "u16 list option"

record personal_data =
  pd_name :: "u16 list"
  pd_theme :: u8

section \<open>Fragments\<close>

definition Wifi_DlPlayWriteString :: "u16 list \<Rightarrow> nat \<Rightarrow> nat \<Rightarrow> u8 list" where
  "Wifi_DlPlayWriteString src src_len max_len =
     (let src_len = min src_len max_len
      in concat (map (\<lambda>i. le16 (if i < src_len \<and> i < length src then src ! i else 0)) [0..<max_len]))"

text \<open>The sum of the halfwords from offset 0x0A on, as the code folds it: one carry is added back.\<close>

definition fragment_sum :: "u8 list \<Rightarrow> nat" where
  "fragment_sum fragment =
     fold (\<lambda>i s. s + unat (fragment ! i) * 256 + unat (fragment ! (i + 1))) (map (\<lambda>k. 0x0A + 2 * k) [0..<51]) 0"

definition fold_sum :: "nat \<Rightarrow> u16" where
  "fold_sum s = NOT (of_nat (s + s div 65536))"

definition Wifi_DlPlayFragmentChecksum :: "u8 list \<Rightarrow> u8 list" where
  "Wifi_DlPlayFragmentChecksum fragment =
     (let c = fold_sum (fragment_sum fragment) in fragment[0x08 := ucast (drop_bit 8 c), 0x09 := ucast c])"

definition Wifi_DlPlayBeaconPublish :: "dl_beacon \<Rightarrow> Wifi_MainStruct \<Rightarrow> bool \<times> Wifi_MainStruct" where
  "Wifi_DlPlayBeaconPublish b d =
     Wifi_BeaconSetExtraDataFragments (dlplay_fragments b) DLPLAY_FRAGMENT_SIZE (int (dlplay_fragment_count b)) d"

definition Wifi_DlPlayWriteMember :: "nat \<Rightarrow> Wifi_DlPlayMember \<Rightarrow> u8 list" where
  "Wifi_DlPlayWriteMember aid m =
     (let name_len = (if unat (member_name_len m) > DSWIFI_DLPLAY_HOST_NAME_LEN
                      then DSWIFI_DLPLAY_HOST_NAME_LEN else unat (member_name_len m))
      in [(favorite_color m AND 0x0F) OR push_bit 4 (of_nat aid), of_nat name_len]
         @ Wifi_DlPlayWriteString (member_name m) name_len DSWIFI_DLPLAY_HOST_NAME_LEN)"

definition player_count :: "u16 \<Rightarrow> nat" where
  "player_count am = fold (\<lambda>i c. if am AND BIT16 i \<noteq> 0 then c + 1 else c) [0..<16] 0"

text \<open>The players with a slot in fragment \<open>v\<close>, written at their place.\<close>

definition write_member :: "dl_beacon \<Rightarrow> nat \<Rightarrow> nat \<Rightarrow> nat \<times> u8 list \<Rightarrow> nat \<times> u8 list" where
  "write_member b v aid st =
     (case st of (index, fragment) \<Rightarrow>
        if dlplay_player_mask b AND BIT16 aid = 0 then (index, fragment)
        else
          let slot = int index - int (v * DLPLAY_MEMBERS_PER_FRAGMENT) in
          if slot < 0 \<or> slot \<ge> int DLPLAY_MEMBERS_PER_FRAGMENT then (index + 1, fragment)
          else (index + 1, overwrite (0x10 + nat slot * DLPLAY_MEMBER_SIZE)
                  (Wifi_DlPlayWriteMember aid (dlplay_members b ! aid)) fragment))"

definition volatile_fragment :: "dl_beacon \<Rightarrow> nat \<Rightarrow> u8 list" where
  "volatile_fragment b v =
     (let am = le16 (dlplay_player_mask b); ch = le16 (dlplay_player_changed b);
          fragment = (replicate DLPLAY_FRAGMENT_SIZE 0)
            [0x07 := of_nat (DLPLAY_FIXED_FRAGMENT_COUNT + v), 0x05 := dlplay_seq_fixed b,
             0x0B := of_nat DLPLAY_FIXED_FRAGMENT_COUNT, 0x04 := 2, 0x06 := dlplay_player_sequence b,
             0x0A := of_nat (player_count (dlplay_player_mask b)),
             0x0C := am ! 0, 0x0D := am ! 1, 0x0E := ch ! 0, 0x0F := ch ! 1];
          fragment = snd (fold (write_member b v) [1..<16] (0, fragment));
          fragment = overwrite 0x68 (dlplay_user_volat b) fragment
      in Wifi_DlPlayFragmentChecksum fragment)"

definition Wifi_DlPlayWriteVolatileFragments :: "dl_beacon \<Rightarrow> dl_beacon" where
  "Wifi_DlPlayWriteVolatileFragments b =
     b\<lparr>dlplay_fragments :=
         fold (\<lambda>v fs. fs[DLPLAY_FIXED_FRAGMENT_COUNT + v := volatile_fragment b v])
           [0..<dlplay_volatile_count b] (dlplay_fragments b)\<rparr>"

definition no_member :: Wifi_DlPlayMember where
  "no_member = \<lparr>favorite_color = 0, member_name_len = 0, member_name = replicate 10 0\<rparr>"

definition Wifi_DlPlayBeaconResetPlayers :: "dl_beacon \<Rightarrow> dl_beacon" where
  "Wifi_DlPlayBeaconResetPlayers b =
     b\<lparr>dlplay_player_mask := BIT16 0, dlplay_player_changed := 0, dlplay_player_sequence := 0,
       dlplay_members := replicate 16 no_member, dlplay_user_volat := replicate 8 0\<rparr>"

section \<open>The record\<close>

text \<open>Bytes of the ROM; \<^const>\<open>None\<close> when they are not all inside of it.\<close>

definition rom_bytes :: "u8 list \<Rightarrow> nat \<Rightarrow> nat \<Rightarrow> u8 list option" where
  "rom_bytes data off n = (if off + n \<le> length data then Some (take n (drop off data)) else None)"

text \<open>
  What the banner of the ROM offers: icon, palette, and the text of the title if it has one. The
  outer \<^const>\<open>None\<close> is a pointer outside of the ROM, which the sums of 32 bits can give.
\<close>

definition banner_of :: "u8 list \<Rightarrow> ((u8 list \<times> u8 list \<times> u8 list option) option) option" where
  "banner_of data =
     (let banner = Wifi_DlPlayRead32 data NDS_HDR_BANNER_OFFSET in
      if banner \<noteq> 0 \<and> u32_add (u32_add banner 0x220) 0x20 \<le> length data then
        (case (rom_bytes data (u32_add banner 0x20) 0x200, rom_bytes data (u32_add banner 0x220) 0x20) of
           (Some bitmap, Some palette) \<Rightarrow>
             if u32_add (u32_add banner 0x340) 256 \<le> length data then
               (case rom_bytes data (u32_add banner 0x340) 256 of
                  Some t \<Rightarrow> Some (Some (bitmap, palette, Some t))
                | None \<Rightarrow> None)
             else Some (Some (bitmap, palette, None))
         | _ \<Rightarrow> None)
      else Some None)"

definition banner_chars :: "u8 list \<Rightarrow> u16 list" where
  "banner_chars src =
     takeWhile (\<lambda>c. c \<noteq> 0) (map (\<lambda>i. of_le16 (src ! (i * 2)) (src ! (i * 2 + 1))) [0..<NDS_BANNER_TITLE_CHARS])"

text \<open>Its first line and the rest after the newline, \<^const>\<open>None\<close> if there is nothing more.\<close>

definition split_title :: "u16 list \<Rightarrow> u16 list \<times> u16 list option" where
  "split_title chars =
     (let n = length chars; first_line = length (takeWhile (\<lambda>c. c \<noteq> 10) chars)
      in (take first_line chars, if n > first_line + 1 then Some (drop (first_line + 1) chars) else None))"

definition fixed_field :: "nat \<Rightarrow> u8 list option \<Rightarrow> u8 list" where
  "fixed_field n x = (case x of None \<Rightarrow> replicate n 0 | Some bs \<Rightarrow> take n bs @ replicate (n - length bs) 0)"

definition build_game_info ::
  "personal_data \<Rightarrow> u8 list option \<Rightarrow> u8 list option \<Rightarrow> u16 list option \<Rightarrow> u16 list option \<Rightarrow> u16 list option
   \<Rightarrow> nat \<Rightarrow> u8 list" where
  "build_game_info pd palette bitmap hname title description max_clients =
     (let hname = (case hname of None \<Rightarrow> take DSWIFI_DLPLAY_HOST_NAME_LEN (pd_name pd) | Some n \<Rightarrow> n);
          name_len = min (length hname) DSWIFI_DLPLAY_HOST_NAME_LEN;
          str = (\<lambda>x n. Wifi_DlPlayWriteString (case x of None \<Rightarrow> [] | Some t \<Rightarrow> t)
                         (case x of None \<Rightarrow> 0 | Some t \<Rightarrow> length t) n)
      in fixed_field 0x20 palette @ fixed_field 0x200 bitmap
         @ [pd_theme pd AND 0x0F, of_nat name_len]
         @ Wifi_DlPlayWriteString hname name_len DSWIFI_DLPLAY_HOST_NAME_LEN
         @ [if max_clients < 1 then 2 else of_nat (max_clients + 1), 0]
         @ str title DSWIFI_DLPLAY_TITLE_LEN @ str description DSWIFI_DLPLAY_DESC_LEN)"

definition fixed_fragment :: "u8 \<Rightarrow> u8 list \<Rightarrow> nat \<Rightarrow> u8 list" where
  "fixed_fragment seq game_info i =
     (let offset = i * DLPLAY_FRAG_PAYLOAD_MAX;
          len = (if offset \<ge> DLPLAY_GAME_INFO_SIZE then 0
                 else if offset + DLPLAY_FRAG_PAYLOAD_MAX > DLPLAY_GAME_INFO_SIZE
                 then DLPLAY_GAME_INFO_SIZE - offset else DLPLAY_FRAG_PAYLOAD_MAX);
          fragment = (replicate DLPLAY_FRAGMENT_SIZE 0)
            [0x07 := of_nat i, 0x05 := seq, 0x0B := of_nat DLPLAY_FIXED_FRAGMENT_COUNT, 0x0A := of_nat i,
             0x0C := of_nat len];
          fragment = overwrite 0x0E (take len (drop offset game_info)) fragment
      in Wifi_DlPlayFragmentChecksum fragment)"

text \<open>\<^const>\<open>None\<close> is a banner that is read outside of the ROM.\<close>

definition Wifi_DlPlayBeaconSetInfo ::
  "personal_data \<Rightarrow> u8 list \<Rightarrow> Wifi_DlPlayInfo \<Rightarrow> nat \<Rightarrow> dl_beacon \<Rightarrow> Wifi_MainStruct
   \<Rightarrow> (bool \<times> dl_beacon \<times> Wifi_MainStruct) option" where
  "Wifi_DlPlayBeaconSetInfo pd data info max_clients b d =
     (case (if icon_bitmap info = None \<or> icon_palette info = None then banner_of data else Some None) of
        None \<Rightarrow> None
      | Some banner \<Rightarrow>
          let bitmap = (case icon_bitmap info of Some x \<Rightarrow> Some x | None \<Rightarrow> map_option (\<lambda>(bm, _). bm) banner);
              palette = (case icon_palette info of Some x \<Rightarrow> Some x | None \<Rightarrow> map_option (\<lambda>(_, p, _). p) banner);
              title_src = (case banner of Some (_, _, Some t) \<Rightarrow> Some t | _ \<Rightarrow> None);
              (title, description) =
                (case (dl_title info, title_src) of
                   (None, Some t) \<Rightarrow>
                     (case split_title (banner_chars t) of
                        (first, rest) \<Rightarrow> (Some first, if rest = None then dl_description info else rest))
                 | _ \<Rightarrow> (dl_title info, dl_description info));
              game_info = build_game_info pd palette bitmap (host_name info) title description max_clients;
              vcount = DLPLAY_VOLATILE_FRAGMENT_COUNT max_clients;
              seq = dlplay_seq_fixed b + 1;
              fragments = map (fixed_fragment seq game_info) [0..<DLPLAY_FIXED_FRAGMENT_COUNT]
                @ replicate (DSWIFI_BEACON_MAX_FRAGMENTS - DLPLAY_FIXED_FRAGMENT_COUNT) (replicate DLPLAY_FRAGMENT_SIZE 0);
              b1 = Wifi_DlPlayWriteVolatileFragments
                (b\<lparr>dlplay_game_info := game_info, dlplay_volatile_count := vcount,
                   dlplay_fragment_count := DLPLAY_FIXED_FRAGMENT_COUNT + vcount,
                   dlplay_seq_fixed := seq, dlplay_fragments := fragments\<rparr>);
              (ok, d1) = Wifi_DlPlayBeaconPublish b1 d
          in Some (ok, b1, d1))"

definition Wifi_DlPlayMemberChanged :: "Wifi_DlPlayMember \<Rightarrow> Wifi_DlPlayMember \<Rightarrow> bool" where
  "Wifi_DlPlayMemberChanged a b \<longleftrightarrow>
     favorite_color a \<noteq> favorite_color b \<or> member_name_len a \<noteq> member_name_len b \<or> member_name a \<noteq> member_name b"

definition players_changed :: "dl_beacon \<Rightarrow> u16 \<Rightarrow> Wifi_DlPlayMember list \<Rightarrow> bool" where
  "players_changed b now members \<longleftrightarrow>
     now \<noteq> dlplay_player_mask b
     \<or> (\<exists>aid \<in> set [1..<16]. now AND BIT16 aid \<noteq> 0 \<and> Wifi_DlPlayMemberChanged (dlplay_members b ! aid) (members ! aid))"

definition Wifi_DlPlayBeaconSetPlayers ::
  "u16 \<Rightarrow> Wifi_DlPlayMember list \<Rightarrow> dl_beacon \<Rightarrow> Wifi_MainStruct \<Rightarrow> dl_beacon \<times> Wifi_MainStruct" where
  "Wifi_DlPlayBeaconSetPlayers present members b d =
     (let now = present OR BIT16 0 in
      if \<not> players_changed b now members then (b, d)
      else
        let b1 = Wifi_DlPlayWriteVolatileFragments
              (b\<lparr>dlplay_player_changed := now XOR dlplay_player_mask b, dlplay_player_mask := now,
                 dlplay_player_sequence := dlplay_player_sequence b + 1,
                 dlplay_members := take 1 (dlplay_members b) @ map (\<lambda>aid. members ! aid) [1..<16]\<rparr>)
        in (b1, snd (Wifi_DlPlayBeaconPublish b1 d)))"

definition Wifi_DlPlayBeaconSetUserVolatData ::
  "u8 list option \<Rightarrow> dl_beacon \<Rightarrow> Wifi_MainStruct \<Rightarrow> bool \<times> dl_beacon \<times> Wifi_MainStruct" where
  "Wifi_DlPlayBeaconSetUserVolatData data b d =
     (let next_data = (case data of Some x \<Rightarrow> take 8 x | None \<Rightarrow> replicate 8 0) in
      if next_data = dlplay_user_volat b then (True, b, d)
      else
        let b1 = Wifi_DlPlayWriteVolatileFragments (b\<lparr>dlplay_user_volat := next_data\<rparr>);
            (ok, d1) = Wifi_DlPlayBeaconPublish b1 d
        in (ok, b1, d1))"


section \<open>What a client reads in the fragments\<close>

text \<open>The fields of a fragment, at the offsets a client reads them.\<close>

definition frag_index :: "u8 list \<Rightarrow> nat" where "frag_index f = unat (f ! 0x07)"
definition frag_payload :: "u8 list \<Rightarrow> u8 list" where
  "frag_payload f = take (unat (f ! 0x0C)) (drop 0x0E f)"
definition frag_checksum_ok :: "u8 list \<Rightarrow> bool" where
  "frag_checksum_ok f \<longleftrightarrow> of_le16 (f ! 0x09) (f ! 0x08) = fold_sum (fragment_sum f)"

lemma length_overwrite_in: "k + length bs \<le> length xs \<Longrightarrow> length (overwrite k bs xs) = length xs"
  by simp

lemma nth_overwrite:
  "\<lbrakk>k + length bs \<le> length xs; i < length xs\<rbrakk> \<Longrightarrow>
    overwrite k bs xs ! i = (if k \<le> i \<and> i < k + length bs then bs ! (i - k) else xs ! i)"
  by (auto simp: overwrite_def nth_append min_def)

lemma drop_overwrite: "k + length bs \<le> length xs \<Longrightarrow> take (length bs) (drop k (overwrite k bs xs)) = bs"
  by (simp add: overwrite_def)

lemma fragment_sum_cong:
  assumes "\<And>i. 0x0A \<le> i \<Longrightarrow> i < 0x70 \<Longrightarrow> f ! i = g ! i"
  shows "fragment_sum f = fragment_sum g"
  unfolding fragment_sum_def
proof (rule fold_cong)
  fix i assume "i \<in> set (map (\<lambda>k. 0x0A + 2 * k) [0..<51])"
  then have "0x0A \<le> i" "i + 1 < 0x70" by auto
  then show "(\<lambda>s. s + unat (f ! i) * 256 + unat (f ! (i + 1))) = (\<lambda>s. s + unat (g ! i) * 256 + unat (g ! (i + 1)))"
    using assms [of i] assms [of "i + 1"] by simp
qed simp_all

lemma length_checksum [simp]: "length (Wifi_DlPlayFragmentChecksum f) = length f"
  by (simp add: Wifi_DlPlayFragmentChecksum_def Let_def)

lemma checksum_nth: "i \<noteq> 0x08 \<Longrightarrow> i \<noteq> 0x09 \<Longrightarrow> Wifi_DlPlayFragmentChecksum f ! i = f ! i"
  by (simp add: Wifi_DlPlayFragmentChecksum_def Let_def)

lemma checksum_drop: "10 \<le> k \<Longrightarrow> drop k (Wifi_DlPlayFragmentChecksum f) = drop k f"
  by (simp add: Wifi_DlPlayFragmentChecksum_def Let_def)

lemma checksum_ok:
  assumes "length f = 0x70"
  shows "frag_checksum_ok (Wifi_DlPlayFragmentChecksum f)"
proof -
  have "fragment_sum (Wifi_DlPlayFragmentChecksum f) = fragment_sum f"
    by (rule fragment_sum_cong) (simp add: checksum_nth)
  moreover have "of_le16 (ucast c) (ucast (drop_bit 8 c)) = c" for c :: u16
    using of_le16_le16 [of c] by (simp add: le16_def)
  ultimately show ?thesis
    using assms by (simp add: frag_checksum_ok_def Wifi_DlPlayFragmentChecksum_def Let_def)
qed

lemma length_WriteString [simp]: "length (Wifi_DlPlayWriteString src n k) = 2 * k"
  by (simp add: Wifi_DlPlayWriteString_def length_concat o_def sum_list_triv)

lemma length_fixed_field [simp]: "length (fixed_field n x) = n"
  by (auto simp: fixed_field_def split: option.split)

lemma length_game_info [simp]:
  "length (build_game_info pd palette bitmap hname t desc n) = DLPLAY_GAME_INFO_SIZE"
  by (simp add: build_game_info_def Let_def dlplay_sizes)

lemma fixed_fragment_fields:
  assumes gi: "length gi = DLPLAY_GAME_INFO_SIZE" and i: "i < 9"
  shows "length (fixed_fragment seq gi i) = 0x70" "frag_index (fixed_fragment seq gi i) = i"
    "fixed_fragment seq gi i ! 0x05 = seq" "fixed_fragment seq gi i ! 0x0B = 9"
    "frag_payload (fixed_fragment seq gi i) = take 98 (drop (i * 98) gi)"
    "frag_checksum_ok (fixed_fragment seq gi i)"
proof -
  define len where "len = (if i * 98 \<ge> 856 then 0 else if i * 98 + 98 > 856 then 856 - i * 98 else (98 :: nat))"
  define base :: "u8 list" where "base = (replicate 0x70 0)[0x07 := of_nat i, 0x05 := seq, 0x0B := 9,
      0x0A := of_nat i, 0x0C := of_nat len]"
  define data where "data = take len (drop (i * 98) gi)"
  have len: "0 < len" "len \<le> 98" "i * 98 + len \<le> 856" using i by (auto simp: len_def)
  have dl: "length data = len" using len gi by (auto simp: dlplay_sizes data_def)
  have lb: "length base = 0x70" by (simp add: base_def)
  have fit: "0x0E + length data \<le> length base" using len dl lb by simp
  have f: "fixed_fragment seq gi i = Wifi_DlPlayFragmentChecksum (overwrite 0x0E data base)"
    by (simp add: fixed_fragment_def Let_def dlplay_sizes data_def base_def len_def)
  have n: "overwrite 0x0E data base ! k = base ! k" if "k < 0x0E" for k
    using that fit lb by (simp add: nth_overwrite)
  have nth: "fixed_fragment seq gi i ! k = base ! k" if "k < 0x0E" "k \<noteq> 8" "k \<noteq> 9" for k
    using that by (simp add: f checksum_nth n)
  show "length (fixed_fragment seq gi i) = 0x70" using fit lb by (simp add: f)
  show "frag_index (fixed_fragment seq gi i) = i" "fixed_fragment seq gi i ! 0x05 = seq"
    "fixed_fragment seq gi i ! 0x0B = 9"
    using i by (simp_all add: frag_index_def nth base_def unat_of_nat)
  have "unat (fixed_fragment seq gi i ! 0x0C) = len"
    using len by (simp add: nth base_def unat_of_nat)
  moreover have "take len (drop 0x0E (overwrite 0x0E data base)) = data"
    using drop_overwrite [OF fit] unfolding dl .
  ultimately have "frag_payload (fixed_fragment seq gi i) = data"
    unfolding frag_payload_def by (simp add: f checksum_drop)
  also have "data = take 98 (drop (i * 98) gi)"
    using gi by (auto simp: dlplay_sizes data_def len_def)
  finally show "frag_payload (fixed_fragment seq gi i) = take 98 (drop (i * 98) gi)" .
  show "frag_checksum_ok (fixed_fragment seq gi i)"
    unfolding f by (rule checksum_ok) (use fit lb in simp)
qed

text \<open>The fragments of the players do not touch those of the record.\<close>

lemma fold_update_length: "length (fold (\<lambda>v fs. fs[k + v := g v]) vs fs) = length fs"
  by (induction vs arbitrary: fs) simp_all

lemma fold_update_nth:
  "\<lbrakk>i < length fs; distinct vs\<rbrakk> \<Longrightarrow>
    fold (\<lambda>v fs. fs[k + v := g v]) vs fs ! i = (if k \<le> i \<and> i - k \<in> set vs then g (i - k) else fs ! i)"
  by (induction vs arbitrary: fs) (auto simp: nth_list_update)

lemma WriteVolatile_nth:
  assumes "i < length (dlplay_fragments b)"
  shows "dlplay_fragments (Wifi_DlPlayWriteVolatileFragments b) ! i =
    (if 9 \<le> i \<and> i < 9 + dlplay_volatile_count b then volatile_fragment b (i - 9) else dlplay_fragments b ! i)"
  using assms by (auto simp: Wifi_DlPlayWriteVolatileFragments_def dlplay_sizes fold_update_nth)

lemma volatile_fragment_table [simp]: "volatile_fragment (b\<lparr>dlplay_fragments := fs\<rparr>) v = volatile_fragment b v"
proof -
  have "write_member (b\<lparr>dlplay_fragments := fs\<rparr>) v = write_member b v"
    by (auto simp: fun_eq_iff write_member_def Let_def)
  then show ?thesis by (simp add: volatile_fragment_def)
qed

lemma WriteVolatile_fields [simp]:
  "volatile_fragment (Wifi_DlPlayWriteVolatileFragments b) v = volatile_fragment b v"
  "dlplay_player_mask (Wifi_DlPlayWriteVolatileFragments b) = dlplay_player_mask b"
  "dlplay_members (Wifi_DlPlayWriteVolatileFragments b) = dlplay_members b"
  "dlplay_user_volat (Wifi_DlPlayWriteVolatileFragments b) = dlplay_user_volat b"
  "dlplay_fragment_count (Wifi_DlPlayWriteVolatileFragments b) = dlplay_fragment_count b"
  "dlplay_volatile_count (Wifi_DlPlayWriteVolatileFragments b) = dlplay_volatile_count b"
  "dlplay_player_sequence (Wifi_DlPlayWriteVolatileFragments b) = dlplay_player_sequence b"
  by (simp_all add: Wifi_DlPlayWriteVolatileFragments_def)

lemma WriteVolatile_length [simp]:
  "length (dlplay_fragments (Wifi_DlPlayWriteVolatileFragments b)) = length (dlplay_fragments b)"
  by (simp add: Wifi_DlPlayWriteVolatileFragments_def fold_update_length)

lemma SetInfo_fragments:
  assumes "Wifi_DlPlayBeaconSetInfo pd data info n b d = Some (ok, b', d')"
  shows "\<exists>gi. length gi = DLPLAY_GAME_INFO_SIZE \<and> dlplay_game_info b' = gi
    \<and> (\<forall>i < 9. dlplay_fragments b' ! i = fixed_fragment (dlplay_seq_fixed b + 1) gi i)
    \<and> length (dlplay_fragments b') = 13 \<and> dlplay_seq_fixed b' = dlplay_seq_fixed b + 1
    \<and> dlplay_volatile_count b' = DLPLAY_VOLATILE_FRAGMENT_COUNT n
    \<and> dlplay_fragment_count b' = 9 + DLPLAY_VOLATILE_FRAGMENT_COUNT n
    \<and> (ok, d') = Wifi_DlPlayBeaconPublish b' d
    \<and> (\<forall>v < DLPLAY_VOLATILE_FRAGMENT_COUNT n. 9 + v < 13 \<longrightarrow> dlplay_fragments b' ! (9 + v) = volatile_fragment b' v)
    \<and> dlplay_player_mask b' = dlplay_player_mask b \<and> dlplay_members b' = dlplay_members b
    \<and> dlplay_user_volat b' = dlplay_user_volat b"
proof -
  obtain palette bitmap title desc where
    b': "b' = Wifi_DlPlayWriteVolatileFragments
      (b\<lparr>dlplay_game_info := build_game_info pd palette bitmap (host_name info) title desc n,
         dlplay_volatile_count := DLPLAY_VOLATILE_FRAGMENT_COUNT n,
         dlplay_fragment_count := 9 + DLPLAY_VOLATILE_FRAGMENT_COUNT n,
         dlplay_seq_fixed := dlplay_seq_fixed b + 1,
         dlplay_fragments := map (fixed_fragment (dlplay_seq_fixed b + 1)
             (build_game_info pd palette bitmap (host_name info) title desc n)) [0..<9]
           @ replicate 4 (replicate 0x70 0)\<rparr>)"
    "(ok, d') = Wifi_DlPlayBeaconPublish b' d"
    using assms unfolding Wifi_DlPlayBeaconSetInfo_def Let_def
    by (auto simp: dlplay_sizes DSWIFI_BEACON_MAX_FRAGMENTS_def split: option.splits prod.splits)
  let ?b1 = "b\<lparr>dlplay_game_info := build_game_info pd palette bitmap (host_name info) title desc n,
         dlplay_volatile_count := DLPLAY_VOLATILE_FRAGMENT_COUNT n,
         dlplay_fragment_count := 9 + DLPLAY_VOLATILE_FRAGMENT_COUNT n,
         dlplay_seq_fixed := dlplay_seq_fixed b + 1,
         dlplay_fragments := map (fixed_fragment (dlplay_seq_fixed b + 1)
             (build_game_info pd palette bitmap (host_name info) title desc n)) [0..<9]
           @ replicate 4 (replicate 0x70 0)\<rparr>"
  have "dlplay_fragments b' ! i = fixed_fragment (dlplay_seq_fixed b + 1)
      (build_game_info pd palette bitmap (host_name info) title desc n) i" if "i < 9" for i
    unfolding b'(1) using that WriteVolatile_nth [of i ?b1] by (simp add: nth_append)
  moreover have "dlplay_fragments b' ! (9 + v) = volatile_fragment b' v"
    if "v < DLPLAY_VOLATILE_FRAGMENT_COUNT n" "9 + v < 13" for v
    unfolding b'(1) using that WriteVolatile_nth [of "9 + v" ?b1] by simp
  ultimately show ?thesis
    using b'(2) by (intro exI [of _ "build_game_info pd palette bitmap (host_name info) title desc n"])
      (simp add: b'(1), simp add: Wifi_DlPlayWriteVolatileFragments_def)
qed


section \<open>The players in the fragments\<close>

lemma overwrite_snoc:
  assumes "k + length xs + length ys \<le> length f"
  shows "overwrite (k + length xs) ys (overwrite k xs f) = overwrite k (xs @ ys) f"
proof -
  have "take (k + length xs) (overwrite k xs f) = take k f @ xs"
    using assms by (simp add: overwrite_def)
  moreover have "drop (k + length xs + length ys) (overwrite k xs f) = drop (k + length (xs @ ys)) f"
    using assms by (simp add: overwrite_def ac_simps)
  ultimately show ?thesis by (simp add: overwrite_def [of "k + length xs"] overwrite_def [of k "xs @ ys"])
qed

lemma length_WriteMember [simp]: "length (Wifi_DlPlayWriteMember aid m) = 22"
  by (simp add: Wifi_DlPlayWriteMember_def Let_def dlplay_sizes)

lemma concat_length: "(\<And>x. length (f x) = n) \<Longrightarrow> length (concat (map f xs)) = n * length xs"
  by (induction xs) simp_all

text \<open>The record of player \<open>aid\<close>, and the players present among \<open>aids\<close>.\<close>

definition member_record :: "dl_beacon \<Rightarrow> nat \<Rightarrow> u8 list" where
  "member_record b aid = Wifi_DlPlayWriteMember aid (dlplay_members b ! aid)"

definition present :: "dl_beacon \<Rightarrow> nat list \<Rightarrow> nat list" where
  "present b aids = filter (\<lambda>aid. bit (dlplay_player_mask b) aid) aids"

lemma length_member_record [simp]: "length (member_record b aid) = 22"
  by (simp add: member_record_def)

lemma write_members:
  assumes "length f = 0x70"
  shows "fold (write_member b v) aids (0, f) =
    (length (present b aids), overwrite 0x10 (concat (map (member_record b) (take 4 (drop (v * 4) (present b aids))))) f)"
proof (induction aids rule: rev_induct)
  case Nil
  then show ?case by (simp add: present_def overwrite_def)
next
  case (snoc aid aids)
  let ?P = "present b aids" and ?rec = "member_record b"
  let ?Q = "take 4 (drop (v * 4) ?P)"
  show ?case
  proof (cases "bit (dlplay_player_mask b) aid")
    case False
    then have "dlplay_player_mask b AND BIT16 aid = 0" using mask_test_iff by blast
    with False snoc show ?thesis by (simp add: write_member_def present_def)
  next
    case True
    then have bit: "dlplay_player_mask b AND BIT16 aid \<noteq> 0" by (simp add: mask_test_iff)
    have P: "present b (aids @ [aid]) = ?P @ [aid]" using True by (simp add: present_def)
    consider "length ?P < v * 4" | "v * 4 \<le> length ?P" "length ?P < v * 4 + 4" | "v * 4 + 4 \<le> length ?P"
      by linarith
    then show ?thesis
    proof cases
      case 1
      with bit snoc show ?thesis
        by (simp add: write_member_def DLPLAY_MEMBERS_PER_FRAGMENT_def P Let_def)
    next
      case 2
      then have Q: "take 4 (drop (v * 4) (?P @ [aid])) = ?Q @ [aid]" "length ?Q = length ?P - v * 4" by simp_all
      have len: "length (concat (map ?rec ?Q)) = 22 * (length ?P - v * 4)"
        using concat_length [of ?rec 22 ?Q] Q(2) by simp
      have s: "int (length ?P) - int (v * 4) = int (length ?P - v * 4)" using 2 by simp
      have fit: "0x10 + length (concat (map ?rec ?Q)) + length (?rec aid) \<le> length f"
        unfolding len using 2 assms by simp
      have pos: "0x10 + (length ?P - v * 4) * 22 = 0x10 + length (concat (map ?rec ?Q))" by (simp add: len)
      have "overwrite (0x10 + (length ?P - v * 4) * 22) (?rec aid) (overwrite 0x10 (concat (map ?rec ?Q)) f)
          = overwrite 0x10 (concat (map ?rec (?Q @ [aid]))) f"
        unfolding pos using overwrite_snoc [OF fit] by simp
      moreover have "fold (write_member b v) (aids @ [aid]) (0, f) = write_member b v aid
          (length ?P, overwrite 0x10 (concat (map ?rec ?Q)) f)"
        by (simp add: snoc)
      moreover have "write_member b v aid (length ?P, g) = (length ?P + 1, overwrite (0x10 + (length ?P - v * 4) * 22) (?rec aid) g)" for g
        using 2 bit by (simp add: write_member_def DLPLAY_MEMBERS_PER_FRAGMENT_def DLPLAY_MEMBER_SIZE_def Let_def
          member_record_def s nat_diff_distrib nat_mult_distrib)
      ultimately show ?thesis by (simp only: P Q(1) length_append list.size) simp
    next
      case 3
      with bit snoc show ?thesis
        by (simp add: write_member_def DLPLAY_MEMBERS_PER_FRAGMENT_def P Let_def)
    qed
  qed
qed

text \<open>The slots of a fragment, at the offsets a client reads them; those numbered zero are empty.\<close>

definition slot_player :: "u8 list \<Rightarrow> nat" where "slot_player s = unat (drop_bit 4 (s ! 0))"
definition frag_slots :: "u8 list \<Rightarrow> u8 list list" where
  "frag_slots f = filter (\<lambda>s. slot_player s \<noteq> 0) (map (\<lambda>k. take 22 (drop (0x10 + 22 * k) f)) [0..<4])"

lemma slot_player_record:
  assumes "aid < 16" shows "slot_player (member_record b aid) = aid"
proof -
  have small: "\<forall>aid \<in> set [0..<16]. \<forall>n \<in> set [4..<8]. \<not> bit (of_nat aid :: u8) n" by code_simp
  have m: "\<forall>n \<in> set [0..<4]. \<not> bit (0x0F :: u8) (n + 4)" by code_simp
  have "drop_bit 4 ((c AND 0x0F) OR push_bit 4 (of_nat aid)) = (of_nat aid :: u8)" for c :: u8
  proof (rule bit_word_eqI)
    fix n assume n: "n < LENGTH(8)"
    have gen: "bit (drop_bit 4 ((c AND w) OR push_bit 4 (of_nat aid)) :: u8) n
        \<longleftrightarrow> n + 4 < 8 \<and> (bit c (n + 4) \<and> bit w (n + 4) \<or> bit (of_nat aid :: u8) n)" for w
      by (auto simp: bit_drop_bit_eq bit_or_iff bit_and_iff bit_push_bit_iff add.commute dest: bit_imp_le_length)
    note gen [of "0x0F"]
    moreover have "n + 4 < 8 \<Longrightarrow> \<not> bit (0x0F :: u8) (n + 4)" using bspec [OF m, of n] by fastforce
    moreover have "\<not> n + 4 < 8 \<Longrightarrow> \<not> bit (of_nat aid :: u8) n"
      using bspec [OF bspec [OF small], of aid n] assms n by fastforce
    ultimately show "bit (drop_bit 4 ((c AND 0x0F) OR push_bit 4 (of_nat aid)) :: u8) n = bit (of_nat aid :: u8) n"
      by blast
  qed
  then show ?thesis using assms
    by (simp add: slot_player_def member_record_def Wifi_DlPlayWriteMember_def Let_def unat_of_nat)
qed

text \<open>The place of the list in a fragment.\<close>

lemma slots_of_list:
  assumes "length f = 0x70" "drop 0x10 (take 0x68 f) = replicate 88 0"
    and "length Q \<le> 4" "\<forall>aid \<in> set Q. 0 < aid \<and> aid < 16"
  shows "frag_slots (overwrite 0x10 (concat (map (member_record b) Q)) f) = map (member_record b) Q"
proof -
  let ?rec = "member_record b" and ?g = "overwrite 0x10 (concat (map (member_record b) Q)) f"
  have len: "length (concat (map ?rec Q)) = 22 * length Q" by (rule concat_length) simp
  have slot: "take 22 (drop (0x10 + 22 * k) ?g) = (if k < length Q then ?rec (Q ! k) else replicate 22 0)" if "k < 4" for k
  proof (cases "k < length Q")
    case True
    then have "Q = take k Q @ Q ! k # drop (Suc k) Q" by (rule id_take_nth_drop)
    then have c: "concat (map ?rec Q) = concat (map ?rec (take k Q)) @ ?rec (Q ! k) @ concat (map ?rec (drop (Suc k) Q))"
      by (metis concat.simps(2) concat_append list.simps(9) map_append)
    have l: "length (concat (map ?rec (take k Q))) = 22 * k" using True concat_length [of ?rec 22 "take k Q"] by simp
    have "drop (0x10 + 22 * k) ?g = drop (22 * k) (concat (map ?rec Q) @ drop (0x10 + 22 * length Q) f)"
      using assms(1) by (simp add: overwrite_def len)
    then show ?thesis using True l by (simp add: c)
  next
    case False
    have "drop (0x10 + 22 * k) ?g = drop (22 * (k - length Q)) (drop (0x10 + 22 * length Q) f)"
      using assms(1) False by (simp add: overwrite_def len add.commute right_diff_distrib' del: drop_drop)
    also have "\<dots> = drop (0x10 + 22 * k) f" using False by (simp add: algebra_simps)
    finally have "take 22 (drop (0x10 + 22 * k) ?g) = take 22 (drop (22 * k) (drop 0x10 (take 0x68 f)))"
      using that assms(1) by (simp add: drop_take add.commute)
    also have "\<dots> = replicate 22 0" using that by (simp add: assms(2))
    finally show ?thesis using False by simp
  qed
  have "map (\<lambda>k. take 22 (drop (0x10 + 22 * k) ?g)) [0..<4] = map ?rec Q @ replicate (4 - length Q) (replicate 22 0)"
    by (rule nth_equalityI) (use assms(3) slot in \<open>auto simp: nth_append\<close>)
  moreover have "filter (\<lambda>s. slot_player s \<noteq> 0) (map ?rec Q) = map ?rec Q"
    using assms(4) by (auto simp: slot_player_record intro!: filter_True)
  moreover have "slot_player (replicate 22 0) = 0" by (simp add: slot_player_def)
  ultimately show ?thesis by (simp add: frag_slots_def)
qed

lemma volatile_slots:
  "frag_slots (volatile_fragment b v) = map (member_record b) (take 4 (drop (v * 4) (present b [1..<16])))"
proof -
  let ?Q = "take 4 (drop (v * 4) (present b [1..<16]))"
  define f0 :: "u8 list" where "f0 = (replicate DLPLAY_FRAGMENT_SIZE 0)
            [0x07 := of_nat (DLPLAY_FIXED_FRAGMENT_COUNT + v), 0x05 := dlplay_seq_fixed b,
             0x0B := of_nat DLPLAY_FIXED_FRAGMENT_COUNT, 0x04 := 2, 0x06 := dlplay_player_sequence b,
             0x0A := of_nat (player_count (dlplay_player_mask b)),
             0x0C := le16 (dlplay_player_mask b) ! 0, 0x0D := le16 (dlplay_player_mask b) ! 1,
             0x0E := le16 (dlplay_player_changed b) ! 0, 0x0F := le16 (dlplay_player_changed b) ! 1]"
  define g where "g = overwrite 0x10 (concat (map (member_record b) ?Q)) f0"
  have f0: "length f0 = 0x70" "drop 0x10 (take 0x68 f0) = replicate 88 0"
    by (simp_all add: f0_def dlplay_sizes drop_take)
  have f: "volatile_fragment b v = Wifi_DlPlayFragmentChecksum (overwrite 0x68 (dlplay_user_volat b) g)"
    unfolding volatile_fragment_def Let_def f0_def [symmetric] write_members [OF f0(1)] snd_conv g_def ..
  have gl: "length g = 0x70"
  proof -
    have "length (concat (map (member_record b) ?Q)) \<le> 88" using concat_length [of "member_record b" 22 ?Q] by simp
    then show ?thesis by (simp add: g_def f0(1))
  qed
  have t: "take 22 (drop (0x10 + 22 * k) (volatile_fragment b v)) = take 22 (drop (0x10 + 22 * k) g)" if "k < 4" for k
    using that gl by (simp add: f checksum_drop overwrite_def drop_take)
  have "frag_slots (volatile_fragment b v) = frag_slots g"
    unfolding frag_slots_def by (rule arg_cong [of _ _ "filter _"], rule map_cong) (simp_all add: t)
  also have "\<dots> = map (member_record b) ?Q"
    unfolding g_def by (rule slots_of_list [OF f0]) (auto simp: present_def dest!: in_set_takeD in_set_dropD)
  finally show ?thesis .
qed

lemma length_volatile_fragment:
  assumes "length (dlplay_user_volat b) = 8"
  shows "length (volatile_fragment b v) = 0x70"
proof -
  have "length (snd (fold (write_member b v) [1..<16] (0, f))) = 0x70" if "length f = 0x70" for f
  proof -
    have "length (concat (map (member_record b) (take 4 (drop (v * 4) (present b [1..<16]))))) \<le> 88"
      using concat_length [of "member_record b" 22] by simp
    then show ?thesis by (simp add: write_members [OF that] that)
  qed
  then show ?thesis
    using assms by (simp add: volatile_fragment_def Let_def DLPLAY_FRAGMENT_SIZE_def)
qed

text \<open>Publishing the fragments of a table that is complete.\<close>

lemma Publish_stored:
  assumes "fragment_table d" and c: "c = dlplay_fragment_count b" "1 \<le> c" "c \<le> 13"
    and long: "\<forall>i<c. length (dlplay_fragments b ! i) = 112"
    and "Wifi_DlPlayBeaconPublish b d = (ok, d')"
  shows "ok" "\<forall>i<c. beaconFragments d' ! i = dlplay_fragments b ! i"
    "unat (beaconFragmentCount d') = c" "unat (beaconFragmentSize d') = 112"
    "beaconFragmentGeneration d' = beaconFragmentGeneration d + 1" "fragment_table d'"
proof -
  have pub: "Wifi_BeaconSetExtraDataFragments (dlplay_fragments b) 112 (int c) d = (ok, d')"
    using assms(6) c(1) by (simp add: Wifi_DlPlayBeaconPublish_def DLPLAY_FRAGMENT_SIZE_def)
  have c': "1 \<le> int c" "int c \<le> 13" using c by simp_all
  show ok using SetExtraDataFragments_iff [of "dlplay_fragments b" 112 "int c" d] c' by (simp add: pub)
  have "\<forall>i < nat (int c). 112 \<le> length (dlplay_fragments b ! i)" using long by simp
  note st = SetExtraDataFragments_stored [OF assms(1) c' _ _ this, unfolded pub snd_conv, simplified]
  show "unat (beaconFragmentCount d') = c" "unat (beaconFragmentSize d') = 112"
    "beaconFragmentGeneration d' = beaconFragmentGeneration d + 1" "fragment_table d'"
    using st by simp_all
  have "length (beaconFragments d' ! i) = 112" if "i < c" for i
    using st(5) that c by (simp add: fragment_table_def)
  with st(1) long show "\<forall>i<c. beaconFragments d' ! i = dlplay_fragments b ! i" by simp
qed

lemma SetInfo_published:
  assumes "Wifi_DlPlayBeaconSetInfo pd data info n b d = Some (ok, b', d')" and "n \<le> 15" "fragment_table d"
    and "length (dlplay_user_volat b) = 8"
  shows "ok" "\<forall>i<9. beaconFragments d' ! i = fixed_fragment (dlplay_seq_fixed b + 1) (dlplay_game_info b') i"
    "\<forall>v < DLPLAY_VOLATILE_FRAGMENT_COUNT n. beaconFragments d' ! (9 + v) = volatile_fragment b' v"
    "unat (beaconFragmentCount d') = 9 + DLPLAY_VOLATILE_FRAGMENT_COUNT n"
    "beaconFragmentGeneration d' = beaconFragmentGeneration d + 1"
    "length (dlplay_game_info b') = DLPLAY_GAME_INFO_SIZE"
proof -
  let ?v = "DLPLAY_VOLATILE_FRAGMENT_COUNT n"
  obtain gi where gi: "length gi = DLPLAY_GAME_INFO_SIZE" "dlplay_game_info b' = gi"
    "\<forall>i<9. dlplay_fragments b' ! i = fixed_fragment (dlplay_seq_fixed b + 1) gi i"
    "dlplay_fragment_count b' = 9 + ?v" "(ok, d') = Wifi_DlPlayBeaconPublish b' d"
    "\<forall>v < ?v. 9 + v < 13 \<longrightarrow> dlplay_fragments b' ! (9 + v) = volatile_fragment b' v"
    "dlplay_user_volat b' = dlplay_user_volat b"
    using SetInfo_fragments [OF assms(1)] by blast
  have v: "?v \<le> 4"
    using assms(2) by (auto simp: DLPLAY_VOLATILE_FRAGMENT_COUNT_def DLPLAY_MEMBERS_PER_FRAGMENT_def)
  have long: "length (dlplay_fragments b' ! i) = 112" if "i < 9 + ?v" for i
  proof (cases "i < 9")
    case True
    with gi(3) fixed_fragment_fields(1) [OF gi(1) True] show ?thesis by simp
  next
    case False
    then have "i = 9 + (i - 9)" "i - 9 < ?v" "9 + (i - 9) < 13" using that v by simp_all
    with gi(6) length_volatile_fragment [of b' "i - 9"] gi(7) assms(4) show ?thesis by metis
  qed
  have b: "1 \<le> 9 + ?v" "9 + ?v \<le> 13" using v by simp_all
  have "\<forall>i < 9 + ?v. length (dlplay_fragments b' ! i) = 112" using long by blast
  note p = Publish_stored [OF assms(3) gi(4) [symmetric] b this gi(5) [symmetric]]
  show ok "unat (beaconFragmentCount d') = 9 + ?v" "beaconFragmentGeneration d' = beaconFragmentGeneration d + 1"
    by (rule p)+
  show "length (dlplay_game_info b') = DLPLAY_GAME_INFO_SIZE" using gi(1,2) by simp
  show "\<forall>i<9. beaconFragments d' ! i = fixed_fragment (dlplay_seq_fixed b + 1) (dlplay_game_info b') i"
    using p(2) gi(2,3) by simp
  show "\<forall>v < ?v. beaconFragments d' ! (9 + v) = volatile_fragment b' v"
    using p(2) gi(6) v by simp
qed

text \<open>
  C11. What a host announces can be put back together: after the record is set, the table the ARM7
  cycles through starts with nine fragments numbered from 0, each with the total, the number of
  the record and a checksum a client accepts, and the pieces they carry, in order, are the whole
  record; behind them come the fragments that describe the room, and the table is a new one.
\<close>

theorem announced_record_reassembles:
  assumes "Wifi_DlPlayBeaconSetInfo pd data info n b d = Some (ok, b', d')" and "n \<le> 15" "fragment_table d"
    and "length (dlplay_user_volat b) = 8"
  shows "ok \<and> concat (map (\<lambda>i. frag_payload (beaconFragments d' ! i)) [0..<9]) = dlplay_game_info b'
    \<and> (\<forall>i<9. frag_index (beaconFragments d' ! i) = i \<and> beaconFragments d' ! i ! 0x0B = 9
         \<and> beaconFragments d' ! i ! 0x05 = dlplay_seq_fixed b + 1 \<and> frag_checksum_ok (beaconFragments d' ! i))
    \<and> unat (beaconFragmentCount d') = 9 + DLPLAY_VOLATILE_FRAGMENT_COUNT n
    \<and> beaconFragmentGeneration d' = beaconFragmentGeneration d + 1"
proof -
  note p = SetInfo_published [OF assms]
  note ff = fixed_fragment_fields [OF p(6)]
  have "map (\<lambda>i. frag_payload (beaconFragments d' ! i)) [0..<9]
      = map (\<lambda>k. take 98 (drop (k * 98) (dlplay_game_info b'))) [0..<9]"
    by (rule map_cong) (use p(2) ff(5) in auto)
  then have "concat (map (\<lambda>i. frag_payload (beaconFragments d' ! i)) [0..<9]) = take (9 * 98) (dlplay_game_info b')"
    by (simp only: concat_chunks)
  then have "concat (map (\<lambda>i. frag_payload (beaconFragments d' ! i)) [0..<9]) = dlplay_game_info b'"
    using p(6) by (simp add: DLPLAY_GAME_INFO_SIZE_def)
  then show ?thesis using p(1,2,4,5) ff by simp
qed

text \<open>A host with nobody in its room.\<close>

definition empty_beacon :: dl_beacon where
  "empty_beacon = Wifi_DlPlayBeaconResetPlayers \<lparr>dlplay_game_info = replicate 0x358 0,
     dlplay_fragments = replicate 13 (replicate 0x70 0), dlplay_fragment_count = 10, dlplay_volatile_count = 1,
     dlplay_seq_fixed = 0, dlplay_player_mask = BIT16 0, dlplay_player_changed = 0, dlplay_player_sequence = 0,
     dlplay_members = replicate 16 no_member, dlplay_user_volat = replicate 8 0\<rparr>"

lemma cleared_fragment_table: "fragment_table cleared"
  by (simp add: fragment_table_def cleared_def)

lemma SetInfo_small_rom:
  "\<exists>r. Wifi_DlPlayBeaconSetInfo \<lparr>pd_name = [65], pd_theme = 3\<rparr> (replicate 0x160 0)
     \<lparr>icon_bitmap = None, icon_palette = None, host_name = None, dl_title = None, dl_description = None\<rparr> 3 b d = Some r"
  by (simp add: Wifi_DlPlayBeaconSetInfo_def banner_of_def NDS_HDR_BANNER_OFFSET_def Wifi_DlPlayRead32_def of_le32_def
      Let_def split: prod.split)

lemma announced_record_reassembles_witness:
  "\<exists>ok b' d'. Wifi_DlPlayBeaconSetInfo \<lparr>pd_name = [65], pd_theme = 3\<rparr> (replicate 0x160 0)
     \<lparr>icon_bitmap = None, icon_palette = None, host_name = None, dl_title = None, dl_description = None\<rparr> 3
     empty_beacon cleared = Some (ok, b', d')
    \<and> concat (map (\<lambda>i. frag_payload (beaconFragments d' ! i)) [0..<9]) = dlplay_game_info b'"
proof -
  obtain ok b' d' where s: "Wifi_DlPlayBeaconSetInfo \<lparr>pd_name = [65], pd_theme = 3\<rparr> (replicate 0x160 0)
     \<lparr>icon_bitmap = None, icon_palette = None, host_name = None, dl_title = None, dl_description = None\<rparr> 3
     empty_beacon cleared = Some (ok, b', d')"
    using SetInfo_small_rom by (metis prod_cases3)
  have "length (dlplay_user_volat empty_beacon) = 8"
    by (simp add: empty_beacon_def Wifi_DlPlayBeaconResetPlayers_def)
  with announced_record_reassembles [OF s _ cleared_fragment_table] s show ?thesis by fastforce
qed

text \<open>The players a client reads in the fragments of the room.\<close>

definition announced_players :: "Wifi_MainStruct \<Rightarrow> u8 list list" where
  "announced_players d = concat (map (\<lambda>i. frag_slots (beaconFragments d ! i)) [9..<unat (beaconFragmentCount d)])"

lemma volatile_players:
  "concat (map (\<lambda>v. frag_slots (volatile_fragment b v)) [0..<m])
    = map (member_record b) (take (m * 4) (present b [1..<16]))"
proof -
  have "concat (map (\<lambda>v. frag_slots (volatile_fragment b v)) [0..<m])
      = concat (map (\<lambda>v. map (member_record b) (take 4 (drop (v * 4) (present b [1..<16])))) [0..<m])"
    by (simp add: volatile_slots)
  also have "\<dots> = map (member_record b) (concat (map (\<lambda>v. take 4 (drop (v * 4) (present b [1..<16]))) [0..<m]))"
    by (simp add: map_concat o_def)
  also have "\<dots> = map (member_record b) (take (m * 4) (present b [1..<16]))"
    by (simp only: concat_chunks)
  finally show ?thesis .
qed

text \<open>The table of a room described by \<open>m\<close> fragments, as a successful start leaves it.\<close>

definition room_ok :: "nat \<Rightarrow> dl_beacon \<Rightarrow> bool" where
  "room_ok m b \<longleftrightarrow> 1 \<le> m \<and> m \<le> 4 \<and> dlplay_volatile_count b = m \<and> dlplay_fragment_count b = 9 + m
     \<and> length (dlplay_fragments b) = 13 \<and> (\<forall>f \<in> set (dlplay_fragments b). length f = 112)
     \<and> length (dlplay_user_volat b) = 8
     \<and> length (dlplay_members b) = 16"

lemma Write_published:
  assumes "room_ok m b" "fragment_table d"
    and "Wifi_DlPlayBeaconPublish (Wifi_DlPlayWriteVolatileFragments b) d = (ok, d')"
  shows "ok" "\<forall>i<9. beaconFragments d' ! i = dlplay_fragments b ! i"
    "announced_players d' = map (member_record b) (take (m * 4) (present b [1..<16]))"
    "beaconFragmentGeneration d' = beaconFragmentGeneration d + 1"
    "room_ok m (Wifi_DlPlayWriteVolatileFragments b)"
proof -
  let ?w = "Wifi_DlPlayWriteVolatileFragments b"
  have m: "1 \<le> m" "m \<le> 4" "dlplay_volatile_count b = m" "dlplay_fragment_count b = 9 + m"
    "length (dlplay_fragments b) = 13" "length (dlplay_user_volat b) = 8"
    "length (dlplay_members b) = 16"
    and all: "\<And>i. i < 13 \<Longrightarrow> length (dlplay_fragments b ! i) = 112"
    using assms(1) by (auto simp: room_ok_def)
  have nth: "dlplay_fragments ?w ! i = (if 9 \<le> i \<and> i < 9 + m then volatile_fragment b (i - 9) else dlplay_fragments b ! i)"
    if "i < 13" for i
    using that m WriteVolatile_nth [of i b] by simp
  have len: "length (dlplay_fragments ?w ! i) = 112" if "i < 13" for i
    using that m(6) all nth length_volatile_fragment [of b "i - 9"] by simp
  have c: "1 \<le> 9 + m" "9 + m \<le> 13" "9 + m = dlplay_fragment_count ?w" using m by simp_all
  have "\<forall>i < 9 + m. length (dlplay_fragments ?w ! i) = 112" using len c by simp
  note p = Publish_stored [OF assms(2) c(3,1,2) this assms(3)]
  show ok "beaconFragmentGeneration d' = beaconFragmentGeneration d + 1" by (rule p)+
  show "\<forall>i<9. beaconFragments d' ! i = dlplay_fragments b ! i" using p(2) nth by simp
  have "map (\<lambda>i. frag_slots (beaconFragments d' ! i)) [9..<9 + m] = map (\<lambda>v. frag_slots (volatile_fragment b v)) [0..<m]"
    by (rule nth_equalityI) (use p(2) nth c in auto)
  then show "announced_players d' = map (member_record b) (take (m * 4) (present b [1..<16]))"
    by (simp add: announced_players_def p(3) volatile_players)
  show "room_ok m ?w"
    using m len by (auto simp: room_ok_def in_set_conv_nth)
qed

text \<open>
  C12. Announcing the players: if nobody came, left or changed name or colour nothing at all is
  done, so that the cycle of fragments is not restarted; otherwise the sequence number and the
  table change once, the mask of what changed is the difference, the fragments of the record stay,
  and a client that reads the others finds every player but the host exactly once, in order, up to
  the size of the room.
\<close>

theorem SetPlayers_announces:
  assumes "room_ok m b" "fragment_table d"
    and "Wifi_DlPlayBeaconSetPlayers room members b d = (b', d')"
  shows "if players_changed b (room OR BIT16 0) members then
      dlplay_player_sequence b' = dlplay_player_sequence b + 1
      \<and> dlplay_player_mask b' = room OR BIT16 0
      \<and> dlplay_player_changed b' = (room OR BIT16 0) XOR dlplay_player_mask b
      \<and> beaconFragmentGeneration d' = beaconFragmentGeneration d + 1
      \<and> (\<forall>i<9. beaconFragments d' ! i = dlplay_fragments b ! i)
      \<and> announced_players d' = map (\<lambda>aid. Wifi_DlPlayWriteMember aid (members ! aid))
          (take (m * 4) (filter (\<lambda>aid. bit room aid) [1..<16]))
      \<and> room_ok m b'
    else b' = b \<and> d' = d"
proof (cases "players_changed b (room OR BIT16 0) members")
  case True
  let ?b = "b\<lparr>dlplay_player_changed := (room OR BIT16 0) XOR dlplay_player_mask b, dlplay_player_mask := room OR BIT16 0,
      dlplay_player_sequence := dlplay_player_sequence b + 1,
      dlplay_members := take 1 (dlplay_members b) @ map (\<lambda>aid. members ! aid) [1..<16]\<rparr>"
  obtain ok where e: "b' = Wifi_DlPlayWriteVolatileFragments ?b" "Wifi_DlPlayBeaconPublish b' d = (ok, d')"
    using assms(3) True by (cases "Wifi_DlPlayBeaconPublish b' d") (auto simp: Wifi_DlPlayBeaconSetPlayers_def Let_def)
  have "room_ok m ?b" using assms(1) by (simp add: room_ok_def min_def)
  note w = Write_published [OF this assms(2) e(2) [unfolded e(1)]]
  have "present ?b [1..<16] = filter (\<lambda>aid. bit room aid) [1..<16]"
    unfolding present_def by (rule filter_cong) auto
  moreover have "member_record ?b aid = Wifi_DlPlayWriteMember aid (members ! aid)"
    if "aid \<in> set (take (m * 4) (filter (\<lambda>aid. bit room aid) [1..<16]))" for aid
  proof -
    have "1 \<le> aid" "aid < 16" using in_set_takeD [OF that] by auto
    moreover have "length (take 1 (dlplay_members b)) = 1" using assms(1) by (simp add: room_ok_def)
    ultimately show ?thesis by (simp add: member_record_def nth_append)
  qed
  ultimately have "announced_players d' = map (\<lambda>aid. Wifi_DlPlayWriteMember aid (members ! aid))
      (take (m * 4) (filter (\<lambda>aid. bit room aid) [1..<16]))"
    unfolding w(3) by (metis (no_types, lifting) map_cong)
  moreover have "dlplay_player_changed b' = (room OR BIT16 0) XOR dlplay_player_mask b"
    by (simp add: e(1) Wifi_DlPlayWriteVolatileFragments_def)
  ultimately show ?thesis
    using True w(2,4,5) by (simp add: e(1))
next
  case False
  with assms(3) show ?thesis by (simp add: Wifi_DlPlayBeaconSetPlayers_def Let_def)
qed

lemma SetPlayers_announces_witness:
  "\<exists>b' d'. Wifi_DlPlayBeaconSetPlayers 6 (replicate 16 no_member) empty_beacon cleared = (b', d')
    \<and> announced_players d' = [Wifi_DlPlayWriteMember 1 no_member, Wifi_DlPlayWriteMember 2 no_member]"
proof -
  obtain b' d' where c: "Wifi_DlPlayBeaconSetPlayers 6 (replicate 16 no_member) empty_beacon cleared = (b', d')"
    by fastforce
  have "room_ok 1 empty_beacon"
    by (simp add: room_ok_def empty_beacon_def Wifi_DlPlayBeaconResetPlayers_def)
  note p = SetPlayers_announces [OF this cleared_fragment_table c]
  have "players_changed empty_beacon (6 OR BIT16 0) (replicate 16 no_member)"
    by (simp add: players_changed_def empty_beacon_def Wifi_DlPlayBeaconResetPlayers_def BIT16_def)
  moreover have "filter (\<lambda>aid. bit (6 :: u16) aid) [1..<16] = [1, 2]"
    by code_simp
  ultimately have "announced_players d' = map (\<lambda>aid. Wifi_DlPlayWriteMember aid (replicate 16 no_member ! aid)) (take (1 * 4) [1, 2])"
    using p by presburger
  with c show ?thesis by simp
qed

end
