(* ===== verification/Dlplay_State.thy ===== *)
theory Dlplay_State
  imports Dlplay_Beacon Mp_Packets
begin

text \<open>
  What a Download Play host keeps (source/arm9/ntr/dlplay/protocol.c): one record for each client,
  indexed by its association ID, the stream of blocks the clients share, and the static variables
  of the file. The functions of the application that provide the content of a Download Station are
  fields of the state; its handler for messages is a log of what it is given. Counters of frames
  are natural numbers.
\<close>

section \<open>Stages and states\<close>

datatype Wifi_DlPlayPState =
    DLPLAY_PSTATE_NONE | DLPLAY_PSTATE_CONNECTED | DLPLAY_PSTATE_REQ_ACCEPTED | DLPLAY_PSTATE_WAIT_TO_SEND
  | DLPLAY_PSTATE_SEND_PROCEED | DLPLAY_PSTATE_SEND_COMPLETE | DLPLAY_PSTATE_BOOT_REQUEST
  | DLPLAY_PSTATE_SESSION_END | DLPLAY_PSTATE_STATION | DLPLAY_PSTATE_APP

datatype Wifi_DlPlayState =
    WIFI_DLPLAY_IDLE | WIFI_DLPLAY_CONNECTING | WIFI_DLPLAY_VERIFYING | WIFI_DLPLAY_SENDING
  | WIFI_DLPLAY_BOOTING | WIFI_DLPLAY_STATION | WIFI_DLPLAY_ERROR

datatype Wifi_DlPlaySState =
    DLPLAY_SSTATE_IDLE | DLPLAY_SSTATE_SEND_DELAY | DLPLAY_SSTATE_DATA | DLPLAY_SSTATE_DONE

datatype Wifi_DlPlayBootMode = WIFI_DLPLAY_BOOT_AUTOMATIC | WIFI_DLPLAY_BOOT_MANUAL

datatype Wifi_DlPlayDropReason =
    WIFI_DLPLAY_DROP_NOT_REPLY | WIFI_DLPLAY_DROP_INACTIVE | WIFI_DLPLAY_DROP_BAD_AID
  | WIFI_DLPLAY_DROP_BAD_LEN | WIFI_DLPLAY_DROP_UNKNOWN_OPCODE

datatype Wifi_DlPlayReplyKind =
    WIFI_DLPLAY_REPLY_DUMMY | WIFI_DLPLAY_REPLY_FILEREQ | WIFI_DLPLAY_REPLY_ACCEPT_FILEINFO
  | WIFI_DLPLAY_REPLY_CONTINUE | WIFI_DLPLAY_REPLY_STOPREQ | WIFI_DLPLAY_REPLY_BOOTREQ_ACCEPTED

datatype Wifi_DlPlayGaveUpReason = WIFI_DLPLAY_GAVE_UP_SILENT | WIFI_DLPLAY_GAVE_UP_STALLED

text \<open>The states are compared by their position in the enumeration.\<close>

instantiation Wifi_DlPlayState :: linorder
begin

fun state_rank :: "Wifi_DlPlayState \<Rightarrow> nat" where
  "state_rank WIFI_DLPLAY_IDLE = 0"
| "state_rank WIFI_DLPLAY_CONNECTING = 1"
| "state_rank WIFI_DLPLAY_VERIFYING = 2"
| "state_rank WIFI_DLPLAY_SENDING = 3"
| "state_rank WIFI_DLPLAY_BOOTING = 4"
| "state_rank WIFI_DLPLAY_STATION = 5"
| "state_rank WIFI_DLPLAY_ERROR = 6"

definition less_eq_Wifi_DlPlayState :: "Wifi_DlPlayState \<Rightarrow> Wifi_DlPlayState \<Rightarrow> bool" where
  "less_eq_Wifi_DlPlayState a b \<longleftrightarrow> state_rank a \<le> state_rank b"

definition less_Wifi_DlPlayState :: "Wifi_DlPlayState \<Rightarrow> Wifi_DlPlayState \<Rightarrow> bool" where
  "less_Wifi_DlPlayState a b \<longleftrightarrow> state_rank a < state_rank b"

instance
proof
  fix a b :: Wifi_DlPlayState
  show "a \<le> b \<Longrightarrow> b \<le> a \<Longrightarrow> a = b"
    by (cases a; cases b) (simp_all add: less_eq_Wifi_DlPlayState_def)
qed (auto simp: less_eq_Wifi_DlPlayState_def less_Wifi_DlPlayState_def)

end

section \<open>Records\<close>

record Wifi_DlPlayClientRequest =
  rq_valid :: bool
  rq_game_id :: u32
  rq_version :: u16
  rq_file_id :: u8
  rq_favorite_color :: u8
  rq_player_no :: u8
  rq_name_len :: u8
  rq_name :: "u16 list"
  rq_blocks_received :: u16
  rq_is_station :: bool

record Wifi_DlPlayStationClient =
  st_state :: Wifi_DlPlaySState
  st_pending :: bool
  st_pending_name :: "u8 list"
  st_pending_stream :: u16
  st_handle :: u32
  st_size :: nat
  st_port :: nat
  st_stream :: u16
  st_chunk :: nat
  st_index :: u16
  st_ended :: bool
  st_wait :: nat
  st_seq :: "u16 list"

record Wifi_DlPlayClient =
  stage :: Wifi_DlPlayPState
  wait_count :: nat
  idle_count :: nat
  req_buffer :: "u8 list"
  req_mask :: u8
  request :: Wifi_DlPlayClientRequest
  name_ascii :: "u8 list"
  next_block :: nat
  boot_accepted :: nat
  boot_requested :: bool
  station :: Wifi_DlPlayStationClient

record Wifi_DlPlayDiag =
  dg_drops :: "Wifi_DlPlayDropReason \<Rightarrow> u16"
  dg_replies_handled :: u16
  dg_replies :: "Wifi_DlPlayReplyKind \<Rightarrow> u16"
  dg_request_pieces :: u8
  dg_block_requested :: u16
  dg_blocks_received :: u16
  dg_cmd_tx_failures :: u16
  dg_capture :: "u8 list list"
  dg_capture_next :: nat
  dg_capture_total :: u16
  dg_last_cmd :: "u8 list"
  dg_last_cmd_len :: u16
  dg_station_frames :: u16
  dg_station_port :: u8
  dg_station_last :: "u8 list"
  dg_station_name :: "u8 list"
  dg_station_stream :: u16
  dg_station_aid :: u8
  dg_station_port_used :: u8
  dg_station_bad_stream :: u8
  dg_station_not_found :: u8
  dg_station_size :: u32
  dg_station_chunks :: u16
  dg_station_read_failures :: u8
  dg_station_last_index :: u16
  dg_station_last_chunk_len :: u8
  dg_station_last_is_final :: u8
  dg_station_end_sent :: u8
  dg_gave_up :: "Wifi_DlPlayGaveUpReason \<Rightarrow> u8"
  dg_gave_up_last_aid :: u8

text \<open>
  The arrays of captured bytes are the bytes that are valid in them, so their lengths are not
  fields of their own.
\<close>

record dlplay =
  shared :: Wifi_MainStruct
  announced :: dl_beacon
  dlplay_state :: Wifi_DlPlayState
  dlplay_rom :: Wifi_DlPlayRom
  dlplay_active :: bool
  dlplay_beacon_started :: bool
  dlplay_clients :: "Wifi_DlPlayClient list"
  dlplay_block :: nat
  dlplay_next_block :: nat
  dlplay_block_requested :: bool
  dlplay_rotate :: u8
  dlplay_cmd_data_size :: nat
  dlplay_block_size :: nat
  dlplay_max_clients :: nat
  dlplay_user_param :: "u8 list option"
  dlplay_room_locked :: bool
  dlplay_room_full :: bool
  dlplay_boot_mode :: Wifi_DlPlayBootMode
  dlplay_gather :: bool
  dlplay_small_frame :: bool
  dlplay_per_update :: nat
  dlplay_ahead :: nat
  dlplay_app_handler :: bool
  dlplay_app_in :: "(nat \<times> u8 list) list"
  dlplay_app_out :: "u8 list"
  dlplay_app_out_pending :: bool
  dlplay_station_open :: "(u8 list \<Rightarrow> (nat \<times> u32) option) option"
  dlplay_station_read :: "(u32 \<Rightarrow> nat \<Rightarrow> nat \<Rightarrow> u8 list option) option"
  dlplay_bulk_turn :: nat
  dlplay_packnum :: u8
  dlplay_cmd :: "u8 list"
  dlplay_cmd_size :: nat
  dlplay_diag :: Wifi_DlPlayDiag
  dlplay_stream_code :: "u16 option"
  dlplay_handler_set :: bool

section \<open>How everything starts\<close>

definition no_request :: Wifi_DlPlayClientRequest where
  "no_request = \<lparr>rq_valid = False, rq_game_id = 0, rq_version = 0, rq_file_id = 0, rq_favorite_color = 0,
     rq_player_no = 0, rq_name_len = 0, rq_name = replicate 10 0, rq_blocks_received = 0, rq_is_station = False\<rparr>"

definition no_station :: Wifi_DlPlayStationClient where
  "no_station = \<lparr>st_state = DLPLAY_SSTATE_IDLE, st_pending = False, st_pending_name = replicate 8 0,
     st_pending_stream = 0, st_handle = 0, st_size = 0, st_port = 0, st_stream = 0, st_chunk = 0, st_index = 0,
     st_ended = False, st_wait = 0, st_seq = replicate 16 0\<rparr>"

definition blank_client :: Wifi_DlPlayClient where
  "blank_client = \<lparr>stage = DLPLAY_PSTATE_NONE, wait_count = 0, idle_count = 0, req_buffer = replicate 30 0,
     req_mask = 0, request = no_request, name_ascii = [], next_block = 0, boot_accepted = 0,
     boot_requested = False, station = no_station\<rparr>"

definition no_diag :: Wifi_DlPlayDiag where
  "no_diag = \<lparr>dg_drops = (\<lambda>_. 0), dg_replies_handled = 0, dg_replies = (\<lambda>_. 0), dg_request_pieces = 0,
     dg_block_requested = 0, dg_blocks_received = 0, dg_cmd_tx_failures = 0, dg_capture = replicate 4 [],
     dg_capture_next = 0, dg_capture_total = 0, dg_last_cmd = [], dg_last_cmd_len = 0, dg_station_frames = 0,
     dg_station_port = 0, dg_station_last = [], dg_station_name = replicate 8 0, dg_station_stream = 0,
     dg_station_aid = 0, dg_station_port_used = 0, dg_station_bad_stream = 0, dg_station_not_found = 0,
     dg_station_size = 0, dg_station_chunks = 0, dg_station_read_failures = 0, dg_station_last_index = 0,
     dg_station_last_chunk_len = 0, dg_station_last_is_final = 0, dg_station_end_sent = 0,
     dg_gave_up = (\<lambda>_. 0), dg_gave_up_last_aid = 0\<rparr>"

text \<open>The initial values of the static variables.\<close>

definition dlplay_start :: "Wifi_MainStruct \<Rightarrow> dl_beacon \<Rightarrow> dlplay" where
  "dlplay_start d b = \<lparr>shared = d, announced = b, dlplay_state = WIFI_DLPLAY_IDLE,
     dlplay_rom = \<lparr>rom = [], segment = [], total_blocks = 0, rsa = None\<rparr>, dlplay_active = False,
     dlplay_beacon_started = False, dlplay_clients = replicate 16 blank_client, dlplay_block = 0,
     dlplay_next_block = 0, dlplay_block_requested = False, dlplay_rotate = 0, dlplay_cmd_data_size = 0x1FE,
     dlplay_block_size = 504, dlplay_max_clients = 1, dlplay_user_param = None, dlplay_room_locked = False,
     dlplay_room_full = False, dlplay_boot_mode = WIFI_DLPLAY_BOOT_AUTOMATIC, dlplay_gather = False,
     dlplay_small_frame = False, dlplay_per_update = 4, dlplay_ahead = 6, dlplay_app_handler = False,
     dlplay_app_in = [], dlplay_app_out = [], dlplay_app_out_pending = False, dlplay_station_open = None,
     dlplay_station_read = None, dlplay_bulk_turn = 0, dlplay_packnum = 0, dlplay_cmd = replicate 514 0,
     dlplay_cmd_size = 0, dlplay_diag = no_diag, dlplay_stream_code = None, dlplay_handler_set = False\<rparr>"

section \<open>Clients\<close>

definition upd_diag :: "(Wifi_DlPlayDiag \<Rightarrow> Wifi_DlPlayDiag) \<Rightarrow> dlplay \<Rightarrow> dlplay" where
  "upd_diag f s = s\<lparr>dlplay_diag := f (dlplay_diag s)\<rparr>"

definition upd_shared :: "(Wifi_MainStruct \<Rightarrow> Wifi_MainStruct) \<Rightarrow> dlplay \<Rightarrow> dlplay" where
  "upd_shared f s = s\<lparr>shared := f (shared s)\<rparr>"

abbreviation client :: "dlplay \<Rightarrow> nat \<Rightarrow> Wifi_DlPlayClient" where
  "client s aid \<equiv> dlplay_clients s ! aid"

definition upd_client :: "nat \<Rightarrow> (Wifi_DlPlayClient \<Rightarrow> Wifi_DlPlayClient) \<Rightarrow> dlplay \<Rightarrow> dlplay" where
  "upd_client aid f s = s\<lparr>dlplay_clients := (dlplay_clients s)[aid := f (client s aid)]\<rparr>"

definition aids :: "nat list" where "aids = [1..<16]"

definition Wifi_DlPlayAidValid :: "int \<Rightarrow> bool" where
  "Wifi_DlPlayAidValid aid \<longleftrightarrow> aid \<ge> 1 \<and> aid \<le> int WIFI_MAX_MULTIPLAYER_CLIENTS"

definition Wifi_DlPlayClientByAid :: "int \<Rightarrow> dlplay \<Rightarrow> Wifi_DlPlayClient option" where
  "Wifi_DlPlayClientByAid aid s = (if \<not> Wifi_DlPlayAidValid aid then None else Some (client s (nat aid)))"

definition Wifi_DlPlayFirstClient :: "dlplay \<Rightarrow> Wifi_DlPlayClient option" where
  "Wifi_DlPlayFirstClient s =
     map_option (client s) (find (\<lambda>aid. stage (client s aid) \<noteq> DLPLAY_PSTATE_NONE) aids)"

definition Wifi_DlPlayClientIsStation :: "Wifi_DlPlayClient \<Rightarrow> bool" where
  "Wifi_DlPlayClientIsStation c \<longleftrightarrow> rq_valid (request c) \<and> rq_is_station (request c)"

fun Wifi_DlPlayStateOfStage :: "Wifi_DlPlayPState \<Rightarrow> Wifi_DlPlayState" where
  "Wifi_DlPlayStateOfStage DLPLAY_PSTATE_CONNECTED = WIFI_DLPLAY_CONNECTING"
| "Wifi_DlPlayStateOfStage DLPLAY_PSTATE_REQ_ACCEPTED = WIFI_DLPLAY_VERIFYING"
| "Wifi_DlPlayStateOfStage DLPLAY_PSTATE_WAIT_TO_SEND = WIFI_DLPLAY_VERIFYING"
| "Wifi_DlPlayStateOfStage DLPLAY_PSTATE_SEND_PROCEED = WIFI_DLPLAY_SENDING"
| "Wifi_DlPlayStateOfStage DLPLAY_PSTATE_SEND_COMPLETE = WIFI_DLPLAY_BOOTING"
| "Wifi_DlPlayStateOfStage DLPLAY_PSTATE_BOOT_REQUEST = WIFI_DLPLAY_BOOTING"
| "Wifi_DlPlayStateOfStage DLPLAY_PSTATE_SESSION_END = WIFI_DLPLAY_BOOTING"
| "Wifi_DlPlayStateOfStage DLPLAY_PSTATE_STATION = WIFI_DLPLAY_STATION"
| "Wifi_DlPlayStateOfStage _ = WIFI_DLPLAY_IDLE"

definition Wifi_DlPlayUpdateSummaryState :: "dlplay \<Rightarrow> dlplay" where
  "Wifi_DlPlayUpdateSummaryState s =
     s\<lparr>dlplay_state := fold (\<lambda>aid summary. let st = Wifi_DlPlayStateOfStage (stage (client s aid))
                               in if st > summary then st else summary) aids WIFI_DLPLAY_IDLE\<rparr>"

definition Wifi_DlPlaySetClientStage :: "nat \<Rightarrow> Wifi_DlPlayPState \<Rightarrow> dlplay \<Rightarrow> dlplay" where
  "Wifi_DlPlaySetClientStage aid st s =
     Wifi_DlPlayUpdateSummaryState (upd_client aid (\<lambda>c. c\<lparr>stage := st, wait_count := 0\<rparr>) s)"

definition Wifi_DlPlayResetOneClient :: "nat \<Rightarrow> dlplay \<Rightarrow> dlplay" where
  "Wifi_DlPlayResetOneClient aid = upd_client aid (\<lambda>_. blank_client)"

definition Wifi_DlPlayResetClient :: "dlplay \<Rightarrow> dlplay" where
  "Wifi_DlPlayResetClient s =
     upd_diag (\<lambda>g. g\<lparr>dg_request_pieces := 0, dg_block_requested := 0, dg_blocks_received := 0\<rparr>)
       ((fold Wifi_DlPlayResetOneClient aids s)\<lparr>dlplay_block := 0, dlplay_next_block := 0,
          dlplay_block_requested := False, dlplay_bulk_turn := 0\<rparr>)"

section \<open>Lemmas\<close>

lemma set_aids [simp]: "set aids = {1..<16}"
  by (simp add: aids_def)

lemma upd_diag_sel [simp]:
  "shared (upd_diag f s) = shared s" "dlplay_clients (upd_diag f s) = dlplay_clients s"
  "dlplay_rom (upd_diag f s) = dlplay_rom s" "dlplay_state (upd_diag f s) = dlplay_state s"
  "dlplay_block (upd_diag f s) = dlplay_block s" "dlplay_gather (upd_diag f s) = dlplay_gather s"
  "dlplay_boot_mode (upd_diag f s) = dlplay_boot_mode s" "dlplay_packnum (upd_diag f s) = dlplay_packnum s"
  "dlplay_cmd (upd_diag f s) = dlplay_cmd s" "dlplay_cmd_size (upd_diag f s) = dlplay_cmd_size s"
  "dlplay_block_size (upd_diag f s) = dlplay_block_size s" "dlplay_active (upd_diag f s) = dlplay_active s"
  "dlplay_ahead (upd_diag f s) = dlplay_ahead s" "dlplay_per_update (upd_diag f s) = dlplay_per_update s"
  "dlplay_station_open (upd_diag f s) = dlplay_station_open s" "dlplay_station_read (upd_diag f s) = dlplay_station_read s"
  "announced (upd_diag f s) = announced s"
  by (simp_all add: upd_diag_def)

lemma upd_client_sel [simp]:
  "length (dlplay_clients (upd_client aid f s)) = length (dlplay_clients s)"
  "shared (upd_client aid f s) = shared s" "dlplay_rom (upd_client aid f s) = dlplay_rom s"
  "dlplay_gather (upd_client aid f s) = dlplay_gather s" "dlplay_boot_mode (upd_client aid f s) = dlplay_boot_mode s"
  "dlplay_station_open (upd_client aid f s) = dlplay_station_open s"
  "dlplay_station_read (upd_client aid f s) = dlplay_station_read s"
  "announced (upd_client aid f s) = announced s" "dlplay_active (upd_client aid f s) = dlplay_active s"
  by (simp_all add: upd_client_def)

lemma client_upd_client:
  "client (upd_client aid f s) k = (if k = aid \<and> aid < length (dlplay_clients s) then f (client s aid) else client s k)"
  by (cases "aid < length (dlplay_clients s)") (auto simp: upd_client_def nth_list_update list_update_beyond)

lemma Summary_sel [simp]:
  "dlplay_clients (Wifi_DlPlayUpdateSummaryState s) = dlplay_clients s"
  "shared (Wifi_DlPlayUpdateSummaryState s) = shared s" "dlplay_rom (Wifi_DlPlayUpdateSummaryState s) = dlplay_rom s"
  "dlplay_gather (Wifi_DlPlayUpdateSummaryState s) = dlplay_gather s"
  "dlplay_boot_mode (Wifi_DlPlayUpdateSummaryState s) = dlplay_boot_mode s"
  "dlplay_active (Wifi_DlPlayUpdateSummaryState s) = dlplay_active s"
  by (simp_all add: Wifi_DlPlayUpdateSummaryState_def)

lemma client_SetClientStage:
  "client (Wifi_DlPlaySetClientStage aid st s) k =
    (if k = aid \<and> aid < length (dlplay_clients s) then (client s aid)\<lparr>stage := st, wait_count := 0\<rparr> else client s k)"
  by (simp add: Wifi_DlPlaySetClientStage_def client_upd_client)

lemma SetClientStage_sel [simp]:
  "length (dlplay_clients (Wifi_DlPlaySetClientStage aid st s)) = length (dlplay_clients s)"
  "shared (Wifi_DlPlaySetClientStage aid st s) = shared s"
  "dlplay_gather (Wifi_DlPlaySetClientStage aid st s) = dlplay_gather s"
  "dlplay_boot_mode (Wifi_DlPlaySetClientStage aid st s) = dlplay_boot_mode s"
  "dlplay_active (Wifi_DlPlaySetClientStage aid st s) = dlplay_active s"
  by (simp_all add: Wifi_DlPlaySetClientStage_def)

end
