(* ===== verification/Dlplay_Frames.thy ===== *)
theory Dlplay_Frames
  imports Dlplay_State
begin

text \<open>
  The messages of a Download Play host to its clients (source/arm9/ntr/dlplay/protocol.c): the
  frame buffer, its header and its footer, and one function for each message. The pointer
  \<open>Wifi_DlPlayCmdStart\<close> returns is always the third byte of the buffer, so it is a flag here:
  \<^const>\<open>False\<close> is the null pointer. \<open>put\<close> is a store through it.
\<close>

section \<open>Constants\<close>

definition DLPLAY_CMD_DATA_SIZE :: nat where "DLPLAY_CMD_DATA_SIZE = 0x1FE"
definition DLPLAY_CMD_FRAME_SIZE :: nat where "DLPLAY_CMD_FRAME_SIZE = 514"
definition DLPLAY_FLAGS_HAS_FOOTER :: u8 where "DLPLAY_FLAGS_HAS_FOOTER = 0x10"
definition DLPLAY_FLAGS_PORT :: "u8 \<Rightarrow> u8" where "DLPLAY_FLAGS_PORT p = p OR DLPLAY_FLAGS_HAS_FOOTER"
definition DLPLAY_FLAGS_NORMAL :: u8 where "DLPLAY_FLAGS_NORMAL = 0x11"
definition DLPLAY_CMD_SIZE_SHORT :: nat where "DLPLAY_CMD_SIZE_SHORT = 6"
definition DLPLAY_CMD_SIZE_BOOT_INFO :: nat where "DLPLAY_CMD_SIZE_BOOT_INFO = 0xEA"
definition DLPLAY_CMD_OP_SENDSTART :: u8 where "DLPLAY_CMD_OP_SENDSTART = 0x01"
definition DLPLAY_CMD_OP_DL_FILEINFO :: u8 where "DLPLAY_CMD_OP_DL_FILEINFO = 0x03"
definition DLPLAY_CMD_OP_DATA :: u8 where "DLPLAY_CMD_OP_DATA = 0x04"
definition DLPLAY_CMD_OP_BOOTREQ :: u8 where "DLPLAY_CMD_OP_BOOTREQ = 0x05"
definition DLPLAY_CMD_OP_APP :: u8 where "DLPLAY_CMD_OP_APP = 0x40"
definition DLPLAY_HEADER_DEST :: u32 where "DLPLAY_HEADER_DEST = 0x027FFE00"
definition DLPLAY_ARM7_STAGING_DEST :: u32 where "DLPLAY_ARM7_STAGING_DEST = 0x022C0000"
definition NDS_HDR_ARM9_ENTRY :: nat where "NDS_HDR_ARM9_ENTRY = 0x24"
definition NDS_HDR_ARM9_RAM_ADDRESS :: nat where "NDS_HDR_ARM9_RAM_ADDRESS = 0x28"
definition NDS_HDR_ARM7_ENTRY :: nat where "NDS_HDR_ARM7_ENTRY = 0x34"
definition NDS_HDR_ARM7_RAM_ADDRESS :: nat where "NDS_HDR_ARM7_RAM_ADDRESS = 0x38"
definition DSWIFI_DLPLAY_CAPTURE_BYTES :: nat where "DSWIFI_DLPLAY_CAPTURE_BYTES = 16"

lemmas cmd_sizes = DLPLAY_CMD_FRAME_SIZE_def DLPLAY_CMD_SIZE_SHORT_def DLPLAY_CMD_SIZE_BOOT_INFO_def

section \<open>The frame buffer\<close>

definition Wifi_DlPlayCmdStart :: "u8 \<Rightarrow> nat \<Rightarrow> u16 \<Rightarrow> dlplay \<Rightarrow> bool \<times> dlplay" where
  "Wifi_DlPlayCmdStart header payload_size dest s =
     (let s = s\<lparr>dlplay_cmd := replicate DLPLAY_CMD_FRAME_SIZE 0\<rparr>;
          has_footer = (header AND DLPLAY_FLAGS_HAS_FOOTER \<noteq> 0);
          needed = 2 + payload_size + (if has_footer then 2 else 0)
      in if needed > DLPLAY_CMD_FRAME_SIZE then (False, s\<lparr>dlplay_cmd_size := 0\<rparr>)
         else
           let s = s\<lparr>dlplay_cmd := (dlplay_cmd s)[0 := of_nat (payload_size div 2), 1 := header],
                     dlplay_cmd_size := 2 + payload_size\<rparr>
           in if has_footer then
                let clients = dest AND Wifi_MultiplayerGetClientMask (shared s) AND NOT 1
                in (True, s\<lparr>dlplay_cmd := (dlplay_cmd s)[2 + payload_size := ucast clients,
                              3 + payload_size := ucast (drop_bit 8 clients)],
                            dlplay_cmd_size := dlplay_cmd_size s + 2\<rparr>)
              else (True, s))"

definition put :: "nat \<Rightarrow> u8 list \<Rightarrow> dlplay \<Rightarrow> dlplay" where
  "put k bs s = s\<lparr>dlplay_cmd := overwrite (2 + k) bs (dlplay_cmd s)\<rparr>"

definition Wifi_DlPlayWrite32 :: "nat \<Rightarrow> u32 \<Rightarrow> dlplay \<Rightarrow> dlplay" where
  "Wifi_DlPlayWrite32 k v = put k (le32 v)"

definition Wifi_DlPlayCopyHeaderField :: "nat \<Rightarrow> u8 list \<Rightarrow> nat \<Rightarrow> dlplay \<Rightarrow> dlplay" where
  "Wifi_DlPlayCopyHeaderField k header offset = put k (take 4 (drop offset header))"

text \<open>\<^const>\<open>False\<close> when the frame could not be queued.\<close>

definition Wifi_DlPlayCmdSend :: "dlplay \<Rightarrow> bool \<times> dlplay" where
  "Wifi_DlPlayCmdSend s =
     (let kept = min (dlplay_cmd_size s) DSWIFI_DLPLAY_CAPTURE_BYTES;
          s = upd_diag (\<lambda>g. g\<lparr>dg_last_cmd := take kept (dlplay_cmd s), dg_last_cmd_len := of_nat (dlplay_cmd_size s)\<rparr>) s
      in case Wifi_MultiplayerHostCmdTxFrame (take (dlplay_cmd_size s) (dlplay_cmd s)) (shared s) of
           (ok, d) \<Rightarrow>
             let s = s\<lparr>shared := d\<rparr> in
             if ok then (True, s)
             else (False, upd_diag (\<lambda>g. g\<lparr>dg_cmd_tx_failures := dg_cmd_tx_failures g + 1\<rparr>) s))"

section \<open>Messages\<close>

definition Wifi_DlPlaySendStart :: "u16 \<Rightarrow> dlplay \<Rightarrow> dlplay" where
  "Wifi_DlPlaySendStart dest s =
     (case Wifi_DlPlayCmdStart DLPLAY_FLAGS_NORMAL DLPLAY_CMD_SIZE_SHORT dest s of
        (False, s) \<Rightarrow> s
      | (True, s) \<Rightarrow> snd (Wifi_DlPlayCmdSend (put 0 [DLPLAY_CMD_OP_SENDSTART] s)))"

definition Wifi_DlPlaySendDummy :: "dlplay \<Rightarrow> dlplay" where
  "Wifi_DlPlaySendDummy s =
     (case Wifi_DlPlayCmdStart DLPLAY_FLAGS_NORMAL DLPLAY_CMD_SIZE_SHORT 0xFFFF s of
        (False, s) \<Rightarrow> s
      | (True, s) \<Rightarrow> snd (Wifi_DlPlayCmdSend s))"

definition Wifi_DlPlaySendFileInfo :: "u16 \<Rightarrow> dlplay \<Rightarrow> dlplay" where
  "Wifi_DlPlaySendFileInfo dest s =
     (case Wifi_DlPlayCmdStart DLPLAY_FLAGS_NORMAL DLPLAY_CMD_SIZE_BOOT_INFO dest s of
        (False, s) \<Rightarrow> s
      | (True, s) \<Rightarrow>
          let hdr = rom (dlplay_rom s);
              s = put 0x00 [DLPLAY_CMD_OP_DL_FILEINFO] s;
              s = Wifi_DlPlayCopyHeaderField 0x01 hdr NDS_HDR_ARM9_ENTRY s;
              s = Wifi_DlPlayCopyHeaderField 0x05 hdr NDS_HDR_ARM7_ENTRY s;
              s = Wifi_DlPlayWrite32 0x0D DLPLAY_HEADER_DEST s;
              s = Wifi_DlPlayWrite32 0x11 DLPLAY_HEADER_DEST s;
              s = Wifi_DlPlayWrite32 0x15 (of_nat NDS_HDR_SIZE) s;
              s = Wifi_DlPlayCopyHeaderField 0x1D hdr NDS_HDR_ARM9_RAM_ADDRESS s;
              s = Wifi_DlPlayCopyHeaderField 0x21 hdr NDS_HDR_ARM9_RAM_ADDRESS s;
              s = Wifi_DlPlayCopyHeaderField 0x25 hdr NDS_HDR_ARM9_SIZE s;
              s = Wifi_DlPlayWrite32 0x2D DLPLAY_ARM7_STAGING_DEST s;
              s = Wifi_DlPlayCopyHeaderField 0x31 hdr NDS_HDR_ARM7_RAM_ADDRESS s;
              s = Wifi_DlPlayCopyHeaderField 0x35 hdr NDS_HDR_ARM7_SIZE s;
              s = Wifi_DlPlayWrite32 0x39 1 s;
              s = put 0x3D (rom_rsa (dlplay_rom s)) s;
              s = (case dlplay_user_param s of None \<Rightarrow> s | Some param \<Rightarrow> put 0xC5 param s);
              s = (put 0xE5 [dlplay_packnum s] s)\<lparr>dlplay_packnum := dlplay_packnum s + 1\<rparr>
          in snd (Wifi_DlPlayCmdSend s))"

definition Wifi_DlPlaySendBlock :: "int \<Rightarrow> u16 \<Rightarrow> u8 \<Rightarrow> dlplay \<Rightarrow> bool \<times> dlplay" where
  "Wifi_DlPlaySendBlock block dest file_id s =
     (case Wifi_DlPlayRomGetBlock (dlplay_block_size s) (dlplay_rom s) block of
        None \<Rightarrow> (False, Wifi_DlPlaySendDummy s)
      | Some data \<Rightarrow>
          let payload_size = 5 + length data + 1 in
          case Wifi_DlPlayCmdStart DLPLAY_FLAGS_NORMAL payload_size dest s of
            (False, s) \<Rightarrow> (False, s)
          | (True, s) \<Rightarrow>
              let s = put 0 [DLPLAY_CMD_OP_DATA] s;
                  s = put 1 [file_id] s;
                  s = put 2 [0] s;
                  s = put 3 (le16 (of_int block)) s;
                  s = put 5 data s;
                  s = (put (5 + length data) [dlplay_packnum s] s)\<lparr>dlplay_packnum := dlplay_packnum s + 1\<rparr>
              in Wifi_DlPlayCmdSend s)"

definition Wifi_DlPlaySendBootReq :: "u16 \<Rightarrow> dlplay \<Rightarrow> dlplay" where
  "Wifi_DlPlaySendBootReq dest s =
     (case Wifi_DlPlayCmdStart DLPLAY_FLAGS_NORMAL DLPLAY_CMD_SIZE_SHORT dest s of
        (False, s) \<Rightarrow> s
      | (True, s) \<Rightarrow> snd (Wifi_DlPlayCmdSend (put 0 [DLPLAY_CMD_OP_BOOTREQ] s)))"

definition Wifi_DlPlaySendApp :: "u16 \<Rightarrow> dlplay \<Rightarrow> dlplay" where
  "Wifi_DlPlaySendApp dest s =
     (case Wifi_DlPlayCmdStart DLPLAY_FLAGS_NORMAL (1 + length (dlplay_app_out s)) dest s of
        (False, s) \<Rightarrow> s
      | (True, s) \<Rightarrow>
          (case Wifi_DlPlayCmdSend (put 1 (dlplay_app_out s) (put 0 [DLPLAY_CMD_OP_APP] s)) of
             (ok, s) \<Rightarrow> if ok then s\<lparr>dlplay_app_out_pending := False\<rparr> else s))"

definition Wifi_DlPlaySendSessionEnd :: "dlplay \<Rightarrow> dlplay" where
  "Wifi_DlPlaySendSessionEnd s =
     (case Wifi_DlPlayCmdStart 0 0 0 s of
        (False, s) \<Rightarrow> s
      | (True, s) \<Rightarrow> snd (Wifi_DlPlayCmdSend s))"

section \<open>What ends up in the frame\<close>

text \<open>
  \<open>built h payload foot s\<close> has the frame of these three parts in its buffer; \<open>send_frame\<close>
  queues it. Every message above is \<open>send_frame\<close> with its bytes written out.
\<close>

definition built :: "u8 list \<Rightarrow> u8 list \<Rightarrow> u8 list \<Rightarrow> dlplay \<Rightarrow> dlplay" where
  "built h payload foot s =
     s\<lparr>dlplay_cmd := h @ payload @ foot @ replicate (DLPLAY_CMD_FRAME_SIZE - (length h + length payload + length foot)) 0,
       dlplay_cmd_size := length h + length payload + length foot\<rparr>"

definition send_frame :: "u8 list \<Rightarrow> u8 list \<Rightarrow> u8 list \<Rightarrow> dlplay \<Rightarrow> bool \<times> dlplay" where
  "send_frame h payload foot s = Wifi_DlPlayCmdSend (built h payload foot s)"

definition frame_head :: "u8 \<Rightarrow> nat \<Rightarrow> u8 list" where
  "frame_head header n = [of_nat (n div 2), header]"

definition client_footer :: "u16 \<Rightarrow> dlplay \<Rightarrow> u8 list" where
  "client_footer dest s = le16 (dest AND Wifi_MultiplayerGetClientMask (shared s) AND NOT 1)"

lemma built_sel [simp]:
  "dlplay_rom (built h p f s) = dlplay_rom s" "dlplay_packnum (built h p f s) = dlplay_packnum s"
  "dlplay_user_param (built h p f s) = dlplay_user_param s" "shared (built h p f s) = shared s"
  "dlplay_app_out (built h p f s) = dlplay_app_out s" "dlplay_clients (built h p f s) = dlplay_clients s"
  by (simp_all add: built_def)

lemma built_packnum [simp]: "(built h p f s)\<lparr>dlplay_packnum := n\<rparr> = built h p f (s\<lparr>dlplay_packnum := n\<rparr>)"
  by (simp add: built_def)

lemma length_head [simp]: "length (frame_head header n) = 2"
  by (simp add: frame_head_def)

lemma length_footer [simp]: "length (client_footer dest s) = 2"
  by (simp add: client_footer_def)

lemma CmdStart_footer:
  assumes "header AND DLPLAY_FLAGS_HAS_FOOTER \<noteq> 0" and "n + 4 \<le> DLPLAY_CMD_FRAME_SIZE"
  shows "Wifi_DlPlayCmdStart header n dest s =
    (True, built (frame_head header n) (replicate n 0) (client_footer dest s) s)"
proof -
  obtain k where k: "DLPLAY_CMD_FRAME_SIZE = n + 4 + k" using assms(2) le_Suc_ex by blast
  have "n + 4 + k = 2 + (n + (2 + k))" by simp
  then have "replicate (n + 4 + k) (0 :: u8) = replicate 2 0 @ replicate n 0 @ replicate 2 0 @ replicate k 0"
    by (simp only: replicate_add)
  then have r: "replicate (n + 4 + k) (0 :: u8) = 0 # 0 # replicate n 0 @ 0 # 0 # replicate k 0"
    by (simp add: numeral_2_eq_2)
  show ?thesis
    using assms(1)
    by (simp add: Wifi_DlPlayCmdStart_def built_def Let_def k r frame_head_def client_footer_def le16_def
        list_update_append)
qed

lemma CmdStart_bare: "Wifi_DlPlayCmdStart 0 0 0 s = (True, built [0, 0] [] [] s)"
proof -
  have "replicate 514 (0 :: u8) = 0 # 0 # replicate 512 0" by (simp add: numeral_eq_Suc)
  then show ?thesis by (simp add: Wifi_DlPlayCmdStart_def built_def Let_def cmd_sizes)
qed

lemma put_built:
  assumes "k + length bs \<le> length payload" and "length h = 2"
  shows "put k bs (built h payload foot s) = built h (overwrite k bs payload) foot s"
  using assms by (simp add: put_def built_def overwrite_def)

lemma NORMAL_footer: "DLPLAY_FLAGS_NORMAL AND DLPLAY_FLAGS_HAS_FOOTER \<noteq> 0"
  by (simp add: DLPLAY_FLAGS_NORMAL_def DLPLAY_FLAGS_HAS_FOOTER_def)

lemmas CmdStart_normal = CmdStart_footer [OF NORMAL_footer]

abbreviation send_normal :: "u8 list \<Rightarrow> u16 \<Rightarrow> dlplay \<Rightarrow> bool \<times> dlplay" where
  "send_normal payload dest s \<equiv>
     send_frame (frame_head DLPLAY_FLAGS_NORMAL (length payload)) payload (client_footer dest s) s"

lemma short_payload: "overwrite 0 [b] (replicate 6 0) = [b, 0, 0, 0, 0, 0]"
  by (simp add: overwrite_def numeral_eq_Suc)

lemma SendStart_eq: "Wifi_DlPlaySendStart dest s = snd (send_normal [1, 0, 0, 0, 0, 0] dest s)"
  by (simp add: Wifi_DlPlaySendStart_def CmdStart_normal cmd_sizes put_built short_payload
      DLPLAY_CMD_OP_SENDSTART_def send_frame_def) (simp add: numeral_eq_Suc)

lemma SendBootReq_eq: "Wifi_DlPlaySendBootReq dest s = snd (send_normal [5, 0, 0, 0, 0, 0] dest s)"
  by (simp add: Wifi_DlPlaySendBootReq_def CmdStart_normal cmd_sizes put_built short_payload
      DLPLAY_CMD_OP_BOOTREQ_def send_frame_def) (simp add: numeral_eq_Suc)

lemma SendDummy_eq: "Wifi_DlPlaySendDummy s = snd (send_normal [0, 0, 0, 0, 0, 0] 0xFFFF s)"
  by (simp add: Wifi_DlPlaySendDummy_def CmdStart_normal cmd_sizes send_frame_def numeral_eq_Suc)

lemma SendSessionEnd_eq: "Wifi_DlPlaySendSessionEnd s = snd (send_frame [0, 0] [] [] s)"
  by (simp add: Wifi_DlPlaySendSessionEnd_def CmdStart_bare send_frame_def)

lemma overwrite_whole: "length bs = length xs \<Longrightarrow> overwrite 0 bs xs = bs"
  by (simp add: overwrite_def)

lemma overwrite_end: "length xs = k \<Longrightarrow> length bs \<le> length ys \<Longrightarrow>
  overwrite k bs (xs @ ys) = xs @ bs @ drop (length bs) ys"
  by (simp add: overwrite_def)

lemma SendApp_eq:
  assumes "length (dlplay_app_out s) \<le> 500"
  shows "Wifi_DlPlaySendApp dest s =
    (case send_normal (0x40 # dlplay_app_out s) dest s of (ok, s') \<Rightarrow>
       if ok then s'\<lparr>dlplay_app_out_pending := False\<rparr> else s')"
  using assms
  by (simp add: Wifi_DlPlaySendApp_def CmdStart_normal cmd_sizes put_built send_frame_def
      DLPLAY_CMD_OP_APP_def overwrite_def)

lemma SendBlock_eq:
  assumes "Wifi_DlPlayRomGetBlock (dlplay_block_size s) (dlplay_rom s) block = Some data"
    and "length data \<le> 504"
  shows "Wifi_DlPlaySendBlock block dest file_id s =
    send_frame (frame_head DLPLAY_FLAGS_NORMAL (6 + length data))
      ([4, file_id, 0] @ le16 (of_int block) @ data @ [dlplay_packnum s]) (client_footer dest s)
      (s\<lparr>dlplay_packnum := dlplay_packnum s + 1\<rparr>)"
proof -
  let ?n = "length data"
  let ?b = "\<lambda>p. built (frame_head DLPLAY_FLAGS_NORMAL (6 + ?n)) p (client_footer dest s) s"
  have d: "drop ?n (0 # replicate ?n (0 :: u8)) = [0]"
    using drop_replicate [of ?n "Suc ?n" "0 :: u8"] by simp
  have r: "replicate (6 + ?n) (0 :: u8) = [0, 0, 0, 0, 0] @ replicate ?n 0 @ [0]"
    by (simp add: numeral_eq_Suc replicate_append_same)
  have "put 5 data (put 3 (le16 (of_int block)) (put 2 [0] (put 1 [file_id] (put 0 [4] (?b (replicate (6 + ?n) 0))))))
      = ?b ([4, file_id, 0] @ le16 (of_int block) @ data @ [0])"
    by (simp add: put_built r overwrite_def le16_def numeral_eq_Suc d)
  moreover have "put (5 + ?n) [dlplay_packnum s] (?b ([4, file_id, 0] @ le16 (of_int block) @ data @ [0]))
      = ?b ([4, file_id, 0] @ le16 (of_int block) @ data @ [dlplay_packnum s])"
    by (simp add: put_built overwrite_def le16_def numeral_eq_Suc)
  ultimately show ?thesis
    using assms
    by (simp add: Wifi_DlPlaySendBlock_def CmdStart_normal cmd_sizes send_frame_def Let_def
        DLPLAY_CMD_OP_DATA_def add.commute)
qed

section \<open>Sending\<close>

text \<open>The messages change the frame buffer, the transmit queue and the diagnostics, nothing else.\<close>

definition sends_only :: "dlplay \<Rightarrow> dlplay \<Rightarrow> bool" where
  "sends_only s s' \<longleftrightarrow> (\<exists>d cmd n g. s' = s\<lparr>shared := d, dlplay_cmd := cmd, dlplay_cmd_size := n, dlplay_diag := g\<rparr>
     \<and> clients d = clients (shared s) \<and> MacAddr d = MacAddr (shared s)
     \<and> curLibraryMode d = curLibraryMode (shared s))"

lemma sends_only_fields:
  assumes "sends_only s s'"
  shows "dlplay_clients s' = dlplay_clients s" "dlplay_rom s' = dlplay_rom s" "dlplay_block s' = dlplay_block s"
    "dlplay_next_block s' = dlplay_next_block s" "dlplay_packnum s' = dlplay_packnum s"
    "dlplay_block_size s' = dlplay_block_size s" "dlplay_state s' = dlplay_state s"
    "dlplay_gather s' = dlplay_gather s" "dlplay_boot_mode s' = dlplay_boot_mode s"
    "dlplay_ahead s' = dlplay_ahead s" "dlplay_per_update s' = dlplay_per_update s"
    "dlplay_station_open s' = dlplay_station_open s" "dlplay_station_read s' = dlplay_station_read s"
    "dlplay_bulk_turn s' = dlplay_bulk_turn s" "dlplay_app_out s' = dlplay_app_out s"
    "dlplay_active s' = dlplay_active s" "dlplay_rotate s' = dlplay_rotate s"
    "clients (shared s') = clients (shared s)" "MacAddr (shared s') = MacAddr (shared s)"
    "Wifi_MultiplayerGetClientMask (shared s') = Wifi_MultiplayerGetClientMask (shared s)"
  using assms by (auto simp: sends_only_def Wifi_MultiplayerGetClientMask_def)

lemma sends_only_refl: "sends_only s s"
  unfolding sends_only_def
  by (rule exI [of _ "shared s"], rule exI [of _ "dlplay_cmd s"], rule exI [of _ "dlplay_cmd_size s"],
      rule exI [of _ "dlplay_diag s"]) simp

lemma HostCmdTxFrame_keeps:
  assumes "Wifi_MultiplayerHostCmdTxFrame payload d = (ok, d')"
  shows "clients d' = clients d" "MacAddr d' = MacAddr d" "curLibraryMode d' = curLibraryMode d"
  using assms
  by (auto simp: Wifi_MultiplayerHostCmdTxFrame_def tx_queue_frame_def Let_def stat_addw_def
      split: option.splits prod.splits)

lemma CmdSend_sends_only:
  assumes "Wifi_DlPlayCmdSend s = (ok, s')"
  shows "sends_only s s'"
proof -
  obtain ok' d where c: "Wifi_MultiplayerHostCmdTxFrame (take (dlplay_cmd_size s) (dlplay_cmd s)) (shared s) = (ok', d)"
    by fastforce
  note k = HostCmdTxFrame_keeps [OF c]
  have "s' = s\<lparr>shared := d, dlplay_cmd := dlplay_cmd s, dlplay_cmd_size := dlplay_cmd_size s,
      dlplay_diag := dlplay_diag s'\<rparr>"
    using assms c by (auto simp: Wifi_DlPlayCmdSend_def Let_def upd_diag_def split: if_splits)
  with k show ?thesis unfolding sends_only_def by blast
qed

lemma send_frame_sends_only:
  assumes "send_frame h p f s = (ok, s')"
  shows "sends_only s s'"
proof -
  from CmdSend_sends_only [of "built h p f s" ok s'] assms have "sends_only (built h p f s) s'"
    by (simp add: send_frame_def)
  then show ?thesis unfolding sends_only_def by (auto simp: built_def)
qed

text \<open>A frame is refused, and then counted as a failure, or it is one command packet more.\<close>

definition host_header :: "Wifi_MainStruct \<Rightarrow> nat \<Rightarrow> u8 list" where
  "host_header d n = tx_header WIFI_TRANSFER_RATE_2MBPS (of_nat (n + 32))
     @ ieee_header 0x228 wifi_cmd_mac (MacAddr d) (MacAddr d) @ [0, 0, 0, 0]"

lemma send_frame_spec:
  assumes "tx_holds (shared s) ps" and "length h + length p + length f \<le> DLPLAY_CMD_FRAME_SIZE"
    and "send_frame h p f s = (ok, s')" and "body = h @ p @ f"
  shows "if ok then tx_accepted (shared s) (shared s') ps WFLAG_SEND_AS_CMD
             (host_header (shared s) (length body) @ body) (length body)
         else tx_refused (shared s) (shared s')
           \<and> dg_cmd_tx_failures (dlplay_diag s') = dg_cmd_tx_failures (dlplay_diag s) + 1"
proof -
  let ?b = "built h p f s"
  have t: "take (dlplay_cmd_size ?b) (dlplay_cmd ?b) = body"
    by (simp add: built_def assms(4))
  obtain ok' d where c: "Wifi_MultiplayerHostCmdTxFrame body (shared s) = (ok', d)" by fastforce
  from assms(3) c have ok: "ok = ok'" and d: "shared s' = d"
    and g: "\<not> ok' \<longrightarrow> dg_cmd_tx_failures (dlplay_diag s') = dg_cmd_tx_failures (dlplay_diag s) + 1"
    unfolding send_frame_def Wifi_DlPlayCmdSend_def Let_def
    by (auto simp: t upd_diag_def built_def assms(4) split: if_splits)
  have "length (tx_payload (HostCmdTx body)) < 0x0FFFFF00"
    using assms(2,4) by (simp add: DLPLAY_CMD_FRAME_SIZE_def)
  moreover have "tx_do (HostCmdTx body) (shared s) = (ok, d)" using c ok by simp
  ultimately show ?thesis
    using tx_do_spec [OF assms(1), of "HostCmdTx body" ok d] d g ok
    by (auto simp: host_header_def split: if_splits)
qed

section \<open>Sending the program\<close>

text \<open>
  A client looks at a block message for its number and its bytes; it drops one for another program
  (\<open>file_id\<close>). \<open>hear\<close> is a client whose hardware filled in the given duration, sequence
  number, times and mask; \<open>collect\<close> stores blocks by their number.
\<close>

definition block_of :: "u8 \<Rightarrow> u8 list \<Rightarrow> (nat \<times> u8 list) option" where
  "block_of file_id body =
     (if 10 \<le> length body \<and> body ! 2 = DLPLAY_CMD_OP_DATA \<and> body ! 3 = file_id
      then Some (unat (of_le16 (body ! 5) (body ! 6)), take (length body - 10) (drop 7 body)) else None)"

definition collect :: "u8 \<Rightarrow> u8 list \<Rightarrow> (nat \<rightharpoonup> u8 list) \<Rightarrow> (nat \<rightharpoonup> u8 list)" where
  "collect file_id body got = (case block_of file_id body of None \<Rightarrow> got | Some (k, bytes) \<Rightarrow> got(k \<mapsto> bytes))"

definition hear :: "(u16 \<times> u16 \<times> u16 \<times> u16) \<times> packet \<Rightarrow> arm9 \<Rightarrow> arm9" where
  "hear x = (case x of ((dur, seq, ct, cb), p) \<Rightarrow>
     Wifi_MultiplayerHandlePacketFromHost (cmd_fill dur seq ct cb (take (length (snd p) - 4) (snd p))))"

fun send_blocks :: "nat list \<Rightarrow> u16 \<Rightarrow> u8 \<Rightarrow> dlplay \<Rightarrow> bool \<times> dlplay" where
  "send_blocks [] dest file_id s = (True, s)"
| "send_blocks (k # ks) dest file_id s =
     (case Wifi_DlPlaySendBlock (int k) dest file_id s of
        (False, s) \<Rightarrow> (False, s) | (True, s) \<Rightarrow> send_blocks ks dest file_id s)"

definition block_body :: "nat \<Rightarrow> u8 \<Rightarrow> u8 list \<Rightarrow> u8 \<Rightarrow> u8 list \<Rightarrow> u8 list" where
  "block_body k file_id bytes packnum foot =
     [of_nat ((6 + length bytes) div 2), 0x11, 4, file_id, 0] @ le16 (of_nat k) @ bytes @ [packnum] @ foot"

lemma block_of_body:
  assumes "length foot = 2" and "k < 65536"
  shows "block_of file_id (block_body k file_id bytes packnum foot) = Some (k, bytes)"
proof -
  let ?b = "block_body k file_id bytes packnum foot"
  have body: "?b = [of_nat ((6 + length bytes) div 2), 0x11, 4, file_id, 0, le16 (of_nat k) ! 0, le16 (of_nat k) ! 1]
      @ bytes @ (packnum # foot)" by (simp add: block_body_def le16_def)
  have "unat (of_nat k :: u16) = k" using assms(2) by (simp add: unat_of_nat)
  then have num: "unat (of_le16 (?b ! 5) (?b ! 6)) = k"
    unfolding body using of_le16_le16 [of "of_nat k"] by simp
  have len: "length ?b = length bytes + 10" unfolding body using assms(1) by simp
  moreover have "take (length bytes) (drop 7 ?b) = bytes" unfolding body by simp
  moreover have "?b ! 2 = 4" "?b ! 3 = file_id" unfolding body by simp_all
  ultimately show ?thesis by (simp add: block_of_def DLPLAY_CMD_OP_DATA_def num)
qed

text \<open>The packet of a message, as it stands in the transmit queue.\<close>

definition carries_body :: "Wifi_MainStruct \<Rightarrow> u8 list \<Rightarrow> packet \<Rightarrow> bool" where
  "carries_body d body p \<longleftrightarrow> (\<exists>fcs. length fcs = 4 \<and> snd p = host_header d (length body) @ body @ fcs)"

lemma carries_body_mac: "MacAddr d' = MacAddr d \<Longrightarrow> carries_body d' = carries_body d"
  by (intro ext) (simp add: carries_body_def host_header_def)

lemma send_frame_carries:
  assumes "tx_holds (shared s) ps" and "length h + length p + length f \<le> DLPLAY_CMD_FRAME_SIZE"
    and "send_frame h p f s = (True, s')"
  shows "\<exists>pkt. tx_holds (shared s') (ps @ [pkt]) \<and> carries_body (shared s) (h @ p @ f) pkt"
proof -
  let ?body = "h @ p @ f"
  from send_frame_spec [OF assms refl] obtain fcs where "length fcs = 4" "tx_holds (shared s') (ps @
      [(of_nat (length (host_header (shared s) (length ?body) @ ?body) + 4) OR WFLAG_SEND_AS_CMD,
        (host_header (shared s) (length ?body) @ ?body) @ fcs)])" (is "tx_holds _ (ps @ [?pkt])")
    by (auto simp: tx_accepted_def)
  moreover from this have "carries_body (shared s) ?body ?pkt" by (auto simp: carries_body_def)
  ultimately show ?thesis by blast
qed

lemma hear_body:
  assumes "carries_body d body p" and "from_host_handler c" "curAp_bssid (Data c) = MacAddr d"
  shows "hear (hw, p) c = c\<lparr>from_host := from_host c @ [(WIFI_MPTYPE_CMD, body)]\<rparr>"
proof -
  from assms(1) obtain fcs where b: "length fcs = 4" "snd p = host_header d (length body) @ body @ fcs"
    by (auto simp: carries_body_def)
  obtain dur seq ct cb where hw: "hw = (dur, seq, ct, cb)" by (cases hw)
  have "take (length (snd p) - 4) (snd p) = host_header d (length body) @ body"
    using b(1) by (simp add: b(2))
  moreover have "tx_frame d (HostCmdTx body) = Some (WFLAG_SEND_AS_CMD, host_header d (length body) @ body)"
    by (simp add: host_header_def)
  ultimately show ?thesis
    using cmd_frame_heard [of d body _ "host_header d (length body) @ body", OF _ assms(2,3)]
    unfolding hear_def hw by simp
qed

lemma hear_bodies:
  "\<lbrakk>list_all2 (carries_body d) bodies new; from_host_handler c; curAp_bssid (Data c) = MacAddr d;
    length hw = length new\<rbrakk> \<Longrightarrow>
   from_host (fold hear (zip hw new) c) = from_host c @ map (Pair WIFI_MPTYPE_CMD) bodies"
proof (induction bodies arbitrary: new hw c)
  case (Cons body bodies)
  then obtain p new' x hw' where n: "new = p # new'" "hw = x # hw'" "carries_body d body p"
    "list_all2 (carries_body d) bodies new'" "length hw' = length new'"
    by (auto simp: list_all2_Cons1 length_Suc_conv)
  note h = hear_body [OF n(3) Cons.prems(2,3), of x]
  have "from_host (fold hear (zip hw' new') (hear (x, p) c))
      = from_host (hear (x, p) c) @ map (Pair WIFI_MPTYPE_CMD) bodies"
    by (rule Cons.IH [OF n(4)]) (use Cons.prems h n(5) in simp_all)
  then show ?case by (simp add: n h)
qed simp

lemma SendBlock_refuses:
  "Wifi_DlPlayRomGetBlock (dlplay_block_size s) (dlplay_rom s) block = None \<Longrightarrow>
   \<not> fst (Wifi_DlPlaySendBlock block dest file_id s)"
  by (simp add: Wifi_DlPlaySendBlock_def)

lemma SendBlock_sends:
  assumes "tx_holds (shared s) ps" and "Wifi_DlPlaySendBlock (int k) dest file_id s = (True, s')" "k < 65536"
    and small: "\<forall>k bytes. Wifi_DlPlayRomGetBlock (dlplay_block_size s) (dlplay_rom s) k = Some bytes \<longrightarrow> length bytes \<le> 504"
  shows "\<exists>p body. tx_holds (shared s') (ps @ [p]) \<and> carries_body (shared s) body p
      \<and> block_of file_id body = Some (k, the (Wifi_DlPlayRomGetBlock (dlplay_block_size s) (dlplay_rom s) (int k)))"
    and "sends_only (s\<lparr>dlplay_packnum := dlplay_packnum s + 1\<rparr>) s'"
proof -
  from SendBlock_refuses assms(2) obtain bytes where
    b: "Wifi_DlPlayRomGetBlock (dlplay_block_size s) (dlplay_rom s) (int k) = Some bytes"
    by (metis fst_conv not_None_eq)
  from small b have n: "length bytes \<le> 504" by blast
  let ?body = "block_body k file_id bytes (dlplay_packnum s) (client_footer dest s)"
  let ?s = "s\<lparr>dlplay_packnum := dlplay_packnum s + 1\<rparr>"
  let ?h = "frame_head DLPLAY_FLAGS_NORMAL (6 + length bytes)"
  let ?p = "[4, file_id, 0] @ le16 (of_int (int k)) @ bytes @ [dlplay_packnum s]"
  have call: "send_frame ?h ?p (client_footer dest s) ?s = (True, s')"
    using SendBlock_eq [OF b n, of dest file_id] assms(2) by simp
  show "sends_only ?s s'" by (rule send_frame_sends_only [OF call])
  have len: "length ?h + length ?p + length (client_footer dest s) \<le> DLPLAY_CMD_FRAME_SIZE"
    using n by (simp add: DLPLAY_CMD_FRAME_SIZE_def)
  have body: "?body = ?h @ ?p @ client_footer dest s"
    by (simp add: block_body_def frame_head_def DLPLAY_FLAGS_NORMAL_def)
  have "tx_holds (shared ?s) ps" using assms(1) by simp
  from send_frame_carries [OF this len call] obtain p where
    "tx_holds (shared s') (ps @ [p])" "carries_body (shared s) ?body p" unfolding body by auto
  moreover have "block_of file_id ?body = Some (k, bytes)" by (rule block_of_body [OF _ assms(3)]) simp
  ultimately show "\<exists>p body. tx_holds (shared s') (ps @ [p]) \<and> carries_body (shared s) body p
      \<and> block_of file_id body = Some (k, the (Wifi_DlPlayRomGetBlock (dlplay_block_size s) (dlplay_rom s) (int k)))"
    unfolding b option.sel by blast
qed

lemma send_blocks_queued:
  "\<lbrakk>tx_holds (shared s) ps; send_blocks ks dest file_id s = (True, s'); \<forall>k \<in> set ks. k < 65536;
    block = Wifi_DlPlayRomGetBlock (dlplay_block_size s) (dlplay_rom s);
    \<forall>k bytes. block k = Some bytes \<longrightarrow> length bytes \<le> 504\<rbrakk> \<Longrightarrow>
   \<exists>new bodies. tx_holds (shared s') (ps @ new) \<and> list_all2 (carries_body (shared s)) bodies new
     \<and> map (block_of file_id) bodies = map (\<lambda>k. Some (k, the (block (int k)))) ks"
proof (induction ks arbitrary: s ps)
  case (Cons k ks)
  obtain s1 where s1: "Wifi_DlPlaySendBlock (int k) dest file_id s = (True, s1)"
    "send_blocks ks dest file_id s1 = (True, s')"
    using Cons.prems(2) by (auto split: prod.splits bool.splits)
  have small: "\<forall>k bytes. Wifi_DlPlayRomGetBlock (dlplay_block_size s) (dlplay_rom s) k = Some bytes \<longrightarrow> length bytes \<le> 504"
    using Cons.prems(4,5) by simp
  have k: "k < 65536" "\<forall>k \<in> set ks. k < 65536" using Cons.prems(3) by simp_all
  note sent = SendBlock_sends [OF Cons.prems(1) s1(1) k(1) small]
  from sent(1) obtain p body where p: "tx_holds (shared s1) (ps @ [p])" "carries_body (shared s) body p"
    "block_of file_id body = Some (k, the (block (int k)))"
    using Cons.prems(4) by blast
  note same = sends_only_fields [OF sent(2)]
  have "block = Wifi_DlPlayRomGetBlock (dlplay_block_size s1) (dlplay_rom s1)"
    using same Cons.prems(4) by simp
  from Cons.IH [OF p(1) s1(2) k(2) this Cons.prems(5)] obtain new bodies where
    "tx_holds (shared s') ((ps @ [p]) @ new)" "list_all2 (carries_body (shared s1)) bodies new"
    "map (block_of file_id) bodies = map (\<lambda>k. Some (k, the (block (int k)))) ks" by blast
  moreover have "carries_body (shared s1) = carries_body (shared s)"
    by (rule carries_body_mac) (use same in simp)
  ultimately show ?case using p(2,3) by (intro exI [of _ "p # new"] exI [of _ "body # bodies"]) simp
qed auto

lemma collect_blocks:
  "map (block_of file_id) bodies = map (\<lambda>k. Some (k, f k)) ks \<Longrightarrow> k \<in> set ks \<or> got k = Some (f k) \<Longrightarrow>
   fold (collect file_id) bodies got k = Some (f k)"
  by (induction ks arbitrary: bodies got) (auto simp: collect_def)

text \<open>Room in the transmit queue, for as many frames as fit one after the other.\<close>

definition tx_room :: "Wifi_MainStruct \<Rightarrow> nat \<Rightarrow> bool" where
  "tx_room d n \<longleftrightarrow> ring_read (txbuf d) \<le> ring_write (txbuf d) \<and> ring_write (txbuf d) + n < WIFI_TXBUFFER_SIZE"

lemma HostCmdTxFrame_room:
  assumes "tx_room d (n + 568)" and "length payload \<le> 514"
  shows "\<exists>d'. Wifi_MultiplayerHostCmdTxFrame payload d = (True, d') \<and> tx_room d' n"
proof -
  let ?w = "ring_write (txbuf d)" and ?n = "length payload"
  have w: "?w + 568 + n < 24576" "ring_read (txbuf d) \<le> ?w"
    using assms(1) by (simp_all add: tx_room_def WIFI_TXBUFFER_SIZE_def)
  have "(?n + 47) div 4 \<le> 140" using assms(2) by presburger
  then have small: "?w + (4 + (?n + 47) div 4 * 4 + 4) < 24576" using w assms(2) by linarith
  then have u: "u32_add ?w (4 + (?n + 47) div 4 * 4 + 4) < WIFI_TXBUFFER_SIZE"
    by (subst u32_add_small) (simp_all add: WIFI_TXBUFFER_SIZE_def)
  have size: "u32_add (u32_add 40 ?n) 4 = ?n + 44" using assms(2) by simp
  have total: "u32_add (u32_add 4 (round_up_32 (?n + 44))) 4 = 4 + (?n + 47) div 4 * 4 + 4"
    using assms(2) by simp
  have alloc: "Wifi_TxBufferAllocBuffer (txbuf d) (4 + (?n + 47) div 4 * 4 + 4) = Some (txbuf d, ?w)"
    using u w(2) by (simp add: Wifi_TxBufferAllocBuffer_def ring_alloc_def)
  have "(?w + 4 + (?n + 44) + 3) div 4 * 4 \<le> ?w + 4 + (?n + 44) + 3" by (rule div_times_less_eq_dividend)
  then have fits: "(?w + 4 + (?n + 44) + 3) div 4 * 4 + n < WIFI_TXBUFFER_SIZE"
    using w assms(2) unfolding WIFI_TXBUFFER_SIZE_def by linarith
  have le: "?w \<le> (?w + 4 + (?n + 44) + 3) div 4 * 4" by presburger
  have new: "round_up_32 (u32_add (?w + 4) (?n + 44)) = (?w + 4 + (?n + 44) + 3) div 4 * 4"
  proof -
    have "?w + 4 + (?n + 44) + 3 < 4294967296" using w assms(2) by linarith
    then show ?thesis by simp
  qed
  show ?thesis
    unfolding Wifi_MultiplayerHostCmdTxFrame_def tx_queue_frame_def size total alloc Let_def option.case prod.case
      ring_store_def new tx_room_def
    using fits le w(2) by simp
qed

lemma send_frame_room:
  assumes "tx_room (shared s) (n + 568)" and "length h + length p + length f \<le> 514"
  shows "\<exists>s'. send_frame h p f s = (True, s') \<and> tx_room (shared s') n"
proof -
  have "length (take (dlplay_cmd_size (built h p f s)) (dlplay_cmd (built h p f s))) \<le> 514"
    using assms(2) by (simp add: built_def)
  from HostCmdTxFrame_room [OF assms(1) this] obtain d' where
    "Wifi_MultiplayerHostCmdTxFrame (take (dlplay_cmd_size (built h p f s)) (dlplay_cmd (built h p f s))) (shared s) = (True, d')"
    "tx_room d' n" by blast
  then show ?thesis by (simp add: send_frame_def Wifi_DlPlayCmdSend_def Let_def)
qed

lemma SendBlock_room:
  assumes "tx_room (shared s) (n + 568)"
    and "Wifi_DlPlayRomGetBlock (dlplay_block_size s) (dlplay_rom s) k = Some bytes" "length bytes \<le> 504"
  shows "\<exists>s'. Wifi_DlPlaySendBlock k dest file_id s = (True, s') \<and> tx_room (shared s') n
    \<and> dlplay_block_size s' = dlplay_block_size s \<and> dlplay_rom s' = dlplay_rom s"
proof -
  let ?s = "s\<lparr>dlplay_packnum := dlplay_packnum s + 1\<rparr>"
  obtain s' where s': "send_frame (frame_head DLPLAY_FLAGS_NORMAL (6 + length bytes))
      ([4, file_id, 0] @ le16 (of_int k) @ bytes @ [dlplay_packnum s]) (client_footer dest s) ?s = (True, s')"
    "tx_room (shared s') n"
    using send_frame_room [of ?s n "frame_head DLPLAY_FLAGS_NORMAL (6 + length bytes)"
      "[4, file_id, 0] @ le16 (of_int k) @ bytes @ [dlplay_packnum s]" "client_footer dest s"] assms(1,3) by auto
  with SendBlock_eq [OF assms(2,3)] sends_only_fields [OF send_frame_sends_only [OF s'(1)]] show ?thesis by simp
qed

lemma send_blocks_room:
  "\<lbrakk>tx_room (shared s) (length ks * 568);
    \<forall>k \<in> set ks. \<exists>bytes. Wifi_DlPlayRomGetBlock (dlplay_block_size s) (dlplay_rom s) (int k) = Some bytes \<and> length bytes \<le> 504\<rbrakk>
   \<Longrightarrow> \<exists>s'. send_blocks ks dest file_id s = (True, s')"
proof (induction ks arbitrary: s)
  case (Cons k ks)
  then obtain bytes where b: "Wifi_DlPlayRomGetBlock (dlplay_block_size s) (dlplay_rom s) (int k) = Some bytes"
    "length bytes \<le> 504" by auto
  have "tx_room (shared s) (length ks * 568 + 568)" using Cons.prems(1) by (simp add: add.commute)
  from SendBlock_room [OF this b, of dest file_id] obtain s1 where
    s1: "Wifi_DlPlaySendBlock (int k) dest file_id s = (True, s1)" "tx_room (shared s1) (length ks * 568)"
      "dlplay_block_size s1 = dlplay_block_size s" "dlplay_rom s1 = dlplay_rom s" by blast
  with Cons.IH [OF s1(2)] Cons.prems(2) show ?case by simp
qed simp


text \<open>A host that offers the small ROM.\<close>

definition small_host :: dlplay where
  "small_host = (dlplay_start cleared empty_beacon)\<lparr>dlplay_block_size := 0x100,
     dlplay_rom := the (the (Wifi_DlPlayRomParse 0x100 small_rom))\<rparr>"

lemma small_host_parsed: "Wifi_DlPlayRomParse 0x100 small_rom = Some (Some (dlplay_rom small_host))"
  "total_blocks (dlplay_rom small_host) = 4" "rsa (dlplay_rom small_host) = None"
proof -
  obtain r where r: "Wifi_DlPlayRomParse 0x100 small_rom = Some (Some r)" "total_blocks r = 4" "rsa r = None"
    by (simp add: Wifi_DlPlayRomParse_def nds_header_defs small_rom_fields Let_def Wifi_DlPlayBlockCount_def
        DSWIFI_DLPLAY_MAX_PROGRAM_SIZE_def Wifi_DlPlayRomIsSigned_def)
  then show "Wifi_DlPlayRomParse 0x100 small_rom = Some (Some (dlplay_rom small_host))"
    "total_blocks (dlplay_rom small_host) = 4" "rsa (dlplay_rom small_host) = None" by (simp_all add: small_host_def)
qed

lemma small_host_sel [simp]:
  "shared small_host = cleared" "dlplay_block_size small_host = 0x100"
  "dlplay_clients small_host = replicate 16 blank_client"
  by (simp_all add: small_host_def dlplay_start_def)

lemma cleared_room: "tx_room cleared 24000"
  by (simp add: tx_room_def cleared_def WIFI_TXBUFFER_SIZE_def)


section \<open>The boot information\<close>

text \<open>Fields written at increasing offsets can all be read back.\<close>

abbreviation write_fields :: "(nat \<times> u8 list) list \<Rightarrow> u8 list \<Rightarrow> u8 list" where
  "write_fields \<equiv> fold (\<lambda>(k, bs). overwrite k bs)"

fun spaced :: "nat \<Rightarrow> nat \<Rightarrow> (nat \<times> u8 list) list \<Rightarrow> bool" where
  "spaced i n [] \<longleftrightarrow> i \<le> n"
| "spaced i n ((k, bs) # fs) \<longleftrightarrow> i \<le> k \<and> spaced (k + length bs) n fs"

lemma spaced_le: "spaced i n fs \<Longrightarrow> i \<le> n"
  by (induction i n fs rule: spaced.induct) auto

lemma length_write_fields: "spaced i (length buf) fs \<Longrightarrow> length (write_fields fs buf) = length buf"
proof (induction fs arbitrary: i buf)
  case (Cons f fs)
  obtain k bs where f: "f = (k, bs)" by (cases f)
  with Cons.prems have k: "spaced (k + length bs) (length buf) fs" by auto
  from spaced_le [OF k] have len: "length (overwrite k bs buf) = length buf" by simp
  with Cons.IH [of "k + length bs" "overwrite k bs buf"] k show ?case by (simp add: f)
qed simp

lemma write_fields_before:
  "spaced i (length buf) fs \<Longrightarrow> take i (write_fields fs buf) = take i buf"
proof (induction fs arbitrary: i buf)
  case (Cons f fs)
  obtain k bs where f: "f = (k, bs)" by (cases f)
  with Cons.prems have k: "i \<le> k" "spaced (k + length bs) (length buf) fs" by auto
  from spaced_le [OF k(2)] have len: "length (overwrite k bs buf) = length buf" by simp
  have "take (k + length bs) (write_fields fs (overwrite k bs buf)) = take (k + length bs) (overwrite k bs buf)"
    by (rule Cons.IH) (simp add: len k(2))
  then have "take i (take (k + length bs) (write_fields fs (overwrite k bs buf)))
      = take i (take (k + length bs) (overwrite k bs buf))" by simp
  moreover have "take i (overwrite k bs buf) = take i buf"
    using k(1) spaced_le [OF k(2)] by (simp add: overwrite_def)
  ultimately show ?case using k(1) by (simp add: f min_def)
qed simp

lemma write_fields_read:
  "\<lbrakk>spaced i (length buf) fs; (k, bs) \<in> set fs\<rbrakk> \<Longrightarrow>
   take (length bs) (drop k (write_fields fs buf)) = bs"
proof (induction fs arbitrary: i buf)
  case (Cons f fs)
  obtain k' bs' where f: "f = (k', bs')" by (cases f)
  with Cons.prems have k: "i \<le> k'" "spaced (k' + length bs') (length buf) fs" by auto
  from spaced_le [OF k(2)] have len: "length (overwrite k' bs' buf) = length buf" by simp
  with k(2) have sp: "spaced (k' + length bs') (length (overwrite k' bs' buf)) fs" by simp
  show ?case
  proof (cases "(k, bs) \<in> set fs")
    case True
    with Cons.IH [OF sp] show ?thesis by (simp add: f)
  next
    case False
    with Cons.prems f have kb: "k = k'" "bs = bs'" by auto
    have "take (k' + length bs') (write_fields fs (overwrite k' bs' buf)) = take (k' + length bs') (overwrite k' bs' buf)"
      by (rule write_fields_before [OF sp])
    then have "drop k' (take (k' + length bs') (write_fields fs (overwrite k' bs' buf)))
        = drop k' (take (k' + length bs') (overwrite k' bs' buf))" by simp
    moreover have "drop k' (take (k' + length bs') (overwrite k' bs' buf)) = bs'"
      using spaced_le [OF k(2)] by (simp add: overwrite_def)
    ultimately show ?thesis by (simp add: f kb drop_take)
  qed
qed simp

lemma put_fields:
  "\<lbrakk>spaced i (length p) fs; length h = 2\<rbrakk> \<Longrightarrow>
   fold (\<lambda>(k, bs). put k bs) fs (built h p f s) = built h (write_fields fs p) f s"
proof (induction fs arbitrary: i p)
  case (Cons x fs)
  obtain k bs where x: "x = (k, bs)" by (cases x)
  with Cons.prems have k: "spaced (k + length bs) (length p) fs" by auto
  from spaced_le [OF k] have "k + length bs \<le> length p" .
  with Cons.IH [of "k + length bs" "overwrite k bs p"] k Cons.prems(2) show ?case
    by (simp add: x put_built)
qed simp

definition info_fields :: "dlplay \<Rightarrow> (nat \<times> u8 list) list" where
  "info_fields s =
     (let field = (\<lambda>offset. take 4 (drop offset (rom (dlplay_rom s)))) in
      [(0x00, [3]), (0x01, field 0x24), (0x05, field 0x34), (0x0D, le32 0x027FFE00), (0x11, le32 0x027FFE00),
       (0x15, le32 0x160), (0x1D, field 0x28), (0x21, field 0x28), (0x25, field 0x2C), (0x2D, le32 0x022C0000),
       (0x31, field 0x38), (0x35, field 0x3C), (0x39, le32 1), (0x3D, rom_rsa (dlplay_rom s))]
      @ (case dlplay_user_param s of None \<Rightarrow> [] | Some param \<Rightarrow> [(0xC5, param)])
      @ [(0xE5, [dlplay_packnum s])])"

lemma put_sel [simp]:
  "dlplay_rom (put k bs s) = dlplay_rom s" "dlplay_packnum (put k bs s) = dlplay_packnum s"
  "dlplay_user_param (put k bs s) = dlplay_user_param s" "shared (put k bs s) = shared s"
  by (simp_all add: put_def)

text \<open>What the host must have for the fs to have their size.\<close>

definition info_ok :: "dlplay \<Rightarrow> bool" where
  "info_ok s \<longleftrightarrow> NDS_HDR_SIZE \<le> length (rom (dlplay_rom s)) \<and> length (rom_rsa (dlplay_rom s)) = NDS_RSA_SIZE
     \<and> (\<forall>param. dlplay_user_param s = Some param \<longrightarrow> length param = 0x20)"

lemma info_fields_spaced: "info_ok s \<Longrightarrow> spaced 0 0xEA (info_fields s)"
  by (auto simp: info_ok_def info_fields_def NDS_HDR_SIZE_def NDS_RSA_SIZE_def split: option.splits)

lemma SendFileInfo_eq:
  assumes "info_ok s"
  shows "Wifi_DlPlaySendFileInfo dest s =
    snd (send_frame (frame_head DLPLAY_FLAGS_NORMAL 0xEA) (write_fields (info_fields s) (replicate 0xEA 0))
      (client_footer dest s) (s\<lparr>dlplay_packnum := dlplay_packnum s + 1\<rparr>))"
proof -
  let ?b = "built (frame_head DLPLAY_FLAGS_NORMAL 0xEA) (replicate 0xEA 0) (client_footer dest s) s"
  have start: "Wifi_DlPlayCmdStart DLPLAY_FLAGS_NORMAL DLPLAY_CMD_SIZE_BOOT_INFO dest s = (True, ?b)"
    by (simp add: CmdStart_normal cmd_sizes)
  have "Wifi_DlPlaySendFileInfo dest s = snd (Wifi_DlPlayCmdSend
      ((fold (\<lambda>(k, bs). put k bs) (info_fields s) ?b)\<lparr>dlplay_packnum := dlplay_packnum s + 1\<rparr>))"
    unfolding Wifi_DlPlaySendFileInfo_def start prod.case bool.case Let_def
    by (simp add: info_fields_def Wifi_DlPlayCopyHeaderField_def Wifi_DlPlayWrite32_def NDS_HDR_ARM9_ENTRY_def
        NDS_HDR_ARM7_ENTRY_def NDS_HDR_ARM9_RAM_ADDRESS_def NDS_HDR_ARM7_RAM_ADDRESS_def DLPLAY_HEADER_DEST_def
        DLPLAY_ARM7_STAGING_DEST_def nds_header_defs DLPLAY_CMD_OP_DL_FILEINFO_def split: option.split)
  also have "fold (\<lambda>(k, bs). put k bs) (info_fields s) ?b =
      built (frame_head DLPLAY_FLAGS_NORMAL 0xEA) (write_fields (info_fields s) (replicate 0xEA 0)) (client_footer dest s) s"
    by (rule put_fields [where i = 0]) (use info_fields_spaced [OF assms] in simp_all)
  finally show ?thesis by (simp add: send_frame_def)
qed

text \<open>
  C26. The boot information tells the client what the header of the ROM says: the frame holds the
  opcode, the entry points, addresses and sizes of the two binaries from the header, where they go
  in memory, the signature, the parameter of the application and the counter, each at its offset,
  and it is addressed to the clients asked for; it is queued whenever the transmit queue has room
  for it.
\<close>

theorem FileInfo_describes_program:
  assumes "info_ok s" and "tx_holds (shared s) ps" and "Wifi_DlPlaySendFileInfo dest s = s'"
  shows "\<exists>payload. length payload = 0xEA \<and> (\<forall>(k, bs) \<in> set (info_fields s). take (length bs) (drop k payload) = bs)
    \<and> (let body = [0x75, 0x11] @ payload @ client_footer dest s in
         tx_accepted (shared s) (shared s') ps WFLAG_SEND_AS_CMD
             (host_header (shared s) (length body) @ body) (length body)
         \<or> tx_refused (shared s) (shared s') \<and> \<not> tx_room (shared s) 568)"
proof -
  let ?p = "write_fields (info_fields s) (replicate 0xEA 0)"
  let ?h = "frame_head DLPLAY_FLAGS_NORMAL 0xEA" and ?s = "s\<lparr>dlplay_packnum := dlplay_packnum s + 1\<rparr>"
  have sp: "spaced 0 (length (replicate 0xEA (0 :: u8))) (info_fields s)"
    using info_fields_spaced [OF assms(1)] by simp
  have len: "length ?p = 0xEA" using length_write_fields [OF sp] by simp
  obtain ok where call: "send_frame ?h ?p (client_footer dest s) ?s = (ok, s')"
    using SendFileInfo_eq [OF assms(1), of dest] assms(3) by (metis prod.collapse)
  have head: "?h = [0x75, 0x11]" by (simp add: frame_head_def DLPLAY_FLAGS_NORMAL_def)
  have "ok" if "tx_room (shared s) 568"
    using send_frame_room [of ?s 0 ?h ?p "client_footer dest s"] call that len by auto
  moreover have "\<forall>(k, bs) \<in> set (info_fields s). take (length bs) (drop k ?p) = bs"
    using write_fields_read [OF sp] by blast
  moreover note send_frame_spec [of ?s ps ?h ?p "client_footer dest s" ok s', OF _ _ call refl] assms(2) len
  ultimately show ?thesis
    by (cases ok) (auto simp: DLPLAY_CMD_FRAME_SIZE_def head Let_def intro!: exI [of _ ?p])
qed

lemma take_4_drop: "k + 4 \<le> length xs \<Longrightarrow> take 4 (drop k xs) = [xs ! k, xs ! (k + 1), xs ! (k + 2), xs ! (k + 3)]"
  by (rule nth_equalityI) (auto simp: nth_Cons numeral_2_eq_2 numeral_3_eq_3 split: nat.splits)

lemma small_host_info: "info_ok small_host" "rom (dlplay_rom small_host) = small_rom"
proof -
  show r: "rom (dlplay_rom small_host) = small_rom" by (rule RomParse_parts(1) [OF small_host_parsed(1)])
  show "info_ok small_host"
    by (simp add: info_ok_def r rom_rsa_def NDS_HDR_SIZE_def small_host_parsed(3)) (simp add: small_host_def dlplay_start_def)
qed

lemma FileInfo_describes_program_witness:
  "\<exists>payload. take 4 (drop 0x25 payload) = [4 :: u8, 0, 0, 0]
    \<and> tx_accepted cleared (shared (Wifi_DlPlaySendFileInfo 0xFFFF small_host)) [] WFLAG_SEND_AS_CMD
        (host_header cleared 0xEE @ [0x75, 0x11] @ payload @ client_footer 0xFFFF small_host) 0xEE"
proof -
  have field: "(0x25, [4, 0, 0, 0]) \<in> set (info_fields small_host)"
    by (simp add: info_fields_def Let_def small_host_info(2) take_4_drop)
  have "tx_holds (shared small_host) []" by (simp add: tx_holds_cleared)
  from FileInfo_describes_program [OF small_host_info(1) this refl, of "0xFFFF"] obtain payload where
    p: "length payload = 0xEA" "\<forall>(k, bs) \<in> set (info_fields small_host). take (length bs) (drop k payload) = bs"
      "let body = [0x75, 0x11] @ payload @ client_footer 0xFFFF small_host in
       tx_accepted (shared small_host) (shared (Wifi_DlPlaySendFileInfo 0xFFFF small_host)) [] WFLAG_SEND_AS_CMD
         (host_header (shared small_host) (length body) @ body) (length body)
       \<or> tx_refused (shared small_host) (shared (Wifi_DlPlaySendFileInfo 0xFFFF small_host))
         \<and> \<not> tx_room (shared small_host) 568" by blast
  have "tx_room cleared 568" by (simp add: tx_room_def cleared_def WIFI_TXBUFFER_SIZE_def)
  moreover from p(2) field have "take 4 (drop 0x25 payload) = [4, 0, 0, 0]"
  proof -
    have len: "length [4 :: u8, 0, 0, 0] = 4" by simp
    from bspec [OF p(2) field] show ?thesis unfolding prod.case len .
  qed
  ultimately show ?thesis using p(1,3) by (auto simp: Let_def)
qed

end
