(* ===== verification/Dlplay_Station.thy ===== *)
theory Dlplay_Station
  imports Dlplay_Frames
begin

text \<open>
  Serving the content a Download Station client asks for (source/arm9/ntr/dlplay/protocol.c): a
  request names a content and a stream, the host answers with its length, then with one numbered
  chunk at a time, then with a marker. The application provides the content through the two
  functions of the state. Calling them when there are none, which C leaves undefined, is
  \<^const>\<open>None\<close>; every other result is the flag the C function returns, with the state.
\<close>

section \<open>Definitions\<close>

definition DLPLAY_PORT_STATION_NAME :: nat where "DLPLAY_PORT_STATION_NAME = 13"
definition DLPLAY_PORT_STATION_MENU :: nat where "DLPLAY_PORT_STATION_MENU = 14"
definition DLPLAY_PORT_STATION_FILE :: nat where "DLPLAY_PORT_STATION_FILE = 15"
definition DLPLAY_STATION_INDEX_SIZE :: nat where "DLPLAY_STATION_INDEX_SIZE = 2"
definition DLPLAY_STATION_LEN_SIZE :: nat where "DLPLAY_STATION_LEN_SIZE = 4"
definition DLPLAY_STATION_INDEX_END :: u16 where "DLPLAY_STATION_INDEX_END = 0xFFFF"
definition DLPLAY_STATION_NAME_SIZE :: nat where "DLPLAY_STATION_NAME_SIZE = 8"
definition DLPLAY_STATION_REQUEST_SIZE :: nat where "DLPLAY_STATION_REQUEST_SIZE = 10"
definition DLPLAY_STATION_STREAM_MIN :: nat where "DLPLAY_STATION_STREAM_MIN = 1"
definition DLPLAY_STATION_STREAM_MAX :: nat where "DLPLAY_STATION_STREAM_MAX = 2"
definition DLPLAY_STATION_STREAM_PORT :: "nat \<Rightarrow> nat" where "DLPLAY_STATION_STREAM_PORT stream = DLPLAY_PORT_STATION_NAME + stream"
definition DLPLAY_STATION_SEND_DELAY :: nat where "DLPLAY_STATION_SEND_DELAY = 2"
definition DLPLAY_STATION_PER_UPDATE :: nat where "DLPLAY_STATION_PER_UPDATE = 1"
definition DLPLAY_STATION_CHUNK_PORT14 :: nat where "DLPLAY_STATION_CHUNK_PORT14 = 0x1E"
definition DLPLAY_STATION_CHUNK_PORT15 :: nat where "DLPLAY_STATION_CHUNK_PORT15 = 0x7E"

lemmas station_consts = DLPLAY_PORT_STATION_NAME_def DLPLAY_PORT_STATION_MENU_def DLPLAY_PORT_STATION_FILE_def
  DLPLAY_STATION_INDEX_SIZE_def DLPLAY_STATION_LEN_SIZE_def DLPLAY_STATION_INDEX_END_def DLPLAY_STATION_NAME_SIZE_def
  DLPLAY_STATION_REQUEST_SIZE_def DLPLAY_STATION_STREAM_MIN_def DLPLAY_STATION_STREAM_MAX_def
  DLPLAY_STATION_STREAM_PORT_def DLPLAY_STATION_SEND_DELAY_def DLPLAY_STATION_PER_UPDATE_def
  DLPLAY_STATION_CHUNK_PORT14_def DLPLAY_STATION_CHUNK_PORT15_def

definition upd_station :: "nat \<Rightarrow> (Wifi_DlPlayStationClient \<Rightarrow> Wifi_DlPlayStationClient) \<Rightarrow> dlplay \<Rightarrow> dlplay" where
  "upd_station aid f = upd_client aid (\<lambda>c. c\<lparr>station := f (station c)\<rparr>)"

abbreviation station_of :: "dlplay \<Rightarrow> nat \<Rightarrow> Wifi_DlPlayStationClient" where
  "station_of s aid \<equiv> station (client s aid)"

definition Wifi_DlPlayHandleStationReply :: "nat \<Rightarrow> nat \<Rightarrow> u8 list \<Rightarrow> dlplay \<Rightarrow> dlplay" where
  "Wifi_DlPlayHandleStationReply aid port reply s =
     (if stage (client s aid) \<noteq> DLPLAY_PSTATE_STATION then s
      else if port \<noteq> DLPLAY_PORT_STATION_NAME then s
      else if length reply < DLPLAY_STATION_REQUEST_SIZE then s
      else
        let name = take DLPLAY_STATION_NAME_SIZE reply;
            stream = of_le16 (reply ! DLPLAY_STATION_NAME_SIZE) (reply ! (DLPLAY_STATION_NAME_SIZE + 1));
            s = upd_diag (\<lambda>g. g\<lparr>dg_station_name := name, dg_station_stream := stream\<rparr>) s
        in
        if unat stream < DLPLAY_STATION_STREAM_MIN \<or> unat stream > DLPLAY_STATION_STREAM_MAX
        then upd_diag (\<lambda>g. g\<lparr>dg_station_bad_stream := dg_station_bad_stream g + 1\<rparr>) s
        else
          let content_port = DLPLAY_STATION_STREAM_PORT (unat stream); t = station_of s aid in
          if st_state t \<noteq> DLPLAY_SSTATE_IDLE \<and> st_state t \<noteq> DLPLAY_SSTATE_DONE \<and> st_port t = content_port then s
          else
            upd_client aid (\<lambda>c. c\<lparr>wait_count := 0\<rparr>)
              (upd_station aid (\<lambda>t. t\<lparr>st_pending := True, st_pending_name := name, st_pending_stream := stream\<rparr>) s))"

definition Wifi_DlPlayStationAcceptRequest :: "nat \<Rightarrow> dlplay \<Rightarrow> dlplay" where
  "Wifi_DlPlayStationAcceptRequest aid s =
     (let stream = st_pending_stream (station_of s aid);
          name = st_pending_name (station_of s aid);
          s = upd_station aid (\<lambda>t. t\<lparr>st_pending := False\<rparr>) s;
          content_port = DLPLAY_STATION_STREAM_PORT (unat stream);
          not_found = upd_diag (\<lambda>g. g\<lparr>dg_station_not_found := dg_station_not_found g + 1\<rparr>) s
      in case (dlplay_station_open s, dlplay_station_read s) of
           (Some open_content, Some _) \<Rightarrow>
             (case open_content name of
                None \<Rightarrow> not_found
              | Some (n, handle) \<Rightarrow>
                  if n = 0 then not_found
                  else
                    let s = upd_station aid (\<lambda>t. t\<lparr>st_handle := handle, st_size := n, st_port := content_port,
                              st_stream := stream,
                              st_chunk := (if content_port = DLPLAY_PORT_STATION_MENU then DLPLAY_STATION_CHUNK_PORT14
                                           else DLPLAY_STATION_CHUNK_PORT15),
                              st_index := 0, st_ended := False, st_wait := 0\<rparr>) s;
                        s = upd_diag (\<lambda>g. g\<lparr>dg_station_aid := of_nat aid, dg_station_port_used := of_nat content_port,
                              dg_station_size := of_nat n, dg_station_chunks := 0, dg_station_last_index := 0,
                              dg_station_last_chunk_len := 0, dg_station_end_sent := 0\<rparr>) s
                    in upd_station aid (\<lambda>t. t\<lparr>st_state := DLPLAY_SSTATE_SEND_DELAY\<rparr>) s)
         | _ \<Rightarrow> not_found)"

definition Wifi_DlPlayStationCmdStart :: "nat \<Rightarrow> nat \<Rightarrow> nat \<Rightarrow> dlplay \<Rightarrow> bool \<times> dlplay" where
  "Wifi_DlPlayStationCmdStart aid port payload_size s =
     (let s = s\<lparr>dlplay_cmd := replicate DLPLAY_CMD_FRAME_SIZE 0\<rparr> in
      if port > DLPLAY_PORT_STATION_FILE \<or> odd payload_size then (False, s\<lparr>dlplay_cmd_size := 0\<rparr>)
      else if 2 + payload_size + 2 + 2 > DLPLAY_CMD_FRAME_SIZE then (False, s\<lparr>dlplay_cmd_size := 0\<rparr>)
      else
        let s = s\<lparr>dlplay_cmd := (dlplay_cmd s)[0 := of_nat (payload_size div 2), 1 := DLPLAY_FLAGS_PORT (of_nat port)]\<rparr>;
            s = upd_station aid (\<lambda>t. t\<lparr>st_seq := (st_seq t)[port := st_seq t ! port + 1]\<rparr>) s;
            seq = st_seq (station_of s aid) ! port;
            clients = BIT16 aid AND Wifi_MultiplayerGetClientMask (shared s) AND NOT 1
        in (True, s\<lparr>dlplay_cmd := (dlplay_cmd s)
                      [2 + payload_size := ucast seq, 3 + payload_size := ucast (drop_bit 8 seq),
                       4 + payload_size := ucast clients, 5 + payload_size := ucast (drop_bit 8 clients)],
                    dlplay_cmd_size := 2 + payload_size + 2 + 2\<rparr>))"

definition Wifi_DlPlayStationSendLength :: "nat \<Rightarrow> dlplay \<Rightarrow> dlplay" where
  "Wifi_DlPlayStationSendLength aid s =
     (case Wifi_DlPlayStationCmdStart aid DLPLAY_PORT_STATION_NAME DLPLAY_STATION_LEN_SIZE s of
        (False, s) \<Rightarrow> s
      | (True, s) \<Rightarrow> snd (Wifi_DlPlayCmdSend (put 0 (le32 (of_nat (st_size (station_of s aid)))) s)))"

text \<open>The application fills in the bytes of the chunk: at most as many as it was asked for.\<close>

definition Wifi_DlPlayStationSendChunk :: "nat \<Rightarrow> dlplay \<Rightarrow> (bool \<times> dlplay) option" where
  "Wifi_DlPlayStationSendChunk aid s =
     (let t = station_of s aid; offset = unat (st_index t) * st_chunk t in
      if offset \<ge> st_size t then
        (case Wifi_DlPlayStationCmdStart aid (st_port t) DLPLAY_STATION_INDEX_SIZE s of
           (False, s) \<Rightarrow> Some (False, s)
         | (True, s) \<Rightarrow>
             (case Wifi_DlPlayCmdSend (put 0 (le16 DLPLAY_STATION_INDEX_END) s) of
                (False, s) \<Rightarrow> Some (False, s)
              | (True, s) \<Rightarrow> Some (True, upd_diag (\<lambda>g. g\<lparr>dg_station_end_sent := 1\<rparr>)
                               (upd_station aid (\<lambda>t. t\<lparr>st_ended := True\<rparr>) s))))
      else
        let remaining = st_size t - offset;
            n = (if remaining < st_chunk t then remaining else st_chunk t);
            payload_size = DLPLAY_STATION_INDEX_SIZE + (n + 1) div 2 * 2
        in case Wifi_DlPlayStationCmdStart aid (st_port t) payload_size s of
             (False, s) \<Rightarrow> Some (False, s)
           | (True, s) \<Rightarrow>
               (case dlplay_station_read s of
                  None \<Rightarrow> None
                | Some read_content \<Rightarrow>
                    (case read_content (st_handle t) offset n of
                       None \<Rightarrow> Some (False, upd_station aid (\<lambda>t. t\<lparr>st_ended := True\<rparr>)
                                (upd_diag (\<lambda>g. g\<lparr>dg_station_read_failures := dg_station_read_failures g + 1\<rparr>) s))
                     | Some bytes \<Rightarrow>
                         (case Wifi_DlPlayCmdSend (put DLPLAY_STATION_INDEX_SIZE (take n bytes) (put 0 (le16 (st_index t)) s)) of
                            (False, s) \<Rightarrow> Some (False, s)
                          | (True, s) \<Rightarrow>
                              let s = upd_diag (\<lambda>g. g\<lparr>dg_station_aid := of_nat aid, dg_station_last_index := st_index t,
                                        dg_station_last_chunk_len := of_nat n,
                                        dg_station_last_is_final := (if offset + n \<ge> st_size t then 1 else 0)\<rparr>) s;
                                  s = upd_station aid (\<lambda>t. t\<lparr>st_index := st_index t + 1\<rparr>) s;
                                  s = upd_diag (\<lambda>g. g\<lparr>dg_station_chunks := dg_station_chunks g + 1\<rparr>) s
                              in Some (True, upd_client aid (\<lambda>c. c\<lparr>wait_count := 0\<rparr>) s)))))"

fun serve_chunks :: "nat \<Rightarrow> nat \<Rightarrow> dlplay \<Rightarrow> (bool \<times> dlplay) option" where
  "serve_chunks 0 aid s = Some (True, s)"
| "serve_chunks (Suc n) aid s =
     (if st_ended (station_of s aid) then Some (True, s)
      else case Wifi_DlPlayStationSendChunk aid s of
             None \<Rightarrow> None
           | Some (False, s) \<Rightarrow> Some (False, s)
           | Some (True, s) \<Rightarrow> serve_chunks n aid s)"

definition Wifi_DlPlayStationServe :: "nat \<Rightarrow> dlplay \<Rightarrow> (bool \<times> dlplay) option" where
  "Wifi_DlPlayStationServe aid s =
     (let s = (if st_pending (station_of s aid) then Wifi_DlPlayStationAcceptRequest aid s else s);
          s = upd_station aid (\<lambda>t. t\<lparr>st_wait := st_wait t + 1\<rparr>) s;
          t = station_of s aid
      in case st_state t of
           DLPLAY_SSTATE_SEND_DELAY \<Rightarrow>
             if st_wait t = 1 then Some (True, Wifi_DlPlayStationSendLength aid s)
             else if st_wait t > DLPLAY_STATION_SEND_DELAY
             then Some (False, upd_station aid (\<lambda>t. t\<lparr>st_wait := 0, st_state := DLPLAY_SSTATE_DATA\<rparr>) s)
             else Some (False, s)
         | DLPLAY_SSTATE_DATA \<Rightarrow>
             if st_ended t
             then Some (False, upd_station aid (\<lambda>t. t\<lparr>st_wait := 0, st_state := DLPLAY_SSTATE_DONE\<rparr>) s)
             else serve_chunks DLPLAY_STATION_PER_UPDATE aid s
         | DLPLAY_SSTATE_IDLE \<Rightarrow> Some (False, s)
         | DLPLAY_SSTATE_DONE \<Rightarrow> Some (False, s))"

section \<open>What the messages are\<close>

definition station_foot :: "nat \<Rightarrow> nat \<Rightarrow> dlplay \<Rightarrow> u8 list" where
  "station_foot aid port s = le16 (st_seq (station_of s aid) ! port + 1)
     @ le16 (BIT16 aid AND Wifi_MultiplayerGetClientMask (shared s) AND NOT 1)"

definition count_seq :: "nat \<Rightarrow> nat \<Rightarrow> dlplay \<Rightarrow> dlplay" where
  "count_seq aid port = upd_station aid (\<lambda>t. t\<lparr>st_seq := (st_seq t)[port := st_seq t ! port + 1]\<rparr>)"

definition station_head :: "nat \<Rightarrow> nat \<Rightarrow> u8 list" where
  "station_head port n = [of_nat (n div 2), DLPLAY_FLAGS_PORT (of_nat port)]"

lemma station_of_upd [simp]:
  "aid < length (dlplay_clients s) \<Longrightarrow> station_of (upd_station aid f s) aid = f (station_of s aid)"
  by (simp add: upd_station_def client_upd_client)

lemma upd_station_sel [simp]:
  "shared (upd_station aid f s) = shared s" "dlplay_cmd (upd_station aid f s) = dlplay_cmd s"
  "length (dlplay_clients (upd_station aid f s)) = length (dlplay_clients s)"
  "dlplay_station_read (upd_station aid f s) = dlplay_station_read s"
  "dlplay_station_open (upd_station aid f s) = dlplay_station_open s"
  by (simp_all add: upd_station_def upd_client_def)

lemma length_station_foot [simp]: "length (station_foot aid port s) = 4"
  by (simp add: station_foot_def)

lemma length_station_head [simp]: "length (station_head port n) = 2"
  by (simp add: station_head_def)

lemma StationCmdStart_built:
  assumes "port \<le> 15" "even n" "n + 6 \<le> DLPLAY_CMD_FRAME_SIZE" "aid < length (dlplay_clients s)"
    and "length (st_seq (station_of s aid)) = 16"
  shows "Wifi_DlPlayStationCmdStart aid port n s =
    (True, built (station_head port n) (replicate n 0) (station_foot aid port s) (count_seq aid port s))"
proof -
  obtain k where k: "DLPLAY_CMD_FRAME_SIZE = n + 6 + k" using assms(3) le_Suc_ex by blast
  have "n + 6 + k = 2 + (n + (4 + k))" by simp
  then have "replicate (n + 6 + k) (0 :: u8) = replicate 2 0 @ replicate n 0 @ replicate 4 0 @ replicate k 0"
    by (simp only: replicate_add)
  then have r: "replicate (n + 6 + k) (0 :: u8) = 0 # 0 # replicate n 0 @ 0 # 0 # 0 # 0 # replicate k 0"
    by (simp add: numeral_eq_Suc)
  have seq: "st_seq (station_of (upd_station aid (\<lambda>t. t\<lparr>st_seq := (st_seq t)[port := st_seq t ! port + 1]\<rparr>) s') aid) ! port
      = st_seq (station_of s aid) ! port + 1" if "dlplay_clients s' = dlplay_clients s" for s'
    using assms(1,4,5) that by simp
  show ?thesis
    using assms(1,2,4,5)
    by (simp add: Wifi_DlPlayStationCmdStart_def built_def Let_def k r station_head_def station_foot_def le16_def
        list_update_append seq count_seq_def station_consts)
       (simp add: upd_station_def upd_client_def)
qed

text \<open>A client whose record can be served.\<close>

definition station_ready :: "nat \<Rightarrow> dlplay \<Rightarrow> bool" where
  "station_ready aid s \<longleftrightarrow> aid < length (dlplay_clients s) \<and> length (st_seq (station_of s aid)) = 16
     \<and> st_port (station_of s aid) \<le> 15 \<and> 0 < st_chunk (station_of s aid) \<and> st_chunk (station_of s aid) \<le> 126"

lemma count_seq_station:
  "aid < length (dlplay_clients s) \<Longrightarrow> station_of (count_seq aid port s) aid =
    (station_of s aid)\<lparr>st_seq := (st_seq (station_of s aid))[port := st_seq (station_of s aid) ! port + 1]\<rparr>"
  by (simp add: count_seq_def)

lemma count_seq_sel [simp]:
  "shared (count_seq aid port s) = shared s" "dlplay_station_read (count_seq aid port s) = dlplay_station_read s"
  "length (dlplay_clients (count_seq aid port s)) = length (dlplay_clients s)"
  by (simp_all add: count_seq_def)

lemma built_station [simp]: "station_of (built h p f s) aid = station_of s aid"
  "dlplay_station_read (built h p f s) = dlplay_station_read s"
  by (simp_all add: built_def)

lemma put_station [simp]: "station_of (put k bs s) aid = station_of s aid"
  by (simp add: put_def)

lemma SendLength_eq:
  assumes "aid < length (dlplay_clients s)" and "length (st_seq (station_of s aid)) = 16"
  shows "Wifi_DlPlayStationSendLength aid s =
    snd (send_frame (station_head 13 4) (le32 (of_nat (st_size (station_of s aid)))) (station_foot aid 13 s)
      (count_seq aid 13 s))"
  using assms
  by (simp add: Wifi_DlPlayStationSendLength_def StationCmdStart_built station_consts cmd_sizes put_built
      overwrite_whole send_frame_def count_seq_station)

definition chunk_payload :: "u16 \<Rightarrow> u8 list \<Rightarrow> u8 list" where
  "chunk_payload index bytes = le16 index @ bytes @ replicate (length bytes mod 2) 0"

lemma round_up_2: "(n + 1) div 2 * 2 = n + n mod 2" for n :: nat
  by presburger

definition chunk_sent :: "nat \<Rightarrow> nat \<Rightarrow> Wifi_DlPlayStationClient \<Rightarrow> dlplay \<Rightarrow> dlplay" where
  "chunk_sent aid n t s =
     upd_client aid (\<lambda>c. c\<lparr>wait_count := 0\<rparr>)
       (upd_diag (\<lambda>g. g\<lparr>dg_station_chunks := dg_station_chunks g + 1\<rparr>)
         (upd_station aid (\<lambda>t. t\<lparr>st_index := st_index t + 1\<rparr>)
           (upd_diag (\<lambda>g. g\<lparr>dg_station_aid := of_nat aid, dg_station_last_index := st_index t,
              dg_station_last_chunk_len := of_nat n,
              dg_station_last_is_final := (if unat (st_index t) * st_chunk t + n \<ge> st_size t then 1 else 0)\<rparr>) s)))"

lemma SendChunk_data:
  assumes r: "station_ready aid s" and t: "t = station_of s aid"
    and more: "unat (st_index t) * st_chunk t < st_size t"
    and n: "n = min (st_chunk t) (st_size t - unat (st_index t) * st_chunk t)"
    and rd: "dlplay_station_read s = Some read_content"
    and bytes: "read_content (st_handle t) (unat (st_index t) * st_chunk t) n = Some bytes" "length bytes = n"
  shows "Wifi_DlPlayStationSendChunk aid s =
    (case send_frame (station_head (st_port t) (2 + (n + n mod 2))) (chunk_payload (st_index t) bytes)
            (station_foot aid (st_port t) s) (count_seq aid (st_port t) s) of
       (ok, s') \<Rightarrow> Some (ok, if ok then chunk_sent aid n t s' else s'))"
proof -
  have n': "(if st_size t - unat (st_index t) * st_chunk t < st_chunk t
      then st_size t - unat (st_index t) * st_chunk t else st_chunk t) = n" by (simp add: n min_def)
  have small: "n \<le> 126" using r by (auto simp: n t station_ready_def min_def)
  let ?ps = "2 + (n + n mod 2)"
  have "n mod 2 \<le> 1" by simp
  with small have fits: "?ps + 6 \<le> DLPLAY_CMD_FRAME_SIZE" by (simp add: DLPLAY_CMD_FRAME_SIZE_def)
  have "even ?ps" by presburger
  with r fits have start: "Wifi_DlPlayStationCmdStart aid (st_port t) ?ps s =
      (True, built (station_head (st_port t) ?ps) (replicate ?ps 0) (station_foot aid (st_port t) s)
        (count_seq aid (st_port t) s))"
    by (intro StationCmdStart_built) (simp_all add: station_ready_def t)
  let ?b = "\<lambda>p. built (station_head (st_port t) ?ps) p (station_foot aid (st_port t) s) (count_seq aid (st_port t) s)"
  have rep: "replicate ?ps (0 :: u8) = [0, 0] @ replicate n 0 @ replicate (n mod 2) 0"
    by (simp add: replicate_add numeral_2_eq_2)
  have payload: "put 2 (take n bytes) (put 0 (le16 (st_index t)) (?b (replicate ?ps 0))) = ?b (chunk_payload (st_index t) bytes)"
    unfolding rep using bytes(2)
    by (simp add: put_built overwrite_def le16_def chunk_payload_def numeral_2_eq_2)
  show ?thesis
    unfolding Wifi_DlPlayStationSendChunk_def Let_def t [symmetric] n' round_up_2 station_consts(4) start
      prod.case bool.case built_station count_seq_sel rd option.case bytes(1) payload send_frame_def chunk_sent_def
    using more by (simp split: prod.split bool.split)
qed

lemma SendChunk_end:
  assumes r: "station_ready aid s" and t: "t = station_of s aid"
    and done_all: "st_size t \<le> unat (st_index t) * st_chunk t"
  shows "Wifi_DlPlayStationSendChunk aid s =
    (case send_frame (station_head (st_port t) 2) (le16 0xFFFF) (station_foot aid (st_port t) s)
            (count_seq aid (st_port t) s) of
       (ok, s') \<Rightarrow> Some (ok, if ok then upd_diag (\<lambda>g. g\<lparr>dg_station_end_sent := 1\<rparr>)
                                 (upd_station aid (\<lambda>t. t\<lparr>st_ended := True\<rparr>) s') else s'))"
proof -
  have start: "Wifi_DlPlayStationCmdStart aid (st_port t) 2 s =
      (True, built (station_head (st_port t) 2) (replicate 2 0) (station_foot aid (st_port t) s)
        (count_seq aid (st_port t) s))"
    using r by (intro StationCmdStart_built) (simp_all add: station_ready_def t DLPLAY_CMD_FRAME_SIZE_def)
  have put: "put 0 (le16 DLPLAY_STATION_INDEX_END) (built (station_head (st_port t) 2) (replicate 2 0)
      (station_foot aid (st_port t) s) (count_seq aid (st_port t) s)) =
      built (station_head (st_port t) 2) (le16 0xFFFF) (station_foot aid (st_port t) s) (count_seq aid (st_port t) s)"
    by (simp add: put_built overwrite_whole station_consts)
  show ?thesis
    unfolding Wifi_DlPlayStationSendChunk_def Let_def t [symmetric] station_consts(4) start
      prod.case bool.case put send_frame_def
    using done_all by (simp split: prod.split bool.split)
qed

section \<open>Serving a content\<close>

text \<open>What the application promises about a content it opened, and what a client reads in a chunk.\<close>

definition content_read :: "(u32 \<Rightarrow> nat \<Rightarrow> nat \<Rightarrow> u8 list option) \<Rightarrow> u32 \<Rightarrow> u8 list \<Rightarrow> bool" where
  "content_read read_content handle content \<longleftrightarrow>
     (\<forall>off n. off + n \<le> length content \<longrightarrow> read_content handle off n = Some (take n (drop off content)))"

definition chunk_of :: "u8 list \<Rightarrow> u16 \<times> u8 list" where
  "chunk_of body = (of_le16 (body ! 2) (body ! 3), take (length body - 8) (drop 4 body))"

lemma chunk_of_body:
  assumes "length h = 2" "length f = 4"
  shows "chunk_of (h @ (le16 i @ bytes) @ f) = (i, bytes)"
proof -
  obtain a b where h: "h = [a, b]" using assms(1) by (auto simp: numeral_2_eq_2 length_Suc_conv)
  have "of_le16 (le16 i ! 0) (le16 i ! Suc 0) = i" using of_le16_le16 [of i] by simp
  then show ?thesis using assms(2) by (simp add: chunk_of_def h le16_def numeral_eq_Suc)
qed

definition padded :: "u8 list \<Rightarrow> u8 list" where
  "padded content = content @ replicate (length content mod 2) 0"

lemma even_room: "n < c \<Longrightarrow> even c \<Longrightarrow> n + n mod 2 \<le> c" for n c :: nat
  by presburger

lemma padded_chunk:
  assumes "even c" "i * c < length content"
  defines "bytes \<equiv> take (min c (length content - i * c)) (drop (i * c) content)"
  shows "bytes @ replicate (length bytes mod 2) 0 = take c (drop (i * c) (padded content))"
proof (cases "(i + 1) * c \<le> length content")
  case True
  then have "c \<le> length content - i * c" by simp
  then have "bytes = take c (drop (i * c) content)" "length bytes = c"
    by (simp_all add: bytes_def min_def)
  with assms(1) \<open>c \<le> length content - i * c\<close> show ?thesis by (simp add: padded_def even_iff_mod_2_eq_zero)
next
  case False
  then have "length content < c + i * c" by simp
  with assms(2) have lt: "length content - i * c < c" by linarith
  then have b: "bytes = drop (i * c) content" "length bytes = length content - i * c"
    by (simp_all add: bytes_def min_def)
  have "even (i * c)" using assms(1) by simp
  with assms(2) have m: "length bytes mod 2 = length content mod 2"
    unfolding b(2) by (metis add_diff_inverse_nat even_add less_imp_le_nat mod2_eq_if not_less)
  have "length bytes + length bytes mod 2 \<le> c"
    using even_room [OF lt assms(1)] unfolding b(2) .
  then have "take c (bytes @ replicate (length bytes mod 2) 0) = bytes @ replicate (length bytes mod 2) 0" by simp
  moreover have "drop (i * c) (padded content) = bytes @ replicate (length bytes mod 2) 0"
    using assms(2) by (simp add: padded_def b(1) m [unfolded b(2)])
  ultimately show ?thesis by simp
qed

definition serving :: "nat \<Rightarrow> u8 list \<Rightarrow> nat \<Rightarrow> nat \<Rightarrow> dlplay \<Rightarrow> bool" where
  "serving aid content c i s \<longleftrightarrow> station_ready aid s
     \<and> st_state (station_of s aid) = DLPLAY_SSTATE_DATA \<and> \<not> st_pending (station_of s aid)
     \<and> \<not> st_ended (station_of s aid) \<and> st_index (station_of s aid) = of_nat i
     \<and> st_size (station_of s aid) = length content \<and> st_chunk (station_of s aid) = c \<and> even c
     \<and> (\<exists>rd. dlplay_station_read s = Some rd \<and> content_read rd (st_handle (station_of s aid)) content)"

definition tick :: "nat \<Rightarrow> dlplay \<Rightarrow> dlplay" where
  "tick aid = upd_station aid (\<lambda>t. t\<lparr>st_wait := st_wait t + 1\<rparr>)"

lemma tick_sel [simp]:
  "shared (tick aid s) = shared s" "length (dlplay_clients (tick aid s)) = length (dlplay_clients s)"
  "dlplay_station_read (tick aid s) = dlplay_station_read s"
  "aid < length (dlplay_clients s) \<Longrightarrow> station_of (tick aid s) aid =
     (station_of s aid)\<lparr>st_wait := st_wait (station_of s aid) + 1\<rparr>"
  by (simp_all add: tick_def)

lemma serving_tick: "serving aid content c i s \<Longrightarrow> serving aid content c i (tick aid s)"
  by (auto simp: serving_def station_ready_def)

lemma Serve_data:
  assumes "serving aid content c i s"
  shows "Wifi_DlPlayStationServe aid s = Wifi_DlPlayStationSendChunk aid (tick aid s)"
proof -
  have l: "aid < length (dlplay_clients s)" using assms by (simp add: serving_def station_ready_def)
  with assms show ?thesis
    by (simp add: Wifi_DlPlayStationServe_def Let_def tick_def serving_def station_consts
        split: option.split prod.split bool.split)
qed

fun serve_all :: "nat \<Rightarrow> nat \<Rightarrow> dlplay \<Rightarrow> dlplay option" where
  "serve_all 0 aid s = Some s"
| "serve_all (Suc n) aid s =
     (case Wifi_DlPlayStationServe aid s of Some (True, s) \<Rightarrow> serve_all n aid s | _ \<Rightarrow> None)"

lemma sends_only_station: "sends_only s s' \<Longrightarrow> station_of s' aid = station_of s aid"
  by (simp add: sends_only_fields)

lemma Serve_chunk:
  assumes inv: "serving aid content c i s" and more: "i * c < length content" "i < 65536"
    and holds: "tx_holds (shared s) ps" and call: "Wifi_DlPlayStationServe aid s = Some (True, s')"
  shows "serving aid content c (i + 1) s' \<and> MacAddr (shared s') = MacAddr (shared s)
    \<and> (\<exists>p body. tx_holds (shared s') (ps @ [p]) \<and> carries_body (shared s) body p
        \<and> chunk_of body = (of_nat i, take c (drop (i * c) (padded content))))"
proof -
  let ?s = "tick aid s" and ?n = "min c (length content - i * c)"
  let ?t = "station_of ?s aid" and ?bytes = "take ?n (drop (i * c) content)"
  note inv' = serving_tick [OF inv]
  obtain rd where rd: "dlplay_station_read ?s = Some rd" "content_read rd (st_handle ?t) content"
    using inv' by (auto simp: serving_def)
  have idx: "unat (st_index ?t) = i" "st_chunk ?t = c" "st_size ?t = length content" "st_index ?t = of_nat i"
    using inv' more(2) by (simp_all add: serving_def unat_of_nat)
  have len: "length ?bytes = ?n" using more(1) by simp
  have "i * c + ?n \<le> length content" using more(1) by simp
  with rd(2) have bytes: "rd (st_handle ?t) (i * c) ?n = Some ?bytes" by (auto simp: content_read_def)
  have ready: "station_ready aid ?s" using inv' by (simp add: serving_def)
  let ?h = "station_head (st_port ?t) (2 + (?n + ?n mod 2))" and ?p = "chunk_payload (of_nat i) ?bytes"
  let ?f = "station_foot aid (st_port ?t) ?s" and ?q = "count_seq aid (st_port ?t) ?s"
  have "Wifi_DlPlayStationSendChunk aid ?s = (case send_frame ?h ?p ?f ?q of
       (ok, s') \<Rightarrow> Some (ok, if ok then chunk_sent aid ?n ?t s' else s'))"
    using SendChunk_data [OF ready refl _ refl rd(1), of ?bytes, unfolded idx(1,2,3), unfolded idx(4),
      OF more(1) bytes len] .
  with call obtain s1 where s1: "send_frame ?h ?p ?f ?q = (True, s1)" and s': "s' = chunk_sent aid ?n ?t s1"
    unfolding Serve_data [OF inv] by (auto split: prod.splits if_splits)
  note only = send_frame_sends_only [OF s1]
  note same = sends_only_fields [OF only]
  have l: "aid < length (dlplay_clients ?s)" "aid < length (dlplay_clients s1)"
    using ready same by (simp_all add: station_ready_def)
  have st1: "station_of s1 aid = ?t\<lparr>st_seq := (st_seq ?t)[st_port ?t := st_seq ?t ! st_port ?t + 1]\<rparr>"
    using sends_only_station [OF only, of aid] count_seq_station [OF l(1)] by simp
  have st': "station_of s' aid = (station_of s1 aid)\<lparr>st_index := st_index (station_of s1 aid) + 1\<rparr>"
    using l(2) by (simp add: s' chunk_sent_def client_upd_client)
  have sel: "shared s' = shared s1" "dlplay_station_read s' = dlplay_station_read s1"
    "length (dlplay_clients s') = length (dlplay_clients s1)"
    by (simp_all add: s' chunk_sent_def)
  have inv1: "serving aid content c (i + 1) s'"
  proof -
    define t where "t = ?t"
    have t': "station_of s' aid = t\<lparr>st_seq := (st_seq t)[st_port t := st_seq t ! st_port t + 1],
        st_index := st_index t + 1\<rparr>" unfolding st' st1 t_def by simp
    have len': "length (dlplay_clients s') = length (dlplay_clients s)" using same(1) sel by simp
    have rd': "dlplay_station_read s' = Some rd" using same(13) sel rd(1) by simp
    show ?thesis
      using inv' rd(2) unfolding serving_def station_ready_def t' len' rd' t_def [symmetric] tick_sel by simp
  qed
  have "?n \<le> 126" using ready by (auto simp: station_ready_def idx(2) min_def)
  then have "length ?h + length ?p + length ?f \<le> DLPLAY_CMD_FRAME_SIZE"
    using len by (simp add: chunk_payload_def DLPLAY_CMD_FRAME_SIZE_def)
  moreover have "tx_holds (shared ?q) ps" using holds by simp
  ultimately have "\<exists>p. tx_holds (shared s1) (ps @ [p]) \<and> carries_body (shared s) (?h @ ?p @ ?f) p"
    using send_frame_carries [OF _ _ s1, of ps] unfolding count_seq_sel tick_sel by blast
  then obtain p where "tx_holds (shared s1) (ps @ [p])" "carries_body (shared s) (?h @ ?p @ ?f) p" by blast
  moreover have "chunk_of (?h @ ?p @ ?f) = (of_nat i, take c (drop (i * c) (padded content)))"
  proof -
    have "even c" using inv by (simp add: serving_def)
    then have "?p = le16 (of_nat i) @ take c (drop (i * c) (padded content))"
      using padded_chunk [of c i content] more(1) unfolding chunk_payload_def by simp
    then show ?thesis using chunk_of_body [of ?h ?f] by simp
  qed
  moreover have "MacAddr (shared s') = MacAddr (shared s)" using same sel by simp
  ultimately show ?thesis using inv1 unfolding sel by blast
qed

lemma Serve_end:
  assumes inv: "serving aid content c i s" and none: "length content \<le> i * c" "i < 65536"
    and holds: "tx_holds (shared s) ps" and call: "Wifi_DlPlayStationServe aid s = Some (True, s')"
  shows "st_ended (station_of s' aid)
    \<and> (\<exists>p body. tx_holds (shared s') (ps @ [p]) \<and> carries_body (shared s) body p \<and> chunk_of body = (0xFFFF, []))"
proof -
  let ?s = "tick aid s"
  let ?t = "station_of ?s aid"
  note inv' = serving_tick [OF inv]
  have idx: "unat (st_index ?t) = i" "st_chunk ?t = c" "st_size ?t = length content"
    using inv' none(2) by (simp_all add: serving_def unat_of_nat)
  have ready: "station_ready aid ?s" using inv' by (simp add: serving_def)
  let ?h = "station_head (st_port ?t) 2" and ?p = "le16 0xFFFF"
  let ?f = "station_foot aid (st_port ?t) ?s" and ?q = "count_seq aid (st_port ?t) ?s"
  have "Wifi_DlPlayStationSendChunk aid ?s = (case send_frame ?h ?p ?f ?q of
       (ok, s') \<Rightarrow> Some (ok, if ok then upd_diag (\<lambda>g. g\<lparr>dg_station_end_sent := 1\<rparr>)
                                 (upd_station aid (\<lambda>t. t\<lparr>st_ended := True\<rparr>) s') else s'))"
    by (rule SendChunk_end [OF ready refl]) (use none(1) in \<open>simp add: idx\<close>)
  with call obtain s1 where s1: "send_frame ?h ?p ?f ?q = (True, s1)"
    and s': "s' = upd_diag (\<lambda>g. g\<lparr>dg_station_end_sent := 1\<rparr>) (upd_station aid (\<lambda>t. t\<lparr>st_ended := True\<rparr>) s1)"
    unfolding Serve_data [OF inv] by (auto split: prod.splits if_splits)
  note same = sends_only_fields [OF send_frame_sends_only [OF s1]]
  have l: "aid < length (dlplay_clients s1)" using ready same by (simp add: station_ready_def)
  then have "st_ended (station_of s' aid)" unfolding s' upd_diag_sel by simp
  moreover have "length ?h + length ?p + length ?f \<le> DLPLAY_CMD_FRAME_SIZE" by (simp add: DLPLAY_CMD_FRAME_SIZE_def)
  moreover have "tx_holds (shared ?q) ps" using holds by simp
  ultimately have "\<exists>p. tx_holds (shared s1) (ps @ [p]) \<and> carries_body (shared s) (?h @ ?p @ ?f) p"
    using send_frame_carries [OF _ _ s1, of ps] unfolding count_seq_sel tick_sel by blast
  moreover have "chunk_of (?h @ ?p @ ?f) = (0xFFFF, [])" using chunk_of_body [of ?h ?f "0xFFFF" "[]"] by simp
  moreover have "shared s' = shared s1" by (simp add: s')
  ultimately show ?thesis using \<open>st_ended (station_of s' aid)\<close> by auto
qed

lemma Serve_chunks:
  "\<lbrakk>serving aid content c i s; i + n \<le> 65535; \<forall>k. i \<le> k \<and> k < i + n \<longrightarrow> k * c < length content;
    tx_holds (shared s) ps; serve_all (n + m) aid s = Some s'\<rbrakk> \<Longrightarrow>
   \<exists>s1 new bodies. serve_all m aid s1 = Some s' \<and> serving aid content c (i + n) s1
     \<and> MacAddr (shared s1) = MacAddr (shared s)
     \<and> tx_holds (shared s1) (ps @ new) \<and> list_all2 (carries_body (shared s)) bodies new
     \<and> map chunk_of bodies = map (\<lambda>k. (of_nat k, take c (drop (k * c) (padded content)))) [i..<i + n]"
proof (induction n arbitrary: i s ps)
  case 0
  then show ?case by (intro exI [of _ s] exI [of _ "[]"]) simp
next
  case (Suc n)
  from Suc.prems(5) obtain s1 where s1: "Wifi_DlPlayStationServe aid s = Some (True, s1)"
    "serve_all (n + m) aid s1 = Some s'"
    by (auto split: option.splits prod.splits bool.splits)
  have more: "i * c < length content" "i < 65536" using Suc.prems(2,3) by auto
  from Serve_chunk [OF Suc.prems(1) more Suc.prems(4) s1(1)] obtain p body where
    inv: "serving aid content c (i + 1) s1" and mac: "MacAddr (shared s1) = MacAddr (shared s)"
    and p: "tx_holds (shared s1) (ps @ [p])" "carries_body (shared s) body p"
      "chunk_of body = (of_nat i, take c (drop (i * c) (padded content)))" by blast
  have "\<exists>s2 new bodies. serve_all m aid s2 = Some s' \<and> serving aid content c (i + 1 + n) s2
     \<and> MacAddr (shared s2) = MacAddr (shared s1)
     \<and> tx_holds (shared s2) ((ps @ [p]) @ new) \<and> list_all2 (carries_body (shared s1)) bodies new
     \<and> map chunk_of bodies = map (\<lambda>k. (of_nat k, take c (drop (k * c) (padded content)))) [i + 1..<i + 1 + n]"
    by (rule Suc.IH [OF inv _ _ p(1) s1(2)]) (use Suc.prems(2,3) in auto)
  then obtain s2 new bodies where s2: "serve_all m aid s2 = Some s'" "serving aid content c (i + 1 + n) s2"
    "MacAddr (shared s2) = MacAddr (shared s1)"
    "tx_holds (shared s2) ((ps @ [p]) @ new)" "list_all2 (carries_body (shared s1)) bodies new"
    "map chunk_of bodies = map (\<lambda>k. (of_nat k, take c (drop (k * c) (padded content)))) [i + 1..<i + 1 + n]" by blast
  have "[i..<i + Suc n] = i # [i + 1..<i + 1 + n]" by (simp add: upt_conv_Cons)
  with s2 p mac carries_body_mac [OF mac] show ?case
    by (intro exI [of _ s2] exI [of _ "p # new"] exI [of _ "body # bodies"]) simp
qed

text \<open>
  What the client has put together: the chunks before the marker, cut at the length it was told.
\<close>

definition received :: "nat \<Rightarrow> u8 list list \<Rightarrow> u8 list" where
  "received n bodies = take n (concat (map snd (takeWhile (\<lambda>(i, _). i \<noteq> DLPLAY_STATION_INDEX_END) (map chunk_of bodies))))"

definition chunk_count :: "nat \<Rightarrow> nat \<Rightarrow> nat" where
  "chunk_count c n = (n + (c - 1)) div c"

lemma chunk_count_bounds:
  assumes "0 < c"
  shows "n \<le> chunk_count c n * c" "k < chunk_count c n \<Longrightarrow> k * c < n"
proof -
  have d: "n + (c - 1) < (chunk_count c n + 1) * c" "chunk_count c n * c \<le> n + (c - 1)"
    unfolding chunk_count_def using dividend_less_div_times [OF assms, of "n + (c - 1)"] by (simp_all add: algebra_simps)
  with assms show "n \<le> chunk_count c n * c" by (simp add: algebra_simps)
  assume "k < chunk_count c n"
  then have "(k + 1) * c \<le> chunk_count c n * c" by (intro mult_right_mono) auto
  with d(2) assms show "k * c < n" by (simp add: algebra_simps)
qed


text \<open>With room in the queue a turn of the console succeeds.\<close>

lemma Serve_room:
  assumes inv: "serving aid content c i s" "i < 65536" and room: "tx_room (shared s) (n + 568)"
  shows "\<exists>s'. Wifi_DlPlayStationServe aid s = Some (True, s') \<and> tx_room (shared s') n"
proof -
  let ?s = "tick aid s"
  let ?t = "station_of ?s aid" and ?n = "min c (length content - i * c)"
  note inv' = serving_tick [OF inv(1)]
  obtain rd where rd: "dlplay_station_read ?s = Some rd" "content_read rd (st_handle ?t) content"
    using inv' by (auto simp: serving_def)
  have idx: "unat (st_index ?t) = i" "st_chunk ?t = c" "st_size ?t = length content"
    using inv' inv(2) by (simp_all add: serving_def unat_of_nat)
  have ready: "station_ready aid ?s" and c: "c \<le> 126" using inv' by (auto simp: serving_def station_ready_def)
  let ?q = "count_seq aid (st_port ?t) ?s"
  have room': "tx_room (shared ?q) (n + 568)" using room by simp
  show ?thesis
  proof (cases "i * c < length content")
    case True
    let ?bytes = "take ?n (drop (i * c) content)"
    have len: "length ?bytes = ?n" using True by simp
    have "i * c + ?n \<le> length content" using True by simp
    with rd(2) have bytes: "rd (st_handle ?t) (i * c) ?n = Some ?bytes" by (auto simp: content_read_def)
    note sc = SendChunk_data [OF ready refl _ refl rd(1), of ?bytes, unfolded idx, OF True bytes len]
    have "length (station_head (st_port ?t) (2 + (?n + ?n mod 2))) + length (chunk_payload (st_index ?t) ?bytes)
        + length (station_foot aid (st_port ?t) ?s) \<le> 514"
      using len c by (simp add: chunk_payload_def)
    from send_frame_room [OF room' this] sc show ?thesis
      unfolding Serve_data [OF inv(1)] by (force simp: chunk_sent_def)
  next
    case False
    then have e: "st_size ?t \<le> unat (st_index ?t) * st_chunk ?t" by (simp add: idx)
    have "length (station_head (st_port ?t) 2) + length (le16 0xFFFF) + length (station_foot aid (st_port ?t) ?s) \<le> 514"
      by simp
    from send_frame_room [OF room' this] SendChunk_end [OF ready refl e] show ?thesis
      unfolding Serve_data [OF inv(1)] by (force simp: chunk_sent_def)
  qed
qed

definition station_host :: "nat \<Rightarrow> u8 list \<Rightarrow> dlplay" where
  "station_host aid content = (dlplay_start cleared empty_beacon)
     \<lparr>dlplay_clients := (replicate 16 blank_client)[aid := blank_client\<lparr>stage := DLPLAY_PSTATE_STATION,
        station := no_station\<lparr>st_state := DLPLAY_SSTATE_DATA, st_size := length content, st_port := 14,
          st_stream := 1, st_chunk := 30\<rparr>\<rparr>],
      dlplay_station_open := Some (\<lambda>_. Some (length content, 0)),
      dlplay_station_read := Some (\<lambda>_ off n. Some (take n (drop off content)))\<rparr>"

lemma station_host_serving: "aid < 16 \<Longrightarrow> serving aid content 30 0 (station_host aid content)"
  by (simp add: serving_def station_ready_def station_host_def content_read_def dlplay_start_def no_station_def)

lemma station_host_shared [simp]: "shared (station_host aid content) = cleared"
  by (simp add: station_host_def dlplay_start_def)



text \<open>
  C28. The number of a chunk is 16 bits wide: a content of more than 65535 chunks is never ended.
  After the last number the host starts again from the first chunk, and however often it serves the
  console, the transfer does not end.
\<close>

theorem long_content_never_ends:
  assumes "serving aid content c i s" "i < 65536" "65535 * c < length content" "tx_holds (shared s) ps"
    and "serve_all n aid s = Some s'"
  shows "\<not> st_ended (station_of s' aid)"
  using assms
proof (induction n arbitrary: i s ps)
  case 0
  then show ?case by (simp add: serving_def)
next
  case (Suc n)
  from Suc.prems(5) obtain s1 where s1: "Wifi_DlPlayStationServe aid s = Some (True, s1)" "serve_all n aid s1 = Some s'"
    by (auto split: option.splits prod.splits bool.splits)
  have "i * c \<le> 65535 * c" using Suc.prems(2) by (intro mult_right_mono) auto
  with Suc.prems(3) have "i * c < length content" by linarith
  from Serve_chunk [OF Suc.prems(1) this Suc.prems(2,4) s1(1)] obtain p where
    n: "serving aid content c (i + 1) s1" "tx_holds (shared s1) (ps @ [p])" by blast
  show ?case
  proof (cases "i + 1 < 65536")
    case True
    from Suc.IH [OF n(1) True Suc.prems(3) n(2) s1(2)] show ?thesis .
  next
    case False
    with Suc.prems(2) have "i + 1 = 65536" by simp
    with n(1) have "serving aid content c 0 s1" by (simp add: serving_def)
    from Suc.IH [OF this _ Suc.prems(3) n(2) s1(2)] show ?thesis by simp
  qed
qed

lemma long_content_never_ends_witness:
  "\<exists>s'. serve_all 1 3 (station_host 3 (replicate 2000000 7)) = Some s' \<and> \<not> st_ended (station_of s' 3)"
proof -
  let ?s = "station_host 3 (replicate 2000000 7)"
  have inv: "serving 3 (replicate 2000000 7) 30 0 ?s" by (rule station_host_serving) simp
  have "tx_room (shared ?s) (0 + 568)" by (simp add: tx_room_def cleared_def WIFI_TXBUFFER_SIZE_def)
  from Serve_room [OF inv _ this] obtain s1 where s1: "Wifi_DlPlayStationServe 3 ?s = Some (True, s1)" by auto
  have run: "serve_all 1 3 ?s = Some s1" using s1 by simp
  have "tx_holds (shared ?s) []" by (simp add: tx_holds_cleared)
  from long_content_never_ends [OF inv _ _ this run] run show ?thesis by simp
qed

section \<open>A request is answered\<close>

text \<open>No frame of the host fits in the transmit queue.\<close>

definition tx_full :: "Wifi_MainStruct \<Rightarrow> bool" where
  "tx_full d \<longleftrightarrow> (\<forall>payload. length payload \<le> 514 \<longrightarrow> \<not> fst (Wifi_MultiplayerHostCmdTxFrame payload d))"

lemma CmdSend_refused:
  assumes "tx_full (shared s)" and "length h + length p + length f \<le> 514"
  shows "fst (send_frame h p f s) = False" "txbuf (shared (snd (send_frame h p f s))) = txbuf (shared s)"
proof -
  let ?frame = "take (dlplay_cmd_size (built h p f s)) (dlplay_cmd (built h p f s))"
  obtain d where c: "Wifi_MultiplayerHostCmdTxFrame ?frame (shared s) = (False, d)"
  proof -
    have "length ?frame \<le> 514" using assms(2) by (simp add: built_def)
    then have "\<not> fst (Wifi_MultiplayerHostCmdTxFrame ?frame (shared s))" using assms(1) by (simp add: tx_full_def)
    with that show thesis by (metis (full_types) prod.collapse)
  qed
  then have "d = stat_add WSTAT_TXQUEUEDREJECTED 1 (shared s)"
    by (auto simp: Wifi_MultiplayerHostCmdTxFrame_def tx_queue_frame_def Let_def split: option.splits prod.splits)
  with c show "fst (send_frame h p f s) = False" "txbuf (shared (snd (send_frame h p f s))) = txbuf (shared s)"
    by (simp_all add: send_frame_def Wifi_DlPlayCmdSend_def Let_def stat_addw_def)
qed

text \<open>
  C29. The length of a content is announced once and the host does not look whether it could queue
  the announcement: with a full transmit queue nothing is sent, and two turns later the host starts
  with the chunks all the same.
\<close>

theorem length_announcement_lost:
  assumes "aid < length (dlplay_clients s)" "length (st_seq (station_of s aid)) = 16"
    and "st_state (station_of s aid) = DLPLAY_SSTATE_SEND_DELAY" "st_wait (station_of s aid) = 0"
      "\<not> st_pending (station_of s aid)"
    and full: "tx_full (shared s)"
  shows "\<exists>s1 s2 s3. Wifi_DlPlayStationServe aid s = Some (True, s1) \<and> Wifi_DlPlayStationServe aid s1 = Some (False, s2)
    \<and> Wifi_DlPlayStationServe aid s2 = Some (False, s3) \<and> st_state (station_of s3 aid) = DLPLAY_SSTATE_DATA
    \<and> txbuf (shared s3) = txbuf (shared s)"
proof -
  let ?s = "tick aid s"
  let ?s1 = "Wifi_DlPlayStationSendLength aid ?s"
  have t: "station_of ?s aid = (station_of s aid)\<lparr>st_wait := 1\<rparr>" using assms(1,4) by simp
  have one: "Wifi_DlPlayStationServe aid s = Some (True, ?s1)"
    using assms(1,3,4,5) by (simp add: Wifi_DlPlayStationServe_def Let_def tick_def)
  obtain h p f where s1: "?s1 = snd (send_frame h p f (count_seq aid 13 ?s))" "length h + length p + length f \<le> 514"
    using SendLength_eq [of aid ?s] assms(1,2) by simp
  have full': "tx_full (shared (count_seq aid 13 ?s))" using full by simp
  obtain ok where "send_frame h p f (count_seq aid 13 ?s) = (ok, ?s1)" unfolding s1(1) by (metis prod.collapse)
  note same = sends_only_fields [OF send_frame_sends_only [OF this]]
  have l: "aid < length (dlplay_clients ?s1)" "aid < length (dlplay_clients ?s)" using same(1) assms(1) by simp_all
  have st1: "st_state (station_of ?s1 aid) = DLPLAY_SSTATE_SEND_DELAY" "st_wait (station_of ?s1 aid) = 1"
    "\<not> st_pending (station_of ?s1 aid)"
    unfolding same(1) count_seq_station [OF l(2)] t using assms by simp_all
  have two: "Wifi_DlPlayStationServe aid ?s1 = Some (False, tick aid ?s1)"
    using l(1) st1 by (simp add: Wifi_DlPlayStationServe_def Let_def tick_def station_consts)
  let ?s2 = "tick aid ?s1"
  let ?s3 = "upd_station aid (\<lambda>t. t\<lparr>st_wait := 0, st_state := DLPLAY_SSTATE_DATA\<rparr>) (tick aid ?s2)"
  have three: "Wifi_DlPlayStationServe aid ?s2 = Some (False, ?s3)"
    using l(1) st1 by (simp add: Wifi_DlPlayStationServe_def Let_def tick_def station_consts)
  have "st_state (station_of ?s3 aid) = DLPLAY_SSTATE_DATA" using l(1) by simp
  moreover have "txbuf (shared ?s3) = txbuf (shared s)"
    using CmdSend_refused(2) [OF full' s1(2)] by (simp add: s1(1))
  ultimately show ?thesis using one two three by blast
qed

lemma length_announcement_lost_witness:
  "\<exists>s s1 s2 s3. st_state (station_of s 3) = DLPLAY_SSTATE_SEND_DELAY
    \<and> Wifi_DlPlayStationServe 3 s = Some (True, s1) \<and> Wifi_DlPlayStationServe 3 s1 = Some (False, s2)
    \<and> Wifi_DlPlayStationServe 3 s2 = Some (False, s3) \<and> st_state (station_of s3 3) = DLPLAY_SSTATE_DATA
    \<and> txbuf (shared s3) = txbuf (shared s)"
proof -
  let ?d = "cleared\<lparr>txbuf := (txbuf cleared)\<lparr>ring_write := 24572\<rparr>\<rparr>"
  let ?s = "upd_shared (\<lambda>_. ?d) (upd_station 3 (\<lambda>t. t\<lparr>st_state := DLPLAY_SSTATE_SEND_DELAY\<rparr>) (station_host 3 [1]))"
  have "tx_full ?d"
    unfolding tx_full_def
  proof (intro allI impI)
    fix payload :: "u8 list" assume n: "length payload \<le> 514"
    have "(length payload + 47) div 4 \<le> 140" using n by presburger
    then have "u32_add 24572 (4 + (length payload + 47) div 4 * 4 + 4) \<ge> WIFI_TXBUFFER_SIZE"
      by (subst u32_add_small) (simp_all add: WIFI_TXBUFFER_SIZE_def)
    moreover have "u32_add (u32_add 4 (round_up_32 (u32_add (u32_add 40 (length payload)) 4))) 4
        = 4 + (length payload + 47) div 4 * 4 + 4" using n by simp
    ultimately show "\<not> fst (Wifi_MultiplayerHostCmdTxFrame payload ?d)"
      unfolding Wifi_MultiplayerHostCmdTxFrame_def tx_queue_frame_def Wifi_TxBufferAllocBuffer_def ring_alloc_def Let_def
      by (simp add: cleared_def)
  qed
  then have full: "tx_full (shared ?s)" by (simp add: upd_shared_def)
  have "3 < length (dlplay_clients ?s)" "length (st_seq (station_of ?s 3)) = 16"
    "st_state (station_of ?s 3) = DLPLAY_SSTATE_SEND_DELAY" "st_wait (station_of ?s 3) = 0" "\<not> st_pending (station_of ?s 3)"
    by (simp_all add: upd_shared_def upd_station_def upd_client_def station_host_def dlplay_start_def no_station_def)
  from length_announcement_lost [OF this full] this(3) show ?thesis by blast
qed

end
