(* ===== verification/Dlplay_Stream.thy ===== *)
theory Dlplay_Stream
  imports Dlplay_Frames
begin

text \<open>
  Which blocks of the program go out (source/arm9/ntr/dlplay/protocol.c): first what the clients
  ask for, one frame each, then the blocks after them, as far ahead as a client can call the stream
  back from.
\<close>

section \<open>Definitions\<close>

definition DLPLAY_BLOCKS_PER_UPDATE_MAX :: int where "DLPLAY_BLOCKS_PER_UPDATE_MAX = 8"
definition DLPLAY_SEND_THRESHOLD_MAX :: int where "DLPLAY_SEND_THRESHOLD_MAX = 256"

definition Wifi_DlPlaySetPace :: "int \<Rightarrow> int \<Rightarrow> dlplay \<Rightarrow> dlplay" where
  "Wifi_DlPlaySetPace per_update ahead s =
     (let per_update = (if per_update < 1 then 1 else per_update);
          per_update = (if per_update > DLPLAY_BLOCKS_PER_UPDATE_MAX then DLPLAY_BLOCKS_PER_UPDATE_MAX else per_update);
          ahead = (if ahead < per_update + 2 then per_update + 2 else ahead);
          ahead = (if ahead > DLPLAY_SEND_THRESHOLD_MAX then DLPLAY_SEND_THRESHOLD_MAX else ahead)
      in s\<lparr>dlplay_per_update := nat per_update, dlplay_ahead := nat ahead\<rparr>)"

text \<open>One client, in the loop that gathers the highest block asked for and the distinct ones.\<close>

definition gather_client :: "dlplay \<Rightarrow> nat \<Rightarrow> nat \<times> nat list \<Rightarrow> nat \<times> nat list" where
  "gather_client s i acc =
     (case acc of (next, wanted) \<Rightarrow>
        let aid = 1 + (unat (dlplay_rotate s) + i) mod WIFI_MAX_MULTIPLAYER_CLIENTS; c = client s aid in
        if stage c \<noteq> DLPLAY_PSTATE_SEND_PROCEED then (next, wanted)
        else
          let next = (if next_block c > next then next_block c else next) in
          if next_block c \<ge> total_blocks (dlplay_rom s) then (next, wanted)
          else if next_block c \<notin> set wanted \<and> length wanted < dlplay_per_update s
          then (next, wanted @ [next_block c])
          else (next, wanted))"

definition gathered :: "dlplay \<Rightarrow> nat \<times> nat list" where
  "gathered s = fold (gather_client s) [0..<WIFI_MAX_MULTIPLAYER_CLIENTS] (0, [])"

text \<open>The two sending loops. They stop at the first frame that is not queued; the number of frames is returned.\<close>

fun send_wanted :: "nat list \<Rightarrow> u16 \<Rightarrow> u8 \<Rightarrow> dlplay \<Rightarrow> nat \<times> dlplay" where
  "send_wanted [] dest file_id s = (0, s)"
| "send_wanted (k # ks) dest file_id s =
     (case Wifi_DlPlaySendBlock (int k) dest file_id s of
        (False, s) \<Rightarrow> (0, s)
      | (True, s) \<Rightarrow> (case send_wanted ks dest file_id s of (n, s) \<Rightarrow> (n + 1, s)))"

fun send_stream :: "nat \<Rightarrow> nat \<Rightarrow> nat list \<Rightarrow> u16 \<Rightarrow> u8 \<Rightarrow> dlplay \<Rightarrow> nat \<times> dlplay" where
  "send_stream 0 next wanted dest file_id s = (0, s)"
| "send_stream (Suc i) next wanted dest file_id s =
     (if dlplay_block s > next + dlplay_ahead s then (0, s)
      else if dlplay_block s \<ge> total_blocks (dlplay_rom s) then (0, s)
      else if dlplay_block s \<in> set wanted
      then send_stream i next wanted dest file_id (s\<lparr>dlplay_block := dlplay_block s + 1\<rparr>)
      else
        (case Wifi_DlPlaySendBlock (int (dlplay_block s)) dest file_id s of
           (False, s) \<Rightarrow> (0, s)
         | (True, s) \<Rightarrow>
             (case send_stream i next wanted dest file_id (s\<lparr>dlplay_block := dlplay_block s + 1\<rparr>) of
                (n, s) \<Rightarrow> (n + 1, s))))"

definition Wifi_DlPlaySendNextBlock :: "u16 \<Rightarrow> u8 \<Rightarrow> dlplay \<Rightarrow> dlplay" where
  "Wifi_DlPlaySendNextBlock dest file_id s =
     (let requested = dlplay_block_requested s;
          s = s\<lparr>dlplay_rotate := dlplay_rotate s + 1\<rparr>
      in case gathered s of (next, wanted) \<Rightarrow>
           let s = s\<lparr>dlplay_block_requested := False, dlplay_next_block := next\<rparr>;
               s = (if requested \<and> (dlplay_block s < next \<or> dlplay_block s > next + dlplay_ahead s)
                    then s\<lparr>dlplay_block := next\<rparr> else s)
           in case send_wanted wanted dest file_id s of (sent_wanted, s) \<Rightarrow>
                (case send_stream (dlplay_per_update s - sent_wanted) next wanted dest file_id s of (streamed, s) \<Rightarrow>
                   if sent_wanted + streamed = 0 then Wifi_DlPlaySendDummy s else s))"

section \<open>What one pass sends\<close>

text \<open>A program all of whose blocks can be sent, and the fields no pass of the stream changes.\<close>

definition rom_ready :: "dlplay \<Rightarrow> bool" where
  "rom_ready s \<longleftrightarrow> total_blocks (dlplay_rom s) \<le> 65536
     \<and> (\<forall>k < total_blocks (dlplay_rom s). \<exists>bytes.
          Wifi_DlPlayRomGetBlock (dlplay_block_size s) (dlplay_rom s) (int k) = Some bytes \<and> length bytes \<le> 504)"

definition keeps :: "dlplay \<Rightarrow> dlplay \<Rightarrow> bool" where
  "keeps s s' \<longleftrightarrow> dlplay_clients s' = dlplay_clients s \<and> dlplay_rom s' = dlplay_rom s
     \<and> dlplay_block_size s' = dlplay_block_size s \<and> dlplay_ahead s' = dlplay_ahead s
     \<and> dlplay_per_update s' = dlplay_per_update s \<and> dlplay_state s' = dlplay_state s
     \<and> dlplay_gather s' = dlplay_gather s \<and> dlplay_boot_mode s' = dlplay_boot_mode s
     \<and> dlplay_rotate s' = dlplay_rotate s
     \<and> clients (shared s') = clients (shared s) \<and> MacAddr (shared s') = MacAddr (shared s)"

lemma keeps_refl [simp]: "keeps s s"
  by (simp add: keeps_def)

lemma keeps_trans: "keeps s t \<Longrightarrow> keeps t u \<Longrightarrow> keeps s u"
  by (simp add: keeps_def)

lemma sends_only_keeps: "sends_only s s' \<Longrightarrow> keeps s s'"
  by (simp add: keeps_def sends_only_fields)

lemma keeps_update [simp]:
  "keeps s (s\<lparr>dlplay_block := b\<rparr>)" "keeps s (s\<lparr>dlplay_packnum := p\<rparr>)"
  "keeps s (s\<lparr>dlplay_block_requested := q, dlplay_next_block := n\<rparr>)" "keeps s (s\<lparr>dlplay_bulk_turn := t\<rparr>)"
  by (simp_all add: keeps_def)

lemma keeps_rom: "keeps s s' \<Longrightarrow> rom_ready s \<Longrightarrow> rom_ready s'"
  by (simp add: keeps_def rom_ready_def)

lemma parsed_rom_ready:
  assumes "Wifi_DlPlayRomParse (dlplay_block_size s) data = Some (Some (dlplay_rom s))"
    and bs: "64 \<le> dlplay_block_size s" "dlplay_block_size s \<le> 504" "length data < 0x7FFF0000"
  shows "rom_ready s"
proof -
  let ?block = "Wifi_DlPlayRomGetBlock (dlplay_block_size s) (dlplay_rom s)"
  have pos: "0 < dlplay_block_size s" "length data + dlplay_block_size s < 4294967296" using bs by linarith+
  note p = parsed_blocks [OF assms(1) pos refl]
  have "\<exists>bytes. ?block (int k) = Some bytes \<and> length bytes \<le> 504" if "k < total_blocks (dlplay_rom s)" for k
  proof -
    have iff: "\<forall>k. 0 \<le> k \<and> k < int (total_blocks (dlplay_rom s)) \<longleftrightarrow> ?block k \<noteq> None" using p by (elim conjE)
    have "0 \<le> int k \<and> int k < int (total_blocks (dlplay_rom s))" using that by simp
    then obtain bytes where b: "?block (int k) = Some bytes" using iff by (metis not_None_eq)
    with p bs(2) have "length bytes \<le> 504" by (meson le_trans)
    with b show ?thesis by blast
  qed
  with parsed_total [OF assms(1) bs] show ?thesis by (simp add: rom_ready_def)
qed

abbreviation the_block :: "dlplay \<Rightarrow> nat \<Rightarrow> u8 list" where
  "the_block s k \<equiv> the (Wifi_DlPlayRomGetBlock (dlplay_block_size s) (dlplay_rom s) (int k))"

text \<open>\<open>queued_blocks s s' file_id ps ks\<close>: the queue of \<open>s'\<close> has the messages of these blocks more.\<close>

definition queued_blocks :: "dlplay \<Rightarrow> dlplay \<Rightarrow> u8 \<Rightarrow> packet list \<Rightarrow> nat list \<Rightarrow> bool" where
  "queued_blocks s s' file_id ps ks \<longleftrightarrow>
     (\<exists>new bodies. tx_holds (shared s') (ps @ new) \<and> list_all2 (carries_body (shared s)) bodies new
        \<and> map (block_of file_id) bodies = map (\<lambda>k. Some (k, the_block s k)) ks)"

lemma queued_none: "tx_holds (shared s') ps \<Longrightarrow> queued_blocks s s' file_id ps []"
  by (simp add: queued_blocks_def)

lemma queued_Cons:
  assumes "tx_holds (shared s1) (ps @ [p]) \<and> carries_body (shared s) body p \<and> block_of file_id body = Some (k, the_block s k)"
    and "keeps s s1" and "queued_blocks s1 s' file_id (ps @ [p]) ks"
  shows "queued_blocks s s' file_id ps (k # ks)"
proof -
  from assms(3) obtain new bodies where n: "tx_holds (shared s') ((ps @ [p]) @ new)"
    "list_all2 (carries_body (shared s1)) bodies new" "map (block_of file_id) bodies = map (\<lambda>k. Some (k, the_block s1 k)) ks"
    by (auto simp: queued_blocks_def)
  have "carries_body (shared s1) = carries_body (shared s)"
    using assms(2) by (intro carries_body_mac) (simp add: keeps_def)
  with n assms(1,2) show ?thesis
    unfolding queued_blocks_def by (intro exI [of _ "p # new"] exI [of _ "body # bodies"]) (simp add: keeps_def)
qed

lemma SendBlock_step:
  assumes "tx_holds (shared s) ps" "rom_ready s" "k < total_blocks (dlplay_rom s)"
    and call: "Wifi_DlPlaySendBlock (int k) dest file_id s = (ok, s')"
  shows "keeps s s'" and "dlplay_block s' = dlplay_block s"
    and "ok \<Longrightarrow> \<exists>p body. tx_holds (shared s') (ps @ [p]) \<and> carries_body (shared s) body p
           \<and> block_of file_id body = Some (k, the_block s k)"
    and "\<not> ok \<Longrightarrow> tx_holds (shared s') ps"
proof -
  obtain bytes where b: "Wifi_DlPlayRomGetBlock (dlplay_block_size s) (dlplay_rom s) (int k) = Some bytes"
    "length bytes \<le> 504" using assms(2,3) by (auto simp: rom_ready_def)
  have k: "k < 65536" using assms(2,3) by (simp add: rom_ready_def)
  let ?s = "s\<lparr>dlplay_packnum := dlplay_packnum s + 1\<rparr>"
  let ?h = "frame_head DLPLAY_FLAGS_NORMAL (6 + length bytes)"
  let ?p = "[4, file_id, 0] @ le16 (of_int (int k)) @ bytes @ [dlplay_packnum s]"
  have frame: "send_frame ?h ?p (client_footer dest s) ?s = (ok, s')"
    using SendBlock_eq [OF b, of dest file_id] call by simp
  note only = send_frame_sends_only [OF frame]
  show "keeps s s'" by (rule keeps_trans [OF _ sends_only_keeps [OF only]]) simp
  show "dlplay_block s' = dlplay_block s" using sends_only_fields(3) [OF only] by simp
  have len: "length ?h + length ?p + length (client_footer dest s) \<le> DLPLAY_CMD_FRAME_SIZE"
    using b(2) by (simp add: DLPLAY_CMD_FRAME_SIZE_def)
  have holds: "tx_holds (shared ?s) ps" using assms(1) by simp
  show "tx_holds (shared s') ps" if "\<not> ok"
    using send_frame_spec [OF holds len frame refl] that holds
    by (auto simp: tx_refused_def tx_holds_def)
  assume ok
  with frame have frame': "send_frame ?h ?p (client_footer dest s) ?s = (True, s')" by simp
  from send_frame_carries [OF holds len frame'] obtain p where
    p: "tx_holds (shared s') (ps @ [p])" "carries_body (shared s) (?h @ ?p @ client_footer dest s) p" by auto
  have body: "?h @ ?p @ client_footer dest s = block_body k file_id bytes (dlplay_packnum s) (client_footer dest s)"
    by (simp add: block_body_def frame_head_def DLPLAY_FLAGS_NORMAL_def)
  from p block_of_body [OF length_footer k, of file_id bytes "dlplay_packnum s" dest s] b
  show "\<exists>p body. tx_holds (shared s') (ps @ [p]) \<and> carries_body (shared s) body p
      \<and> block_of file_id body = Some (k, the_block s k)"
    unfolding body by (metis option.sel)
qed

lemma send_wanted_queued:
  "\<lbrakk>send_wanted ks dest file_id s = (n, s'); tx_holds (shared s) ps; rom_ready s;
    \<forall>k \<in> set ks. k < total_blocks (dlplay_rom s)\<rbrakk> \<Longrightarrow>
   keeps s s' \<and> dlplay_block s' = dlplay_block s \<and> n \<le> length ks \<and> queued_blocks s s' file_id ps (take n ks)"
proof (induction ks arbitrary: s ps n)
  case Nil
  then show ?case by (simp add: queued_none)
next
  case (Cons k ks)
  obtain ok s1 where s1: "Wifi_DlPlaySendBlock (int k) dest file_id s = (ok, s1)" by fastforce
  have k: "k < total_blocks (dlplay_rom s)" using Cons.prems(4) by simp
  note step = SendBlock_step [OF Cons.prems(2,3) k s1]
  show ?case
  proof (cases ok)
    case False
    with s1 step Cons.prems(1) show ?thesis by (auto simp: queued_none)
  next
    case True
    with s1 Cons.prems(1) obtain m where m: "send_wanted ks dest file_id s1 = (m, s')" "n = m + 1"
      by (auto split: prod.splits)
    from step(3) True obtain p body where p: "tx_holds (shared s1) (ps @ [p]) \<and> carries_body (shared s) body p
        \<and> block_of file_id body = Some (k, the_block s k)" by blast
    have "\<forall>k \<in> set ks. k < total_blocks (dlplay_rom s1)" using Cons.prems(4) step(1) by (simp add: keeps_def)
    with Cons.IH [OF m(1) _ keeps_rom [OF step(1) Cons.prems(3)]] p
    have IH: "keeps s1 s' \<and> dlplay_block s' = dlplay_block s1 \<and> m \<le> length ks \<and> queued_blocks s1 s' file_id (ps @ [p]) (take m ks)"
      by blast
    with keeps_trans [OF step(1)] queued_Cons [OF p step(1)] step(2) m(2) show ?thesis by simp
  qed
qed

lemma queued_append:
  assumes "queued_blocks s s1 file_id ps ks" "keeps s s1"
  obtains qs where "tx_holds (shared s1) qs"
    "\<And>s' ks'. queued_blocks s1 s' file_id qs ks' \<Longrightarrow> queued_blocks s s' file_id ps (ks @ ks')"
proof -
  from assms(1) obtain new bodies where n: "tx_holds (shared s1) (ps @ new)" "list_all2 (carries_body (shared s)) bodies new"
    "map (block_of file_id) bodies = map (\<lambda>k. Some (k, the_block s k)) ks" by (auto simp: queued_blocks_def)
  have same: "carries_body (shared s1) = carries_body (shared s)"
    using assms(2) by (intro carries_body_mac) (simp add: keeps_def)
  have "queued_blocks s s' file_id ps (ks @ ks')" if q: "queued_blocks s1 s' file_id (ps @ new) ks'" for s' ks'
  proof -
    from q obtain new' bodies' where n': "tx_holds (shared s') ((ps @ new) @ new')"
      "list_all2 (carries_body (shared s1)) bodies' new'"
      "map (block_of file_id) bodies' = map (\<lambda>k. Some (k, the_block s1 k)) ks'" by (auto simp: queued_blocks_def)
    with n same assms(2) show ?thesis
      unfolding queued_blocks_def
      by (intro exI [of _ "new @ new'"] exI [of _ "bodies @ bodies'"]) (auto simp: keeps_def intro: list_all2_appendI)
  qed
  with n(1) that show thesis by blast
qed

text \<open>The blocks of the stream: in increasing order from its position, inside the window.\<close>

fun stream_of :: "nat \<Rightarrow> nat \<Rightarrow> nat list \<Rightarrow> nat \<Rightarrow> nat list \<Rightarrow> bool" where
  "stream_of from limit wanted n [] \<longleftrightarrow> True"
| "stream_of from limit wanted n (k # ks) \<longleftrightarrow>
     from \<le> k \<and> k \<le> limit \<and> k < n \<and> k \<notin> set wanted \<and> stream_of (k + 1) limit wanted n ks"

lemma stream_of_weaken: "stream_of b limit wanted n ks \<Longrightarrow> a \<le> b \<Longrightarrow> stream_of a limit wanted n ks"
  by (cases ks) auto

lemma stream_of_set:
  "stream_of from limit wanted n ks \<Longrightarrow> distinct ks \<and> (\<forall>k \<in> set ks. from \<le> k \<and> k \<le> limit \<and> k < n \<and> k \<notin> set wanted)"
  by (induction ks arbitrary: "from") fastforce+

lemma send_stream_queued:
  "\<lbrakk>send_stream i next wanted dest file_id s = (n, s'); tx_holds (shared s) ps; rom_ready s\<rbrakk> \<Longrightarrow>
   \<exists>ks. length ks = n \<and> n \<le> i \<and> keeps s s' \<and> queued_blocks s s' file_id ps ks
     \<and> stream_of (dlplay_block s) (next + dlplay_ahead s) wanted (total_blocks (dlplay_rom s)) ks"
proof (induction i arbitrary: s ps n)
  case 0
  then show ?case by (intro exI [of _ "[]"]) (simp add: queued_none)
next
  case (Suc i)
  let ?k = "dlplay_block s" and ?next = "s\<lparr>dlplay_block := dlplay_block s + 1\<rparr>"
  show ?case
  proof (cases "?k > next + dlplay_ahead s \<or> ?k \<ge> total_blocks (dlplay_rom s)")
    case True
    with Suc.prems show ?thesis by (intro exI [of _ "[]"]) (auto simp: queued_none split: if_splits)
  next
    case inside: False
    show ?thesis
    proof (cases "?k \<in> set wanted")
      case True
      with Suc.prems(1) inside have "send_stream i next wanted dest file_id ?next = (n, s')" by simp
      moreover have "tx_holds (shared ?next) ps" "rom_ready ?next"
        using Suc.prems(2,3) keeps_rom [of s ?next] by simp_all
      ultimately obtain ks where "length ks = n" "n \<le> i" "keeps ?next s'" "queued_blocks ?next s' file_id ps ks"
        "stream_of (?k + 1) (next + dlplay_ahead s) wanted (total_blocks (dlplay_rom s)) ks"
        using Suc.IH [of ?next n ps] by auto
      then show ?thesis
        using keeps_trans [of s ?next s'] stream_of_weaken by (intro exI [of _ ks]) (auto simp: queued_blocks_def)
    next
      case False
      obtain ok s1 where s1: "Wifi_DlPlaySendBlock (int ?k) dest file_id s = (ok, s1)" by fastforce
      have k: "?k < total_blocks (dlplay_rom s)" using inside by simp
      note step = SendBlock_step [OF Suc.prems(2,3) k s1]
      show ?thesis
      proof (cases ok)
        case False
        with s1 step Suc.prems(1) inside \<open>?k \<notin> set wanted\<close> show ?thesis
          by (intro exI [of _ "[]"]) (auto simp: queued_none)
      next
        case True
        let ?s2 = "s1\<lparr>dlplay_block := dlplay_block s1 + 1\<rparr>"
        obtain m where m: "send_stream i next wanted dest file_id ?s2 = (m, s')" "n = m + 1"
          using s1 True Suc.prems(1) inside \<open>?k \<notin> set wanted\<close> by (auto split: prod.splits)
        have k2: "keeps s ?s2" by (rule keeps_trans [OF step(1)]) simp
        from step(3) True obtain p body where p: "tx_holds (shared s1) (ps @ [p]) \<and> carries_body (shared s) body p
            \<and> block_of file_id body = Some (?k, the_block s ?k)" by blast
        then have p2: "tx_holds (shared ?s2) (ps @ [p]) \<and> carries_body (shared s) body p
            \<and> block_of file_id body = Some (?k, the_block s ?k)" by simp
        from Suc.IH [OF m(1) _ keeps_rom [OF k2 Suc.prems(3)], of "ps @ [p]"] p2 obtain ks where
          ks: "length ks = m" "m \<le> i" "keeps ?s2 s'" "queued_blocks ?s2 s' file_id (ps @ [p]) ks"
            "stream_of (dlplay_block ?s2) (next + dlplay_ahead ?s2) wanted (total_blocks (dlplay_rom ?s2)) ks" by blast
        have "stream_of (?k + 1) (next + dlplay_ahead s) wanted (total_blocks (dlplay_rom s)) ks"
          using ks(5) step(1,2) by (simp add: keeps_def)
        with ks m(2) inside False queued_Cons [OF p2 k2 ks(4)] keeps_trans [OF k2 ks(3)] show ?thesis
          by (intro exI [of _ "?k # ks"]) auto
      qed
    qed
  qed
qed

section \<open>What the clients ask for\<close>

text \<open>The clients in the order a pass looks at them, and those that take the program.\<close>

definition pass_order :: "dlplay \<Rightarrow> nat list" where
  "pass_order s = map (\<lambda>i. 1 + (unat (dlplay_rotate s) + i) mod 15) [0..<15]"

definition taking :: "dlplay \<Rightarrow> nat \<Rightarrow> bool" where
  "taking s aid \<longleftrightarrow> stage (client s aid) = DLPLAY_PSTATE_SEND_PROCEED"

definition gather_ok :: "dlplay \<Rightarrow> nat list \<Rightarrow> nat \<times> nat list \<Rightarrow> bool" where
  "gather_ok s seen acc \<longleftrightarrow> (case acc of (next, wanted) \<Rightarrow>
     distinct wanted \<and> length wanted \<le> dlplay_per_update s
     \<and> (\<forall>k \<in> set wanted. k < total_blocks (dlplay_rom s) \<and> (\<exists>aid \<in> set seen. taking s aid \<and> next_block (client s aid) = k))
     \<and> (\<forall>aid \<in> set seen. taking s aid \<and> next_block (client s aid) < total_blocks (dlplay_rom s) \<longrightarrow>
          next_block (client s aid) \<in> set wanted \<or> length wanted = dlplay_per_update s))"

definition highest :: "dlplay \<Rightarrow> nat list \<Rightarrow> nat" where
  "highest s seen = fold (\<lambda>aid n. if taking s aid then max n (next_block (client s aid)) else n) seen 0"

lemma gather_client_ok:
  assumes "gather_ok s seen acc" and "aid = 1 + (unat (dlplay_rotate s) + i) mod 15"
  shows "gather_ok s (seen @ [aid]) (gather_client s i acc)"
proof -
  obtain nx wanted where acc: "acc = (nx, wanted)" by (cases acc)
  let ?k = "next_block (client s aid)" and ?total = "total_blocks (dlplay_rom s)"
  have g: "gather_client s i acc =
      (if \<not> taking s aid then (nx, wanted)
       else if ?k \<ge> ?total then (max nx ?k, wanted)
       else if ?k \<notin> set wanted \<and> length wanted < dlplay_per_update s then (max nx ?k, wanted @ [?k])
       else (max nx ?k, wanted))"
    by (simp add: acc gather_client_def Let_def taking_def assms(2) WIFI_MAX_MULTIPLAYER_CLIENTS_def max_def)
  note ok = assms(1) [unfolded acc gather_ok_def prod.case]
  consider "\<not> taking s aid" | "taking s aid" "?k \<ge> ?total"
    | "taking s aid" "?k < ?total" "?k \<notin> set wanted \<and> length wanted < dlplay_per_update s"
    | "taking s aid" "?k < ?total" "\<not> (?k \<notin> set wanted \<and> length wanted < dlplay_per_update s)"
    by linarith
  then show ?thesis
  proof cases
    case 1
    with ok show ?thesis by (simp add: g gather_ok_def; blast)
  next
    case 2
    with ok show ?thesis by (simp add: g gather_ok_def; blast)
  next
    case 3
    with ok show ?thesis by (simp add: g gather_ok_def; blast)
  next
    case 4
    with ok show ?thesis by (simp add: g gather_ok_def; meson le_antisym not_less)
  qed
qed

lemma gathered_ok: "gather_ok s (pass_order s) (gathered s)"
proof -
  have "gather_ok s (map (\<lambda>i. 1 + (unat (dlplay_rotate s) + i) mod 15) [0..<n]) (fold (gather_client s) [0..<n] (0, []))" for n
  proof (induction n)
    case 0
    then show ?case by (simp add: gather_ok_def)
  next
    case (Suc n)
    from gather_client_ok [OF this refl, of n] show ?case by simp
  qed
  then show ?thesis by (simp add: pass_order_def gathered_def WIFI_MAX_MULTIPLAYER_CLIENTS_def)
qed

lemma gathered_highest: "fst (gathered s) = highest s (pass_order s)"
proof -
  have "fst (fold (gather_client s) [0..<n] (0, []))
      = highest s (map (\<lambda>i. 1 + (unat (dlplay_rotate s) + i) mod 15) [0..<n])" for n
    by (induction n)
       (auto simp: highest_def gather_client_def Let_def taking_def WIFI_MAX_MULTIPLAYER_CLIENTS_def max_def
         split: prod.split)
  then show ?thesis by (simp add: pass_order_def gathered_def WIFI_MAX_MULTIPLAYER_CLIENTS_def)
qed

lemma mod_15_reaches:
  assumes "k < 15"
  shows "\<exists>i < 15. (r + i) mod 15 = (k :: nat)"
proof -
  let ?i = "(k + (15 - r mod 15)) mod 15"
  have "(r + ?i) mod 15 = (r mod 15 + (k + (15 - r mod 15))) mod 15" by (simp only: mod_add_left_eq mod_add_right_eq)
  also have "r mod 15 + (k + (15 - r mod 15)) = k + 15"
    using mod_less_divisor [of 15 r] by linarith
  also have "(k + 15) mod 15 = k" using assms by (simp only: mod_add_self2 mod_less)
  finally have "(r + ?i) mod 15 = k" .
  moreover have "?i < 15" by simp
  ultimately show ?thesis by blast
qed

lemma pass_order_set: "set (pass_order s) = {1..15}"
proof -
  let ?r = "unat (dlplay_rotate s)"
  have "aid \<in> set (pass_order s)" if "aid \<in> {1..15}" for aid
  proof -
    have "aid - 1 < 15" using that by auto
    from mod_15_reaches [OF this, of ?r] obtain i where i: "i < 15" "(?r + i) mod 15 = aid - 1" by blast
    then have "aid = 1 + (?r + i) mod 15" "i \<in> {0..<15}" using that by auto
    then show ?thesis unfolding pass_order_def set_map set_upt by (rule image_eqI)
  qed
  moreover have "set (pass_order s) \<subseteq> {1..15}"
  proof -
    have "(?r + i) mod 15 \<le> 14" for i using mod_less_divisor [of 15 "?r + i"] by linarith
    then show ?thesis by (auto simp: pass_order_def)
  qed
  ultimately show ?thesis by blast
qed

lemma queued_keeps: "keeps s t \<Longrightarrow> queued_blocks t s' file_id ps ks = queued_blocks s s' file_id ps ks"
  using carries_body_mac [of "shared t" "shared s"] by (simp add: queued_blocks_def keeps_def)

definition dummy_queued :: "dlplay \<Rightarrow> dlplay \<Rightarrow> packet list \<Rightarrow> bool" where
  "dummy_queued s s' ps \<longleftrightarrow> tx_holds (shared s') ps
     \<or> (\<exists>p foot. tx_holds (shared s') (ps @ [p]) \<and> length foot = 2
          \<and> carries_body (shared s) ([3, 0x11] @ replicate 6 0 @ foot) p)"

lemma SendDummy_queued:
  assumes "tx_holds (shared s) ps"
  shows "dummy_queued s (Wifi_DlPlaySendDummy s) ps" and "keeps s (Wifi_DlPlaySendDummy s)"
proof -
  let ?p = "[0, 0, 0, 0, 0, 0] :: u8 list"
  let ?h = "frame_head DLPLAY_FLAGS_NORMAL (length ?p)" and ?f = "client_footer 0xFFFF s"
  obtain ok s' where call: "send_frame ?h ?p ?f s = (ok, s')" by fastforce
  have eq: "Wifi_DlPlaySendDummy s = s'" unfolding SendDummy_eq call by simp
  have len: "length ?h + length ?p + length ?f \<le> DLPLAY_CMD_FRAME_SIZE" by (simp add: DLPLAY_CMD_FRAME_SIZE_def)
  have body: "?h @ ?p @ ?f = [3, 0x11] @ replicate 6 0 @ ?f"
  proof -
    have "length ?p = 6" by simp
    moreover have "frame_head DLPLAY_FLAGS_NORMAL 6 = [3, 0x11]" by (simp add: frame_head_def DLPLAY_FLAGS_NORMAL_def)
    moreover have "?p = replicate 6 0" by (simp add: numeral_eq_Suc)
    ultimately show ?thesis by metis
  qed
  show "keeps s (Wifi_DlPlaySendDummy s)" unfolding eq by (rule sends_only_keeps [OF send_frame_sends_only [OF call]])
  show "dummy_queued s (Wifi_DlPlaySendDummy s) ps"
  proof (cases ok)
    case True
    with call have "send_frame ?h ?p ?f s = (True, s')" by simp
    from send_frame_carries [OF assms len this] show ?thesis unfolding eq body dummy_queued_def by (meson length_footer)
  next
    case False
    with send_frame_spec [OF assms len call refl] assms show ?thesis
      unfolding eq dummy_queued_def by (auto simp: tx_refused_def tx_holds_def)
  qed
qed

text \<open>The state in which the pass starts to send.\<close>

definition pass_start :: "dlplay \<Rightarrow> dlplay" where
  "pass_start s = (let s1 = s\<lparr>dlplay_rotate := dlplay_rotate s + 1\<rparr>; nx = fst (gathered s1);
      s2 = s1\<lparr>dlplay_block_requested := False, dlplay_next_block := nx\<rparr>
    in if dlplay_block_requested s \<and> (dlplay_block s < nx \<or> dlplay_block s > nx + dlplay_ahead s)
       then s2\<lparr>dlplay_block := nx\<rparr> else s2)"

abbreviation turned :: "dlplay \<Rightarrow> dlplay" where
  "turned s \<equiv> s\<lparr>dlplay_rotate := dlplay_rotate s + 1\<rparr>"

lemma pass_start_keeps: "keeps (turned s) (pass_start s)" "shared (pass_start s) = shared s"
  by (simp_all add: pass_start_def Let_def keeps_def)

lemma SendNextBlock_eq:
  assumes "gathered (s\<lparr>dlplay_rotate := dlplay_rotate s + 1\<rparr>) = (nx, wanted)"
  shows "Wifi_DlPlaySendNextBlock dest file_id s =
    (case send_wanted wanted dest file_id (pass_start s) of (n, t) \<Rightarrow>
      (case send_stream (dlplay_per_update t - n) nx wanted dest file_id t of (m, u) \<Rightarrow>
        if n + m = 0 then Wifi_DlPlaySendDummy u else u))"
  using assms by (auto simp: Wifi_DlPlaySendNextBlock_def pass_start_def Let_def)

lemma pass_spec:
  assumes holds: "tx_holds (shared s) ps" and rom: "rom_ready s" and s': "Wifi_DlPlaySendNextBlock dest file_id s = s'"
    and g: "gathered (turned s) = (nx, wanted)"
  shows "\<exists>first stream. first = take (length first) wanted \<and> length (first @ stream) \<le> dlplay_per_update s
    \<and> stream_of 0 (nx + dlplay_ahead s) wanted (total_blocks (dlplay_rom s)) stream \<and> keeps (turned s) s'
    \<and> (if first @ stream = [] then dummy_queued s s' ps else queued_blocks s s' file_id ps (first @ stream))
    \<and> length first = fst (send_wanted wanted dest file_id (pass_start s))"
proof -
  let ?r = "turned s" and ?s = "pass_start s"
  have rom': "rom_ready ?r" using rom by (simp add: rom_ready_def)
  have qr: "queued_blocks ?r = queued_blocks s" by (intro ext) (simp add: queued_blocks_def)
  note ok = gathered_ok [of ?r, unfolded g gather_ok_def prod.case]
  have w: "\<forall>k \<in> set wanted. k < total_blocks (dlplay_rom ?s)" "length wanted \<le> dlplay_per_update s"
    using ok pass_start_keeps(1) [of s] by (simp_all add: keeps_def)
  obtain n t where nt: "send_wanted wanted dest file_id ?s = (n, t)" by fastforce
  obtain m u where mu: "send_stream (dlplay_per_update t - n) nx wanted dest file_id t = (m, u)" by fastforce
  have "tx_holds (shared ?s) ps" using holds pass_start_keeps(2) by simp
  note one = send_wanted_queued [OF nt this keeps_rom [OF pass_start_keeps(1) rom'] w(1)]
  have st: "keeps ?r t" using keeps_trans [OF pass_start_keeps(1)] one by blast
  have q1: "queued_blocks ?r t file_id ps (take n wanted)"
    using one queued_keeps [OF pass_start_keeps(1)] by blast
  from queued_append [OF q1 st] obtain qs where qs: "tx_holds (shared t) qs"
    "\<And>s' ks'. queued_blocks t s' file_id qs ks' \<Longrightarrow> queued_blocks ?r s' file_id ps (take n wanted @ ks')" by blast
  from send_stream_queued [OF mu qs(1) keeps_rom [OF st rom']] obtain ks where
    ks: "length ks = m" "m \<le> dlplay_per_update t - n" "keeps t u" "queued_blocks t u file_id qs ks"
      "stream_of (dlplay_block t) (nx + dlplay_ahead t) wanted (total_blocks (dlplay_rom t)) ks" by blast
  let ?first = "take n wanted"
  have n: "length ?first = n" "n \<le> dlplay_per_update s" using one w(2) by simp_all
  have su: "keeps ?r u" by (rule keeps_trans [OF st ks(3)])
  have eq: "s' = (if n + m = 0 then Wifi_DlPlaySendDummy u else u)"
    using s' unfolding SendNextBlock_eq [OF g] nt mu prod.case by simp
  have queue: "queued_blocks s u file_id ps (?first @ ks)" using qs(2) [OF ks(4)] by (simp add: qr)
  have "if ?first @ ks = [] then dummy_queued s s' ps else queued_blocks s s' file_id ps (?first @ ks)"
  proof (cases "n + m = 0")
    case True
    then have none: "?first @ ks = []" using ks(1) by simp
    with queue have "tx_holds (shared u) ps" by (simp add: queued_blocks_def)
    from SendDummy_queued(1) [OF this] have "dummy_queued u s' ps" using eq True by simp
    moreover have "carries_body (shared u) = carries_body (shared s)"
      using su by (intro carries_body_mac) (simp add: keeps_def)
    ultimately show ?thesis using none by (simp add: dummy_queued_def)
  next
    case False
    then have "?first @ ks \<noteq> []" using ks(1) n(1) by auto
    with queue show ?thesis using eq unfolding if_not_P [OF False] by auto
  qed
  moreover have "keeps ?r s'"
  proof (cases "n + m = 0")
    case True
    obtain rs where "tx_holds (shared u) rs" using queue by (auto simp: queued_blocks_def)
    from SendDummy_queued(2) [OF this] su keeps_trans eq True show ?thesis by metis
  next
    case False
    show ?thesis unfolding eq if_not_P [OF False] by (rule su)
  qed
  moreover have "length (?first @ ks) \<le> dlplay_per_update s"
    using n ks(1,2) st by (simp add: keeps_def)
  moreover have "stream_of 0 (nx + dlplay_ahead s) wanted (total_blocks (dlplay_rom s)) ks"
    using stream_of_weaken [OF ks(5), of 0] st by (simp add: keeps_def)
  ultimately show ?thesis using n(1) nt by (intro exI [of _ ?first] exI [of _ ks]) simp
qed

text \<open>What a pass has to send: the distinct blocks asked for, as many as fit in a pass.\<close>

definition requests :: "dlplay \<Rightarrow> nat list \<Rightarrow> bool" where
  "requests s wanted \<longleftrightarrow> distinct wanted \<and> length wanted \<le> dlplay_per_update s
     \<and> (\<forall>k \<in> set wanted. k < total_blocks (dlplay_rom s) \<and> (\<exists>aid \<in> {1..15}. taking s aid \<and> next_block (client s aid) = k))
     \<and> (\<forall>aid \<in> {1..15}. taking s aid \<and> next_block (client s aid) < total_blocks (dlplay_rom s) \<longrightarrow>
          next_block (client s aid) \<in> set wanted \<or> length wanted = dlplay_per_update s)"

lemma gathered_requests: "requests s (snd (gathered (turned s)))"
  using gathered_ok [of "turned s"] pass_order_set [of "turned s"]
  by (simp add: gather_ok_def requests_def taking_def split: prod.splits)

lemma highest_le: "\<forall>aid \<in> set seen. taking s aid \<longrightarrow> next_block (client s aid) \<le> m \<Longrightarrow> highest s seen \<le> m"
proof -
  have "\<lbrakk>\<forall>aid \<in> set seen. taking s aid \<longrightarrow> next_block (client s aid) \<le> m; n \<le> m\<rbrakk> \<Longrightarrow>
      fold (\<lambda>aid n. if taking s aid then max n (next_block (client s aid)) else n) seen n \<le> m" for n
    by (induction seen arbitrary: n) auto
  then show "\<forall>aid \<in> set seen. taking s aid \<longrightarrow> next_block (client s aid) \<le> m \<Longrightarrow> highest s seen \<le> m"
    by (simp add: highest_def)
qed


text \<open>A host in the middle of a transfer to the client with ID 2, which asks for block 3.\<close>

definition sending_host :: dlplay where
  "sending_host = small_host\<lparr>dlplay_clients := (replicate 16 blank_client)
     [2 := blank_client\<lparr>stage := DLPLAY_PSTATE_SEND_PROCEED, next_block := 3\<rparr>]\<rparr>"

lemma sending_host_sel [simp]:
  "shared sending_host = cleared" "dlplay_block_size sending_host = 0x100" "dlplay_rom sending_host = dlplay_rom small_host"
  "dlplay_per_update sending_host = 4" "dlplay_rotate sending_host = 0" "dlplay_ahead sending_host = 6"
  by (simp_all add: sending_host_def) (simp_all add: small_host_def dlplay_start_def)

lemma sending_host_taking:
  "taking sending_host aid \<and> aid < 16 \<longleftrightarrow> aid = 2" "next_block (client sending_host 2) = 3"
  by (auto simp: taking_def sending_host_def nth_list_update blank_client_def)

lemma sending_host_ready: "rom_ready sending_host"
  by (rule parsed_rom_ready [where data = small_rom]) (simp_all add: small_host_parsed(1))


section \<open>Nobody waits for ever\<close>

text \<open>The counter of the rotation is 8 bits wide; where it wraps the order jumps, but not for long.\<close>

lemma rotation_reaches:
  assumes "1 \<le> aid" "aid \<le> 15"
  shows "\<exists>n \<le> 15. 1 + unat (r + of_nat n + 1 :: u8) mod 15 = aid"
proof -
  have "\<exists>n \<le> 15. 1 + ((unat r + n + 1) mod 256) mod 15 = aid"
  proof (cases "unat r \<le> 240")
    case True
    have "aid - 1 < 15" using assms by auto
    from mod_15_reaches [OF this, of "unat r + 1"] obtain i where i: "i < 15" "(unat r + 1 + i) mod 15 = aid - 1" by blast
    have "(unat r + i + 1) mod 256 = unat r + 1 + i" using True i(1) by simp
    with i assms(1) show ?thesis by (intro exI [of _ i]) simp
  next
    case False
    then have m: "241 \<le> unat r" "unat r \<le> 255" using unat_u8_less [of r] by simp_all
    show ?thesis
    proof (cases "aid - 1 \<le> unat r - 240")
      case True
      let ?n = "255 - unat r + (aid - 1)"
      have "unat r + ?n + 1 = (aid - 1) + 256" using m by simp
      moreover have "aid - 1 < 256" using assms by linarith
      ultimately have "(unat r + ?n + 1) mod 256 = aid - 1" by (simp only: mod_add_self2 mod_less)
      moreover have "?n \<le> 15" using True m by linarith
      ultimately show ?thesis using assms by (intro exI [of _ ?n]) simp
    next
      case False
      let ?n = "aid - 1 + 239 - unat r"
      have "unat r + ?n + 1 = (aid - 1) + 240" using False m by linarith
      then have sum: "(unat r + ?n + 1) mod 256 = (aid - 1) + 16 * 15" using assms by simp
      have "aid - 1 < 15" using assms by linarith
      then have rest: "((aid - 1) + 16 * 15) mod 15 = aid - 1" by (simp only: mod_mult_self1 mod_less)
      have "?n \<le> 15" using assms m by linarith
      moreover have "1 + (unat r + ?n + 1) mod 256 mod 15 = aid" unfolding sum rest using assms by simp
      ultimately show ?thesis by blast
    qed
  qed
  then obtain n where n: "n \<le> 15" "1 + ((unat r + n + 1) mod 256) mod 15 = aid" by blast
  have "unat (r + of_nat n + 1) = (unat r + n + 1) mod 256"
  proof -
    have "r + of_nat n + 1 = of_nat (unat r + n + 1)" by simp
    then show ?thesis by (simp only: unat_of_nat) simp
  qed
  with n show ?thesis by (intro exI [of _ n]) simp
qed

lemma gather_client_prefix: "snd acc = k # ks \<Longrightarrow> \<exists>ks'. snd (gather_client s i acc) = k # ks'"
  by (cases acc) (simp add: gather_client_def Let_def)

lemma gather_prefix: "snd acc = k # ks \<Longrightarrow> \<exists>ks'. snd (fold (gather_client s) is acc) = k # ks'"
proof (induction "is" arbitrary: acc ks)
  case (Cons i "is")
  from gather_client_prefix [OF Cons.prems] obtain ks' where "snd (gather_client s i acc) = k # ks'" by blast
  from Cons.IH [OF this] show ?case by simp
qed simp

text \<open>The client a pass looks at first has its block sent first.\<close>

lemma first_client_wanted:
  assumes "1 + unat (dlplay_rotate s) mod 15 = aid" "taking s aid" "next_block (client s aid) < total_blocks (dlplay_rom s)"
    and "0 < dlplay_per_update s"
  shows "\<exists>ks. snd (gathered s) = next_block (client s aid) # ks"
proof -
  have "[0..<15] = 0 # [1..<15]" by (simp add: upt_conv_Cons)
  moreover have "snd (gather_client s 0 (0, [])) = [next_block (client s aid)]"
    using assms by (simp add: gather_client_def Let_def taking_def WIFI_MAX_MULTIPLAYER_CLIENTS_def)
  ultimately show ?thesis
    using gather_prefix [of "gather_client s 0 (0, [])" _ "[]" s "[1..<15]"]
    by (simp add: gathered_def WIFI_MAX_MULTIPLAYER_CLIENTS_def)
qed

lemma pass_sends_first:
  assumes "1 + unat (dlplay_rotate s + 1) mod 15 = aid" "taking s aid" "next_block (client s aid) = k"
      "k < total_blocks (dlplay_rom s)"
    and "0 < dlplay_per_update s" "rom_ready s" "tx_room (shared s) 568" "tx_holds (shared s) ps"
  shows "\<exists>ks. queued_blocks s (Wifi_DlPlaySendNextBlock dest file_id s) file_id ps (k # ks)"
proof -
  let ?s = "pass_start s"
  obtain nx wanted where g: "gathered (turned s) = (nx, wanted)" by fastforce
  have "\<exists>ks. snd (gathered (turned s)) = next_block (client (turned s) aid) # ks"
    by (rule first_client_wanted) (use assms in \<open>simp_all add: taking_def\<close>)
  then obtain ks where w: "wanted = k # ks" using g assms(3) by auto
  note same = pass_start_keeps [of s]
  have "rom_ready ?s" using keeps_rom [OF same(1)] assms(6) by (simp add: rom_ready_def)
  then obtain bytes where "Wifi_DlPlayRomGetBlock (dlplay_block_size ?s) (dlplay_rom ?s) (int k) = Some bytes"
    "length bytes \<le> 504" using assms(4) same(1) by (auto simp: rom_ready_def keeps_def)
  moreover have "tx_room (shared ?s) (0 + 568)" using assms(7) same(2) by simp
  ultimately obtain t where "Wifi_DlPlaySendBlock (int k) dest file_id ?s = (True, t)"
    using SendBlock_room by blast
  then have "0 < fst (send_wanted wanted dest file_id ?s)" by (simp add: w split: prod.split)
  moreover from pass_spec [OF assms(8,6) refl g, of dest file_id] obtain first stream where
    f: "first = take (length first) wanted" "length first = fst (send_wanted wanted dest file_id ?s)"
      "if first @ stream = [] then dummy_queued s (Wifi_DlPlaySendNextBlock dest file_id s) ps
       else queued_blocks s (Wifi_DlPlaySendNextBlock dest file_id s) file_id ps (first @ stream)" by blast
  ultimately obtain first' where "first = k # first'" using w by (cases first) auto
  with f(3) show ?thesis by auto
qed



end
