(* ===== verification/Dlplay_Replies.thy ===== *)
theory Dlplay_Replies
  imports Dlplay_Station
begin

text \<open>
  What clients answer (source/arm9/ntr/dlplay/protocol.c): the request a client sends in pieces,
  the handler of every reply, and the messages between an application and the programs it has sent.
  The handler is given the bytes of the reply and the byte in front of them, which it reads from the
  receive buffer for the port. The handler of the application is a log of what it is given.
\<close>

section \<open>The request\<close>

definition DLPLAY_REQ_PIECE_SIZE :: nat where "DLPLAY_REQ_PIECE_SIZE = 6"
definition DLPLAY_REQ_PIECE_COUNT :: nat where "DLPLAY_REQ_PIECE_COUNT = 5"
definition DLPLAY_REQ_ALL_PIECES :: u8 where "DLPLAY_REQ_ALL_PIECES = 0x1F"
definition DLPLAY_REQ_OFS_GAME_ID :: nat where "DLPLAY_REQ_OFS_GAME_ID = 0"
definition DLPLAY_REQ_OFS_COLOR :: nat where "DLPLAY_REQ_OFS_COLOR = 4"
definition DLPLAY_REQ_OFS_NAME_LEN :: nat where "DLPLAY_REQ_OFS_NAME_LEN = 5"
definition DLPLAY_REQ_OFS_NAME :: nat where "DLPLAY_REQ_OFS_NAME = 6"
definition DLPLAY_REQ_OFS_VERSION :: nat where "DLPLAY_REQ_OFS_VERSION = 26"
definition DLPLAY_REQ_OFS_FILE_ID :: nat where "DLPLAY_REQ_OFS_FILE_ID = 28"
definition DLPLAY_STATION_NAME_CHAR :: u16 where "DLPLAY_STATION_NAME_CHAR = 0x20"

lemmas request_consts = DLPLAY_REQ_PIECE_SIZE_def DLPLAY_REQ_PIECE_COUNT_def DLPLAY_REQ_ALL_PIECES_def
  DLPLAY_REQ_OFS_GAME_ID_def DLPLAY_REQ_OFS_COLOR_def DLPLAY_REQ_OFS_NAME_LEN_def DLPLAY_REQ_OFS_NAME_def
  DLPLAY_REQ_OFS_VERSION_def DLPLAY_REQ_OFS_FILE_ID_def

definition Wifi_DlPlayDecodeRequest :: "Wifi_DlPlayClient \<Rightarrow> Wifi_DlPlayClient" where
  "Wifi_DlPlayDecodeRequest c =
     (let req = req_buffer c;
          len = req ! DLPLAY_REQ_OFS_NAME_LEN;
          len = (if unat len > DSWIFI_DLPLAY_HOST_NAME_LEN then of_nat DSWIFI_DLPLAY_HOST_NAME_LEN else len);
          name = map (\<lambda>i. of_le16 (req ! (DLPLAY_REQ_OFS_NAME + i * 2)) (req ! (DLPLAY_REQ_OFS_NAME + i * 2 + 1)))
                   [0..<DSWIFI_DLPLAY_HOST_NAME_LEN]
      in c\<lparr>request := (request c)\<lparr>rq_valid := True,
             rq_game_id := of_le32 (req ! DLPLAY_REQ_OFS_GAME_ID) (req ! (DLPLAY_REQ_OFS_GAME_ID + 1))
               (req ! (DLPLAY_REQ_OFS_GAME_ID + 2)) (req ! (DLPLAY_REQ_OFS_GAME_ID + 3)),
             rq_version := of_le16 (req ! DLPLAY_REQ_OFS_VERSION) (req ! (DLPLAY_REQ_OFS_VERSION + 1)),
             rq_file_id := req ! DLPLAY_REQ_OFS_FILE_ID,
             rq_favorite_color := req ! DLPLAY_REQ_OFS_COLOR AND 0xF,
             rq_player_no := drop_bit 4 (req ! DLPLAY_REQ_OFS_COLOR),
             rq_name_len := len, rq_name := name\<rparr>,
           name_ascii := map (\<lambda>ch. if unat ch < 0x80 then ucast ch else 0x3F) (take (unat len) name)\<rparr>)"

definition station_name :: "Wifi_DlPlayClientRequest \<Rightarrow> bool" where
  "station_name r \<longleftrightarrow> unat (rq_name_len r) = DSWIFI_DLPLAY_HOST_NAME_LEN
     \<and> (\<forall>ch \<in> set (take DSWIFI_DLPLAY_HOST_NAME_LEN (rq_name r)). ch = DLPLAY_STATION_NAME_CHAR)"

text \<open>What \<open>Wifi_DlPlayHandleFileRequest\<close> does once a piece is stored.\<close>

definition request_stored :: "nat \<Rightarrow> dlplay \<Rightarrow> dlplay" where
  "request_stored aid s =
     (if req_mask (client s aid) \<noteq> DLPLAY_REQ_ALL_PIECES then s
      else
        let s = (if \<not> rq_valid (request (client s aid)) then upd_client aid Wifi_DlPlayDecodeRequest s else s);
            s = upd_client aid (\<lambda>c. c\<lparr>request := (request c)\<lparr>rq_is_station := station_name (request c)\<rparr>\<rparr>) s
        in if stage (client s aid) = DLPLAY_PSTATE_CONNECTED
           then Wifi_DlPlaySetClientStage aid DLPLAY_PSTATE_REQ_ACCEPTED s else s)"

definition Wifi_DlPlayHandleFileRequest :: "nat \<Rightarrow> u8 list \<Rightarrow> dlplay \<Rightarrow> dlplay" where
  "Wifi_DlPlayHandleFileRequest aid reply s =
     (if length reply < 2 + DLPLAY_REQ_PIECE_SIZE then s
      else
        let piece = unat (reply ! 1) in
        if piece \<ge> DLPLAY_REQ_PIECE_COUNT then s
        else
          let s = upd_client aid (\<lambda>c. c\<lparr>req_buffer := overwrite (piece * DLPLAY_REQ_PIECE_SIZE)
                    (take DLPLAY_REQ_PIECE_SIZE (drop 2 reply)) (req_buffer c),
                    req_mask := req_mask c OR push_bit piece 1\<rparr>) s
          in request_stored aid (upd_diag (\<lambda>g. g\<lparr>dg_request_pieces := req_mask (client s aid)\<rparr>) s))"

section \<open>Replies\<close>

definition DSWIFI_DLPLAY_CAPTURE_FRAMES :: nat where "DSWIFI_DLPLAY_CAPTURE_FRAMES = 4"
definition DLPLAY_PORT_BOOT :: nat where "DLPLAY_PORT_BOOT = 1"
definition DLPLAY_REPLY_OP_DUMMY :: u8 where "DLPLAY_REPLY_OP_DUMMY = 0"
definition DLPLAY_REPLY_OP_FILEREQ :: u8 where "DLPLAY_REPLY_OP_FILEREQ = 7"
definition DLPLAY_REPLY_OP_ACCEPT_FILEINFO :: u8 where "DLPLAY_REPLY_OP_ACCEPT_FILEINFO = 8"
definition DLPLAY_REPLY_OP_CONTINUE :: u8 where "DLPLAY_REPLY_OP_CONTINUE = 9"
definition DLPLAY_REPLY_OP_STOPREQ :: u8 where "DLPLAY_REPLY_OP_STOPREQ = 10"
definition DLPLAY_REPLY_OP_BOOTREQ_ACCEPTED :: u8 where "DLPLAY_REPLY_OP_BOOTREQ_ACCEPTED = 11"
definition DLPLAY_REPLY_OP_APP :: u8 where "DLPLAY_REPLY_OP_APP = 0x40"

lemmas reply_ops = DLPLAY_REPLY_OP_DUMMY_def DLPLAY_REPLY_OP_FILEREQ_def DLPLAY_REPLY_OP_ACCEPT_FILEINFO_def
  DLPLAY_REPLY_OP_CONTINUE_def DLPLAY_REPLY_OP_STOPREQ_def DLPLAY_REPLY_OP_BOOTREQ_ACCEPTED_def DLPLAY_REPLY_OP_APP_def

definition Wifi_DlPlayCapture :: "u8 list \<Rightarrow> dlplay \<Rightarrow> dlplay" where
  "Wifi_DlPlayCapture bytes s =
     (if bytes = [] then s
      else upd_diag (\<lambda>g. g\<lparr>dg_capture := (dg_capture g)[dg_capture_next g := take DSWIFI_DLPLAY_CAPTURE_BYTES bytes],
             dg_capture_next := (dg_capture_next g + 1) mod DSWIFI_DLPLAY_CAPTURE_FRAMES,
             dg_capture_total := dg_capture_total g + 1\<rparr>) s)"

definition count_drop :: "Wifi_DlPlayDropReason \<Rightarrow> dlplay \<Rightarrow> dlplay" where
  "count_drop r = upd_diag (\<lambda>g. g\<lparr>dg_drops := (dg_drops g)(r := dg_drops g r + 1)\<rparr>)"

definition count_reply :: "Wifi_DlPlayReplyKind \<Rightarrow> dlplay \<Rightarrow> dlplay" where
  "count_reply k = upd_diag (\<lambda>g. g\<lparr>dg_replies := (dg_replies g)(k := dg_replies g k + 1)\<rparr>)"

definition continue_reply :: "nat \<Rightarrow> u8 list \<Rightarrow> dlplay \<Rightarrow> dlplay" where
  "continue_reply aid reply s =
     (if length reply \<ge> 5 then
        let requested = of_le16 (reply ! 1) (reply ! 2); received = of_le16 (reply ! 3) (reply ! 4);
            s = upd_client aid (\<lambda>c. if received > rq_blocks_received (request c) then c\<lparr>wait_count := 0\<rparr> else c) s;
            s = upd_client aid (\<lambda>c. c\<lparr>request := (request c)\<lparr>rq_blocks_received := received\<rparr>,
                  next_block := unat requested\<rparr>) s
        in upd_diag (\<lambda>g. g\<lparr>dg_block_requested := requested, dg_blocks_received := received\<rparr>)
             (s\<lparr>dlplay_block_requested := True\<rparr>)
      else s)"

definition handle_opcode :: "nat \<Rightarrow> u8 list \<Rightarrow> dlplay \<Rightarrow> dlplay" where
  "handle_opcode aid reply s =
     (let opcode = reply ! 0 in
      if opcode = DLPLAY_REPLY_OP_DUMMY then count_reply WIFI_DLPLAY_REPLY_DUMMY s
      else if opcode = DLPLAY_REPLY_OP_FILEREQ then
        Wifi_DlPlayHandleFileRequest aid reply (count_reply WIFI_DLPLAY_REPLY_FILEREQ s)
      else if opcode = DLPLAY_REPLY_OP_ACCEPT_FILEINFO then
        (let s = count_reply WIFI_DLPLAY_REPLY_ACCEPT_FILEINFO s; c = client s aid in
         if Wifi_DlPlayClientIsStation c then
           if stage c = DLPLAY_PSTATE_REQ_ACCEPTED then Wifi_DlPlaySetClientStage aid DLPLAY_PSTATE_STATION s else s
         else if stage c = DLPLAY_PSTATE_REQ_ACCEPTED then Wifi_DlPlaySetClientStage aid DLPLAY_PSTATE_WAIT_TO_SEND s
         else if \<not> dlplay_gather s \<and> stage c = DLPLAY_PSTATE_WAIT_TO_SEND
         then Wifi_DlPlaySetClientStage aid DLPLAY_PSTATE_SEND_PROCEED s
         else s)
      else if opcode = DLPLAY_REPLY_OP_CONTINUE then
        (let s = continue_reply aid reply (count_reply WIFI_DLPLAY_REPLY_CONTINUE s) in
         if \<not> dlplay_gather s \<and> stage (client s aid) = DLPLAY_PSTATE_WAIT_TO_SEND
         then Wifi_DlPlaySetClientStage aid DLPLAY_PSTATE_SEND_PROCEED s else s)
      else if opcode = DLPLAY_REPLY_OP_STOPREQ then
        (let s = count_reply WIFI_DLPLAY_REPLY_STOPREQ s; c = client s aid in
         if stage c = DLPLAY_PSTATE_SEND_PROCEED then Wifi_DlPlaySetClientStage aid DLPLAY_PSTATE_SEND_COMPLETE s
         else if stage c = DLPLAY_PSTATE_SEND_COMPLETE
           \<and> (dlplay_boot_mode s = WIFI_DLPLAY_BOOT_AUTOMATIC \<or> boot_requested c)
         then Wifi_DlPlaySetClientStage aid DLPLAY_PSTATE_BOOT_REQUEST s
         else s)
      else if opcode = DLPLAY_REPLY_OP_APP then
        (let s = (if stage (client s aid) \<noteq> DLPLAY_PSTATE_APP then Wifi_DlPlaySetClientStage aid DLPLAY_PSTATE_APP s else s);
             s = upd_client aid (\<lambda>c. c\<lparr>wait_count := 0\<rparr>) s
         in if dlplay_app_handler s then s\<lparr>dlplay_app_in := dlplay_app_in s @ [(aid, drop 1 reply)]\<rparr> else s)
      else if opcode = DLPLAY_REPLY_OP_BOOTREQ_ACCEPTED then
        upd_client aid (\<lambda>c. if boot_accepted c = 0 then c\<lparr>boot_accepted := 1\<rparr> else c)
          (count_reply WIFI_DLPLAY_REPLY_BOOTREQ_ACCEPTED s)
      else count_drop WIFI_DLPLAY_DROP_UNKNOWN_OPCODE s)"

definition Wifi_DlPlayFromClientHandler :: "Wifi_MPPacketType \<Rightarrow> int \<Rightarrow> u8 \<Rightarrow> u8 list \<Rightarrow> dlplay \<Rightarrow> dlplay" where
  "Wifi_DlPlayFromClientHandler type aid port_byte reply s =
     (if type \<noteq> WIFI_MPTYPE_REPLY then count_drop WIFI_DLPLAY_DROP_NOT_REPLY s
      else
        let s = Wifi_DlPlayCapture reply s in
        if \<not> dlplay_active s then count_drop WIFI_DLPLAY_DROP_INACTIVE s
        else
          case Wifi_DlPlayClientByAid aid s of
            None \<Rightarrow> count_drop WIFI_DLPLAY_DROP_BAD_AID s
          | Some _ \<Rightarrow>
              let aid = nat aid; s = upd_client aid (\<lambda>c. c\<lparr>idle_count := 0\<rparr>) s in
              if length reply > 16 then count_drop WIFI_DLPLAY_DROP_BAD_LEN s
              else
                let s = upd_diag (\<lambda>g. g\<lparr>dg_replies_handled := dg_replies_handled g + 1\<rparr>) s in
                if reply = [] then count_reply WIFI_DLPLAY_REPLY_DUMMY s
                else
                  let port = unat (port_byte AND 0xF) in
                  if port \<noteq> DLPLAY_PORT_BOOT \<and> port \<noteq> 0 then
                    Wifi_DlPlayHandleStationReply aid port reply
                      (upd_diag (\<lambda>g. g\<lparr>dg_station_port := of_nat port, dg_station_frames := dg_station_frames g + 1,
                         dg_station_last := take DSWIFI_DLPLAY_CAPTURE_BYTES reply\<rparr>) s)
                  else handle_opcode aid reply s)"

section \<open>Messages of the application\<close>

definition DSWIFI_DLPLAY_REPLY_MAX_SIZE :: nat where "DSWIFI_DLPLAY_REPLY_MAX_SIZE = 7"
definition DSWIFI_DLPLAY_APP_MAX_SIZE :: nat where "DSWIFI_DLPLAY_APP_MAX_SIZE = 64"

text \<open>\<^const>\<open>False\<close> and \<^const>\<open>None\<close> are the result -1.\<close>

definition Wifi_DlPlayAppReply :: "u8 list option \<Rightarrow> Wifi_MainStruct \<Rightarrow> bool \<times> Wifi_MainStruct" where
  "Wifi_DlPlayAppReply data d =
     (case data of
        None \<Rightarrow> (False, d)
      | Some bytes \<Rightarrow>
          if length bytes = 0 \<or> length bytes > DSWIFI_DLPLAY_REPLY_MAX_SIZE then (False, d)
          else Wifi_MultiplayerClientReplyTxFrame (DLPLAY_REPLY_OP_APP # bytes) d)"

definition Wifi_DlPlayAppReadMessage :: "u8 list \<Rightarrow> nat \<Rightarrow> u8 list option" where
  "Wifi_DlPlayAppReadMessage frame buffer_size =
     (if length frame < 3 then None
      else if frame ! 2 \<noteq> DLPLAY_CMD_OP_APP then None
      else Some (take (min (length frame - 3) buffer_size) (drop 3 frame)))"

definition Wifi_DlPlaySetAppHandler :: "bool \<Rightarrow> dlplay \<Rightarrow> dlplay" where
  "Wifi_DlPlaySetAppHandler set_it s = s\<lparr>dlplay_app_handler := set_it\<rparr>"

definition Wifi_DlPlayAppSend :: "u8 list option \<Rightarrow> dlplay \<Rightarrow> bool \<times> dlplay" where
  "Wifi_DlPlayAppSend data s =
     (case data of
        None \<Rightarrow> (False, s)
      | Some bytes \<Rightarrow>
          if length bytes = 0 \<or> length bytes > DSWIFI_DLPLAY_APP_MAX_SIZE then (False, s)
          else if dlplay_app_out_pending s then (False, s)
          else (True, s\<lparr>dlplay_app_out := bytes, dlplay_app_out_pending := True\<rparr>))"

section \<open>A request arrives\<close>

text \<open>The bytes a client cuts in pieces for its request.\<close>

definition request_bytes :: "Wifi_DlPlayClientRequest \<Rightarrow> u8 list" where
  "request_bytes r = le32 (rq_game_id r) @ [rq_favorite_color r OR push_bit 4 (rq_player_no r), rq_name_len r]
     @ concat (map le16 (rq_name r)) @ le16 (rq_version r) @ [rq_file_id r, 0]"

definition request_ok :: "Wifi_DlPlayClientRequest \<Rightarrow> bool" where
  "request_ok r \<longleftrightarrow> length (rq_name r) = 10 \<and> unat (rq_name_len r) \<le> 10
     \<and> unat (rq_favorite_color r) < 16 \<and> unat (rq_player_no r) < 16"

lemma length_concat_le16 [simp]: "length (concat (map le16 xs)) = 2 * length xs"
  by (induction xs) simp_all

lemma nth_concat_le16:
  "i < length xs \<Longrightarrow> concat (map le16 xs) ! (i * 2) = le16 (xs ! i) ! 0 \<and> concat (map le16 xs) ! (i * 2 + 1) = le16 (xs ! i) ! 1"
proof (induction xs arbitrary: i)
  case (Cons x xs)
  then show ?case by (cases i) (simp_all add: le16_def)
qed simp

lemma length_request_bytes: "request_ok r \<Longrightarrow> length (request_bytes r) = 30"
  by (simp add: request_bytes_def request_ok_def)

lemma request_name_nth:
  assumes "request_ok r" "i < 10"
  shows "request_bytes r ! (6 + i * 2) = le16 (rq_name r ! i) ! 0" "request_bytes r ! (6 + i * 2 + 1) = le16 (rq_name r ! i) ! 1"
proof -
  have n: "length (rq_name r) = 10" using assms(1) by (simp add: request_ok_def)
  have b: "request_bytes r = (le32 (rq_game_id r) @ [rq_favorite_color r OR push_bit 4 (rq_player_no r), rq_name_len r])
      @ concat (map le16 (rq_name r)) @ (le16 (rq_version r) @ [rq_file_id r, 0])" (is "_ = ?a @ ?b @ ?c")
    by (simp add: request_bytes_def)
  have len: "length ?a = 6" by simp
  have at: "(?a @ ?b @ ?c) ! (6 + k) = ?b ! k" if "k < 20" for k
  proof -
    have "(?a @ ?b @ ?c) ! (length ?a + k) = (?b @ ?c) ! k" by (rule nth_append_length_plus)
    then show ?thesis using that n unfolding len by (simp add: nth_append)
  qed
  have "i * 2 < 20" "i * 2 + 1 < 20" using assms(2) by simp_all
  from at [OF this(1)] at [OF this(2)] nth_concat_le16 [of i "rq_name r"] n assms(2)
  show "request_bytes r ! (6 + i * 2) = le16 (rq_name r ! i) ! 0" "request_bytes r ! (6 + i * 2 + 1) = le16 (rq_name r ! i) ! 1"
    unfolding b by (simp_all only: add.assoc)
qed

lemma nibbles:
  assumes "unat c < 16" "unat p < 16"
  shows "(c OR push_bit 4 p) AND 0xF = (c :: u8)" "drop_bit 4 (c OR push_bit 4 p) = (p :: u8)"
proof -
  have all: "\<forall>c \<in> set [0..<16]. \<forall>p \<in> set [0..<16].
      (of_nat c OR push_bit 4 (of_nat p) :: u8) AND 0xF = of_nat c \<and> drop_bit 4 (of_nat c OR push_bit 4 (of_nat p) :: u8) = of_nat p"
    by code_simp
  have "unat c \<in> set [0..<16]" "unat p \<in> set [0..<16]" using assms by simp_all
  from bspec [OF bspec [OF all this(1)] this(2)]
  show "(c OR push_bit 4 p) AND 0xF = c" "drop_bit 4 (c OR push_bit 4 p) = p" by simp_all
qed

lemma decode_request_bytes:
  assumes "request_ok r"
  shows "request (Wifi_DlPlayDecodeRequest (c\<lparr>req_buffer := request_bytes r\<rparr>)) =
    r\<lparr>rq_valid := True, rq_blocks_received := rq_blocks_received (request c), rq_is_station := rq_is_station (request c)\<rparr>"
proof -
  let ?b = "request_bytes r"
  have n: "length (rq_name r) = 10" "unat (rq_name_len r) \<le> 10" using assms by (simp_all add: request_ok_def)
  have b: "?b = (le32 (rq_game_id r) @ [rq_favorite_color r OR push_bit 4 (rq_player_no r), rq_name_len r]
      @ concat (map le16 (rq_name r))) @ (le16 (rq_version r) @ [rq_file_id r, 0])" (is "_ = ?a @ ?c")
    by (simp add: request_bytes_def)
  have len: "length ?a = 26" using n(1) by simp
  have at: "(?a @ ?c) ! (26 + k) = ?c ! k" for k
    using nth_append_length_plus [of ?a ?c k] unfolding len .
  have low: "?b ! 0 = le32 (rq_game_id r) ! 0" "?b ! 1 = le32 (rq_game_id r) ! 1" "?b ! 2 = le32 (rq_game_id r) ! 2"
    "?b ! 3 = le32 (rq_game_id r) ! 3" "?b ! 4 = rq_favorite_color r OR push_bit 4 (rq_player_no r)" "?b ! 5 = rq_name_len r"
    by (simp_all add: request_bytes_def le32_def)
  have high: "?b ! 26 = le16 (rq_version r) ! 0" "?b ! 27 = le16 (rq_version r) ! 1" "?b ! 28 = rq_file_id r"
    using at [of 0] at [of 1] at [of 2] unfolding b by (simp_all add: le16_def)
  have name: "map (\<lambda>i. of_le16 (?b ! (6 + i * 2)) (?b ! (6 + i * 2 + 1))) [0..<10] = rq_name r"
    using n(1) request_name_nth [OF assms] of_le16_le16 by (intro nth_equalityI) simp_all
  have game: "of_le32 (?b ! 0) (?b ! (0 + 1)) (?b ! (0 + 2)) (?b ! (0 + 3)) = rq_game_id r"
    using low of_le32_le32 [of "rq_game_id r"] by (simp add: numeral_2_eq_2 numeral_3_eq_3)
  have version: "of_le16 (?b ! 26) (?b ! (26 + 1)) = rq_version r"
    using high of_le16_le16 [of "rq_version r"] by simp
  have color: "?b ! 4 AND 0xF = rq_favorite_color r" "drop_bit 4 (?b ! 4) = rq_player_no r"
    using nibbles assms unfolding low by (simp_all add: request_ok_def)
  have nlen: "(if 10 < unat (?b ! 5) then of_nat 10 else ?b ! 5) = rq_name_len r"
    using n(2) unfolding low(6) by simp
  have sel: "req_buffer (c\<lparr>req_buffer := ?b\<rparr>) = ?b" by simp
  have eq: "request (Wifi_DlPlayDecodeRequest (c\<lparr>req_buffer := ?b\<rparr>)) = (request c)\<lparr>rq_valid := True,
      rq_game_id := rq_game_id r, rq_version := rq_version r, rq_file_id := rq_file_id r,
      rq_favorite_color := rq_favorite_color r, rq_player_no := rq_player_no r,
      rq_name_len := rq_name_len r, rq_name := rq_name r\<rparr>"
    unfolding Wifi_DlPlayDecodeRequest_def Let_def sel request_consts game version
      DSWIFI_DLPLAY_HOST_NAME_LEN_def name color high(3) nlen by simp
  show ?thesis unfolding eq by (rule Wifi_DlPlayClientRequest.equality) simp_all
qed

text \<open>What the record of a client holds after some pieces of a request.\<close>

definition pieces_in :: "u8 list \<Rightarrow> nat set \<Rightarrow> Wifi_DlPlayClient \<Rightarrow> bool" where
  "pieces_in bytes P c \<longleftrightarrow> length (req_buffer c) = 30 \<and> (\<forall>k. bit (req_mask c) k \<longleftrightarrow> k \<in> P) \<and> P \<subseteq> {..<5}
     \<and> (\<forall>i < 30. i div 6 \<in> P \<longrightarrow> req_buffer c ! i = bytes ! i)"

definition piece_reply :: "u8 list \<Rightarrow> nat \<Rightarrow> u8 list" where
  "piece_reply bytes p = [7, of_nat p] @ take 6 (drop (6 * p) bytes)"

lemma all_pieces_mask: "(\<forall>k. bit m k \<longleftrightarrow> k \<in> P) \<Longrightarrow> P \<subseteq> {..<5} \<Longrightarrow> m = (0x1F :: u8) \<longleftrightarrow> P = {..<5}"
proof
  assume a: "\<forall>k. bit m k \<longleftrightarrow> k \<in> P" "P \<subseteq> {..<5}"
  have bits: "bit (0x1F :: u8) k \<longleftrightarrow> k < 5" for k
  proof -
    have "(0x1F :: u8) = mask 5" by (simp add: mask_eq_exp_minus_1)
    then show ?thesis by (simp only: bit_mask_iff) auto
  qed
  show "P = {..<5}" if "m = 0x1F" using a that bits by auto
  show "m = 0x1F" if "P = {..<5}" 
  proof (rule bit_word_eqI)
    show "bit m n \<longleftrightarrow> bit (0x1F :: u8) n" for n unfolding bits using a that by blast
  qed
qed

lemma piece_stored:
  assumes "pieces_in bytes P c" "length bytes = 30" "p < 5"
  shows "pieces_in bytes (insert p P) (c\<lparr>req_buffer := overwrite (p * 6) (take 6 (drop (6 * p) bytes)) (req_buffer c),
    req_mask := req_mask c OR push_bit p 1\<rparr>)"
proof -
  let ?bs = "take 6 (drop (6 * p) bytes)"
  have len: "length ?bs = 6" "length (req_buffer c) = 30" using assms by (simp_all add: pieces_in_def)
  have fit: "p * 6 + length ?bs \<le> length (req_buffer c)" using assms(3) len by simp
  have nth: "overwrite (p * 6) ?bs (req_buffer c) ! i = (if i div 6 = p then bytes ! i else req_buffer c ! i)" if "i < 30" for i
  proof -
    have split: "p * 6 \<le> i \<and> i < p * 6 + 6 \<longleftrightarrow> q = p" if "i = q * 6 + m" "m < 6" for q m
      using that by arith
    have iff: "p * 6 \<le> i \<and> i < p * 6 + 6 \<longleftrightarrow> i div 6 = p"
      by (rule split [of _ "i mod 6"]) simp_all
    have "i < length (req_buffer c)" using that len by simp
    note n = nth_overwrite [OF fit this, unfolded len(1)]
    show ?thesis
    proof (cases "i div 6 = p")
      case True
      with iff have i: "p * 6 \<le> i" "i < p * 6 + 6" by blast+
      then have "?bs ! (i - p * 6) = bytes ! i" using assms(2,3) by (simp add: mult.commute)
      then show ?thesis unfolding n using i True by (simp only: if_True conj_absorb simp_thms)
    next
      case False
      then show ?thesis unfolding n using iff by (simp only: if_False refl)
    qed
  qed
  have "bit (req_mask c OR push_bit p 1) k \<longleftrightarrow> k \<in> insert p P" for k
    using assms(1,3) by (auto simp: pieces_in_def bit_simps)
  with assms nth len fit show ?thesis by (auto simp: pieces_in_def)
qed


text \<open>What the host knows of the request after the pieces in \<open>P\<close>: nothing before it has them all.\<close>

definition request_known :: "Wifi_DlPlayClientRequest \<Rightarrow> u16 \<Rightarrow> nat set \<Rightarrow> Wifi_DlPlayClient \<Rightarrow> bool" where
  "request_known r got P c \<longleftrightarrow>
     (if P = {..<5}
      then request c = r\<lparr>rq_valid := True, rq_blocks_received := got, rq_is_station := station_name r\<rparr>
        \<and> stage c = DLPLAY_PSTATE_REQ_ACCEPTED
      else \<not> rq_valid (request c) \<and> rq_blocks_received (request c) = got \<and> stage c = DLPLAY_PSTATE_CONNECTED)"

lemma station_name_update [simp]:
  "station_name (r\<lparr>rq_is_station := b\<rparr>) = station_name r" "station_name (r\<lparr>rq_valid := v\<rparr>) = station_name r"
  "station_name (r\<lparr>rq_blocks_received := n\<rparr>) = station_name r"
  by (simp_all add: station_name_def)

lemma DecodeRequest_sel [simp]:
  "req_buffer (Wifi_DlPlayDecodeRequest c) = req_buffer c" "req_mask (Wifi_DlPlayDecodeRequest c) = req_mask c"
  "stage (Wifi_DlPlayDecodeRequest c) = stage c"
  by (simp_all add: Wifi_DlPlayDecodeRequest_def Let_def)

lemma HandleFileRequest_piece:
  assumes aid: "aid < length (dlplay_clients s)" and r: "request_ok r" and p: "p < 5"
    and c: "pieces_in (request_bytes r) P (client s aid)" "request_known r got P (client s aid)"
    and s': "Wifi_DlPlayHandleFileRequest aid (piece_reply (request_bytes r) p) s = s'"
  shows "pieces_in (request_bytes r) (insert p P) (client s' aid) \<and> request_known r got (insert p P) (client s' aid)
    \<and> (\<forall>k. k \<noteq> aid \<longrightarrow> client s' k = client s k) \<and> length (dlplay_clients s') = length (dlplay_clients s)
    \<and> dlplay_active s' = dlplay_active s"
proof -
  let ?bytes = "request_bytes r" and ?c = "client s aid"
  let ?store = "\<lambda>c. c\<lparr>req_buffer := overwrite (p * 6) (take 6 (drop (6 * p) ?bytes)) (req_buffer c),
    req_mask := req_mask c OR push_bit p 1\<rparr>"
  let ?s1 = "upd_diag (\<lambda>g. g\<lparr>dg_request_pieces := req_mask (client (upd_client aid ?store s) aid)\<rparr>)
    (upd_client aid ?store s)"
  let ?full = "r\<lparr>rq_valid := True, rq_blocks_received := got, rq_is_station := station_name r\<rparr>"
  have blen: "length ?bytes = 30" by (rule length_request_bytes [OF r])
  have reply: "length (piece_reply ?bytes p) = 8" "unat (piece_reply ?bytes p ! 1) = p"
    "take 6 (drop 2 (piece_reply ?bytes p)) = take 6 (drop (6 * p) ?bytes)"
    using p blen by (simp_all add: piece_reply_def unat_of_nat)
  have c1: "client ?s1 aid = ?store ?c" using aid by (simp add: client_upd_client)
  have stored: "pieces_in ?bytes (insert p P) (?store ?c)" by (rule piece_stored [OF c(1) blen p])
  then have in_P: "\<forall>k. bit (req_mask (?store ?c)) k \<longleftrightarrow> k \<in> insert p P" "insert p P \<subseteq> {..<5}"
    unfolding pieces_in_def by blast+
  have full: "req_mask (?store ?c) = 0x1F \<longleftrightarrow> insert p P = {..<5}" by (rule all_pieces_mask [OF in_P])
  have s'_eq: "s' = request_stored aid ?s1"
    unfolding s' [symmetric] Wifi_DlPlayHandleFileRequest_def request_consts Let_def reply using p
    by (simp only: if_not_P [of "p \<ge> 5"] linorder_not_le numeral_plus_numeral less_irrefl if_False add_numeral_left semiring_norm)
  show ?thesis
  proof (cases "insert p P = {..<5}")
    case False
    then have "s' = ?s1" unfolding s'_eq request_stored_def request_consts c1 using full by (simp only: if_True simp_thms)
    moreover have "P \<noteq> {..<5}" using False p by auto
    ultimately show ?thesis using stored False c1 c(2) aid by (auto simp: request_known_def client_upd_client)
  next
    case True
    have buf: "req_buffer (?store ?c) = ?bytes"
    proof (rule nth_equalityI)
      show "length (req_buffer (?store ?c)) = length ?bytes" using stored blen by (simp only: pieces_in_def)
      show "req_buffer (?store ?c) ! i = ?bytes ! i" if "i < length (req_buffer (?store ?c))" for i
      proof -
        have "i < 30" using that stored by (simp only: pieces_in_def)
        moreover then have "i div 6 \<in> insert p P" unfolding True by (simp add: less_mult_imp_div_less)
        ultimately show ?thesis using stored by (simp only: pieces_in_def)
      qed
    qed
    let ?dec = "if \<not> rq_valid (request ?c) then Wifi_DlPlayDecodeRequest (?store ?c) else ?store ?c"
    let ?named = "?dec\<lparr>request := (request ?dec)\<lparr>rq_is_station := station_name (request ?dec)\<rparr>\<rparr>"
    have req: "request ?named = ?full"
    proof (cases "P = {..<5}")
      case True
      then show ?thesis using c(2) by (simp add: request_known_def)
    next
      case False
      then have inv: "\<not> rq_valid (request ?c)" "rq_blocks_received (request ?c) = got"
        using c(2) by (simp_all add: request_known_def)
      have "?store ?c = (?store ?c)\<lparr>req_buffer := ?bytes\<rparr>" using buf by simp
      from decode_request_bytes [OF r, of "?store ?c", folded this] inv show ?thesis by simp
    qed
    let ?t = "upd_client aid (\<lambda>c. c\<lparr>request := (request c)\<lparr>rq_is_station := station_name (request c)\<rparr>\<rparr>)
      (if \<not> rq_valid (request (client ?s1 aid)) then upd_client aid Wifi_DlPlayDecodeRequest ?s1 else ?s1)"
    have t: "client ?t aid = ?named" "\<forall>k. k \<noteq> aid \<longrightarrow> client ?t k = client s k"
      "length (dlplay_clients ?t) = length (dlplay_clients s)" "dlplay_active ?t = dlplay_active s"
      using aid by (simp_all add: client_upd_client)
    have st: "stage ?named = DLPLAY_PSTATE_CONNECTED \<or> stage ?named = DLPLAY_PSTATE_REQ_ACCEPTED"
      using c(2) by (simp add: request_known_def split: if_splits)
    have pieces: "pieces_in ?bytes {..<5} ?named" using stored True by (simp add: pieces_in_def)
    have "s' = (if stage (client ?t aid) = DLPLAY_PSTATE_CONNECTED
        then Wifi_DlPlaySetClientStage aid DLPLAY_PSTATE_REQ_ACCEPTED ?t else ?t)"
      unfolding s'_eq request_stored_def Let_def request_consts c1 using full True
      by (simp only: if_False simp_thms)
    with t st pieces req aid show ?thesis
      unfolding True by (auto simp: client_SetClientStage request_known_def pieces_in_def)
  qed
qed


text \<open>The handler of replies, as far as a piece of a request goes.\<close>

lemma Capture_sel [simp]:
  "dlplay_clients (Wifi_DlPlayCapture bytes s) = dlplay_clients s" "dlplay_active (Wifi_DlPlayCapture bytes s) = dlplay_active s"
  "shared (Wifi_DlPlayCapture bytes s) = shared s" "dlplay_gather (Wifi_DlPlayCapture bytes s) = dlplay_gather s"
  "dlplay_boot_mode (Wifi_DlPlayCapture bytes s) = dlplay_boot_mode s" "dlplay_state (Wifi_DlPlayCapture bytes s) = dlplay_state s"
  by (simp_all add: Wifi_DlPlayCapture_def)

lemma count_sel [simp]:
  "dlplay_clients (count_drop r s) = dlplay_clients s" "dlplay_active (count_drop r s) = dlplay_active s"
  "shared (count_drop r s) = shared s" "dlplay_gather (count_drop r s) = dlplay_gather s"
  "dlplay_boot_mode (count_drop r s) = dlplay_boot_mode s" "dlplay_state (count_drop r s) = dlplay_state s"
  "dlplay_clients (count_reply k s) = dlplay_clients s" "dlplay_active (count_reply k s) = dlplay_active s"
  "shared (count_reply k s) = shared s" "dlplay_gather (count_reply k s) = dlplay_gather s"
  "dlplay_boot_mode (count_reply k s) = dlplay_boot_mode s" "dlplay_state (count_reply k s) = dlplay_state s"
  by (simp_all add: count_drop_def count_reply_def)

text \<open>What the handler has done before it looks at a reply of the transfer.\<close>

definition reply_noted :: "nat \<Rightarrow> u8 list \<Rightarrow> dlplay \<Rightarrow> dlplay" where
  "reply_noted aid reply s = upd_diag (\<lambda>g. g\<lparr>dg_replies_handled := dg_replies_handled g + 1\<rparr>)
     (upd_client aid (\<lambda>c. c\<lparr>idle_count := 0\<rparr>) (Wifi_DlPlayCapture reply s))"

lemma reply_noted_sel [simp]:
  "length (dlplay_clients (reply_noted aid reply s)) = length (dlplay_clients s)"
  "dlplay_active (reply_noted aid reply s) = dlplay_active s" "dlplay_gather (reply_noted aid reply s) = dlplay_gather s"
  "dlplay_boot_mode (reply_noted aid reply s) = dlplay_boot_mode s" "shared (reply_noted aid reply s) = shared s"
  by (simp_all add: reply_noted_def)

lemma client_reply_noted:
  "client (reply_noted aid reply s) k =
    (if k = aid \<and> aid < length (dlplay_clients s) then (client s aid)\<lparr>idle_count := 0\<rparr> else client s k)"
  by (simp add: reply_noted_def client_upd_client)

lemma handler_opcode:
  assumes "dlplay_active s" "1 \<le> aid" "aid \<le> 15" "reply \<noteq> []" "length reply \<le> 16" "unat (port_byte AND 0xF) \<le> 1"
  shows "Wifi_DlPlayFromClientHandler WIFI_MPTYPE_REPLY (int aid) port_byte reply s = handle_opcode aid reply (reply_noted aid reply s)"
proof -
  have "Wifi_DlPlayClientByAid (int aid) (Wifi_DlPlayCapture reply s) = Some (client s aid)"
    using assms(2,3) by (simp add: Wifi_DlPlayClientByAid_def Wifi_DlPlayAidValid_def WIFI_MAX_MULTIPLAYER_CLIENTS_def)
  moreover have "\<not> (unat (port_byte AND 0xF) \<noteq> DLPLAY_PORT_BOOT \<and> unat (port_byte AND 0xF) \<noteq> 0)"
    using assms(6) by (auto simp: DLPLAY_PORT_BOOT_def)
  moreover have "\<not> length reply > 16" using assms(5) by simp
  ultimately show ?thesis
    unfolding Wifi_DlPlayFromClientHandler_def Let_def reply_noted_def
    using assms(1,4) by (simp only: simp_thms if_True if_False Capture_sel option.case nat_int)
qed

lemma request_piece_handled:
  assumes aid: "1 \<le> aid" "aid \<le> 15" "length (dlplay_clients s) = 16" and r: "request_ok r" and p: "p < 5"
    and on: "dlplay_active s" "unat (port_byte AND 0xF) \<le> 1"
    and c: "pieces_in (request_bytes r) P (client s aid)" "request_known r got P (client s aid)"
    and s': "Wifi_DlPlayFromClientHandler WIFI_MPTYPE_REPLY (int aid) port_byte (piece_reply (request_bytes r) p) s = s'"
  shows "pieces_in (request_bytes r) (insert p P) (client s' aid) \<and> request_known r got (insert p P) (client s' aid)
    \<and> (\<forall>k. k \<noteq> aid \<longrightarrow> client s' k = client s k) \<and> length (dlplay_clients s') = 16 \<and> dlplay_active s'"
proof -
  let ?reply = "piece_reply (request_bytes r) p"
  let ?s = "count_reply WIFI_DLPLAY_REPLY_FILEREQ (reply_noted aid ?reply s)"
  have "s' = handle_opcode aid ?reply (reply_noted aid ?reply s)"
    unfolding s' [symmetric] by (rule handler_opcode) (use aid on in \<open>simp_all add: piece_reply_def\<close>)
  also have "\<dots> = Wifi_DlPlayHandleFileRequest aid ?reply ?s"
    by (simp add: handle_opcode_def reply_ops piece_reply_def)
  finally have h: "Wifi_DlPlayHandleFileRequest aid ?reply ?s = s'" by simp
  have same: "client ?s aid = (client s aid)\<lparr>idle_count := 0\<rparr>" "\<And>k. k \<noteq> aid \<Longrightarrow> client ?s k = client s k"
    "length (dlplay_clients ?s) = 16" "dlplay_active ?s"
    using aid on by (simp_all add: client_reply_noted)
  have "pieces_in (request_bytes r) P (client ?s aid)" "request_known r got P (client ?s aid)"
    using c unfolding same(1) by (simp_all add: pieces_in_def request_known_def)
  from HandleFileRequest_piece [OF _ r p this h] show ?thesis using same aid by auto
qed

text \<open>
  C5. A request is cut in five pieces, and the host puts it together whatever the order they arrive
  in and however often each arrives: as long as one is missing nothing is known of the request and
  the client stays where it is, and when none is missing the record of the client holds the program
  asked for, the version, the color, the name, and whether this is a client of a Download Station,
  which is so if its name is ten spaces; the client then moves on. Nobody else is touched.
\<close>

theorem request_assembled:
  assumes "1 \<le> aid" "aid \<le> 15" "length (dlplay_clients s) = 16" "dlplay_active s" "unat (port_byte AND 0xF) \<le> 1"
    and "request_ok r" "set ps \<subseteq> {..<5}" "stage (client s aid) = DLPLAY_PSTATE_CONNECTED"
    and "req_mask (client s aid) = 0" "length (req_buffer (client s aid)) = 30" "\<not> rq_valid (request (client s aid))"
    and "fold (\<lambda>p. Wifi_DlPlayFromClientHandler WIFI_MPTYPE_REPLY (int aid) port_byte (piece_reply (request_bytes r) p)) ps s = s'"
  shows "(if set ps = {..<5}
      then request (client s' aid) = r\<lparr>rq_valid := True, rq_blocks_received := rq_blocks_received (request (client s aid)),
             rq_is_station := station_name r\<rparr>
        \<and> stage (client s' aid) = DLPLAY_PSTATE_REQ_ACCEPTED
      else \<not> rq_valid (request (client s' aid)) \<and> stage (client s' aid) = DLPLAY_PSTATE_CONNECTED)
    \<and> (\<forall>k. k \<noteq> aid \<longrightarrow> client s' k = client s k)"
proof -
  let ?got = "rq_blocks_received (request (client s aid))"
  have "pieces_in (request_bytes r) (P \<union> set ps) (client s' aid) \<and> request_known r got (P \<union> set ps) (client s' aid)
      \<and> (\<forall>k. k \<noteq> aid \<longrightarrow> client s' k = client s k)"
    if "pieces_in (request_bytes r) P (client s aid)" "request_known r got P (client s aid)"
      "length (dlplay_clients s) = 16" "dlplay_active s" "set ps \<subseteq> {..<5}"
      "fold (\<lambda>p. Wifi_DlPlayFromClientHandler WIFI_MPTYPE_REPLY (int aid) port_byte (piece_reply (request_bytes r) p)) ps s = s'"
    for got P s ps
    using that
  proof (induction ps arbitrary: P s)
    case Nil
    then show ?case by simp
  next
    case (Cons p ps)
    let ?s = "Wifi_DlPlayFromClientHandler WIFI_MPTYPE_REPLY (int aid) port_byte (piece_reply (request_bytes r) p) s"
    have "p < 5" using Cons.prems(5) by simp
    note step = request_piece_handled [OF assms(1,2) Cons.prems(3) assms(6) this Cons.prems(4) assms(5) Cons.prems(1,2) refl]
    from Cons.IH [of "insert p P" ?s] step Cons.prems show ?case by simp
  qed
  moreover have none: "({} :: nat set) \<noteq> {..<5}" by (metis empty_iff lessThan_iff zero_less_numeral)
  moreover have "pieces_in (request_bytes r) {} (client s aid)" "request_known r ?got {} (client s aid)"
    using assms none by (simp_all add: pieces_in_def request_known_def)
  ultimately show ?thesis using assms(3,4,7,12) by (auto simp: request_known_def split: if_splits)
qed


text \<open>A host with a console connected, and the request of a Download Station client.\<close>

definition room_host :: dlplay where
  "room_host = small_host\<lparr>dlplay_active := True, dlplay_app_handler := True,
     dlplay_clients := (replicate 16 blank_client)[1 := blank_client\<lparr>stage := DLPLAY_PSTATE_CONNECTED\<rparr>]\<rparr>"

lemma room_host_sel [simp]:
  "shared room_host = cleared" "dlplay_active room_host" "dlplay_app_handler room_host"
  "dlplay_clients room_host = (replicate 16 blank_client)[1 := blank_client\<lparr>stage := DLPLAY_PSTATE_CONNECTED\<rparr>]"
  "dlplay_app_in room_host = []" "\<not> dlplay_app_out_pending room_host"
  by (simp_all add: room_host_def) (simp_all add: small_host_def dlplay_start_def)

definition station_request :: Wifi_DlPlayClientRequest where
  "station_request = no_request\<lparr>rq_game_id := 0x00400120, rq_name_len := 10, rq_name := replicate 10 0x20, rq_player_no := 1\<rparr>"

lemma request_assembled_witness:
  "let s = fold (\<lambda>p. Wifi_DlPlayFromClientHandler WIFI_MPTYPE_REPLY 1 0 (piece_reply (request_bytes station_request) p))
       [1, 2, 3, 4, 2, 0] room_host
   in Wifi_DlPlayClientIsStation (client s 1) \<and> stage (client s 1) = DLPLAY_PSTATE_REQ_ACCEPTED"
proof -
  have pieces: "set [1, 2, 3, 4, 2, 0] = {..<5 :: nat}" by auto
  have "request_ok station_request" by (simp add: request_ok_def station_request_def no_request_def)
  moreover have "station_name station_request"
    by (simp add: station_name_def station_request_def no_request_def DLPLAY_STATION_NAME_CHAR_def
        DSWIFI_DLPLAY_HOST_NAME_LEN_def)
  ultimately show ?thesis
    using request_assembled [of 1 room_host 0 station_request "[1, 2, 3, 4, 2, 0]"] pieces
    by (simp add: Let_def Wifi_DlPlayClientIsStation_def blank_client_def no_request_def)
qed

section \<open>Messages of the application arrive\<close>

lemma AppReadMessage_app: "Wifi_DlPlayAppReadMessage (a # b # 0x40 # bs) n = Some (take n bs)"
  by (simp add: Wifi_DlPlayAppReadMessage_def DLPLAY_CMD_OP_APP_def min_def)

lemma take_fcs: "length fcs = 4 \<Longrightarrow> take (length (bs @ fcs) - 4) (bs @ fcs) = bs"
  by simp

text \<open>
  C27. A message of the application on the host reaches the program on a console, with two bytes too
  many: what \<open>Wifi_DlPlayAppReadMessage\<close> returns is the message and the two bytes of the footer of
  the frame, as far as the buffer goes. The documentation says that it reads the message.
\<close>

theorem app_message_overrun:
  assumes "tx_holds (shared s) ps" "Wifi_DlPlayAppSend (Some msg) s = (True, s1)"
    and "Wifi_DlPlaySendApp dest s1 = s2" "\<not> dlplay_app_out_pending s2"
  shows "\<exists>p body. tx_holds (shared s2) (ps @ [p])
    \<and> (\<forall>c hw. from_host_handler c \<and> curAp_bssid (Data c) = MacAddr (shared s) \<longrightarrow>
          hear (hw, p) c = c\<lparr>from_host := from_host c @ [(WIFI_MPTYPE_CMD, body)]\<rparr>)
    \<and> Wifi_DlPlayAppReadMessage body n =
        Some (take n (msg @ le16 (dest AND Wifi_MultiplayerGetClientMask (shared s) AND NOT 1)))"
proof -
  have msg: "length msg \<le> 64" "s1 = s\<lparr>dlplay_app_out := msg, dlplay_app_out_pending := True\<rparr>"
    using assms(2) by (auto simp: Wifi_DlPlayAppSend_def DSWIFI_DLPLAY_APP_MAX_SIZE_def split: if_splits)
  have "length (dlplay_app_out s1) \<le> 500" using msg by simp
  note eq = SendApp_eq [OF this, of dest]
  let ?h = "frame_head DLPLAY_FLAGS_NORMAL (length (0x40 # msg))" and ?f = "client_footer dest s1"
  obtain ok s' where call: "send_frame ?h (0x40 # msg) ?f s1 = (ok, s')" by fastforce
  have "dlplay_app_out s1 = msg" using msg(2) by simp
  with eq call assms(3) have s2_eq: "s2 = (if ok then s'\<lparr>dlplay_app_out_pending := False\<rparr> else s')" by simp
  have ok: ok
  proof (rule ccontr)
    assume "\<not> ok"
    then have "s2 = s'" using s2_eq by simp
    moreover have "dlplay_app_out_pending s' = dlplay_app_out_pending s1"
      using send_frame_sends_only [OF call] by (auto simp: sends_only_def)
    ultimately show False using assms(4) msg(2) by simp
  qed
  then have s2: "shared s2 = shared s'" using s2_eq by simp
  have "tx_holds (shared s1) ps" "length ?h + length (0x40 # msg) + length ?f \<le> DLPLAY_CMD_FRAME_SIZE"
    using assms(1) msg by (simp_all add: DLPLAY_CMD_FRAME_SIZE_def)
  from send_frame_carries [OF this call [unfolded eqTrueI [OF ok]]] obtain p where
    p: "tx_holds (shared s') (ps @ [p])" "carries_body (shared s1) (?h @ (0x40 # msg) @ ?f) p" by blast
  let ?body = "?h @ (0x40 # msg) @ ?f"
  have "carries_body (shared s) ?body p" using p(2) msg(2) by simp
  then have heard: "hear (hw, p) c = c\<lparr>from_host := from_host c @ [(WIFI_MPTYPE_CMD, ?body)]\<rparr>"
    if "from_host_handler c" "curAp_bssid (Data c) = MacAddr (shared s)" for c hw
    using hear_body that by blast
  have "?f = le16 (dest AND Wifi_MultiplayerGetClientMask (shared s) AND NOT 1)"
    using msg(2) by (simp add: client_footer_def)
  then have "Wifi_DlPlayAppReadMessage ?body n =
      Some (take n (msg @ le16 (dest AND Wifi_MultiplayerGetClientMask (shared s) AND NOT 1)))"
    unfolding frame_head_def append.simps AppReadMessage_app by (simp only:)
  with p(1) s2 heard show ?thesis by metis
qed

lemma app_message_overrun_witness:
  "\<exists>s1 p body. Wifi_DlPlayAppSend (Some [0x68, 0x69]) room_host = (True, s1)
    \<and> tx_holds (shared (Wifi_DlPlaySendApp 0 s1)) [p]
    \<and> Wifi_DlPlayAppReadMessage body 64 = Some [0x68, 0x69, 0, 0]"
proof -
  obtain s1 where s1: "Wifi_DlPlayAppSend (Some [0x68, 0x69]) room_host = (True, s1)" "shared s1 = cleared"
    "dlplay_app_out s1 = [0x68, 0x69]"
    by (simp add: Wifi_DlPlayAppSend_def DSWIFI_DLPLAY_APP_MAX_SIZE_def)
  have "tx_room (shared s1) (0 + 568)" by (simp add: s1(2) tx_room_def cleared_def WIFI_TXBUFFER_SIZE_def)
  moreover have "length (frame_head DLPLAY_FLAGS_NORMAL (length (0x40 # dlplay_app_out s1)))
      + length (0x40 # dlplay_app_out s1) + length (client_footer 0 s1) \<le> 514" by (simp add: s1(3))
  ultimately obtain s' where "send_normal (0x40 # dlplay_app_out s1) 0 s1 = (True, s')"
    by (blast dest: send_frame_room)
  then have out: "\<not> dlplay_app_out_pending (Wifi_DlPlaySendApp 0 s1)"
    using SendApp_eq [of s1 0] s1(3) by simp
  have none: "tx_holds (shared room_host) []" by (simp add: tx_holds_cleared)
  from app_message_overrun [OF none s1(1) refl out, of 64] obtain p body where
    "tx_holds (shared (Wifi_DlPlaySendApp 0 s1)) [p]"
    "Wifi_DlPlayAppReadMessage body 64 = Some (take 64 ([0x68, 0x69] @ le16 0))" by auto
  moreover have "take 64 ([0x68, 0x69] @ le16 0) = [0x68, 0x69, 0, 0]" by (simp add: le16_def)
  ultimately show ?thesis using s1(1) by metis
qed

text \<open>
  C6. What the program on a console answers reaches the application on the host: the frame queued
  by the console is taken by the host as a reply from the association ID of that console, and the
  handler of Download Play passes exactly the bytes to the application, with that ID; the console
  no longer takes part in a transfer, whatever it did before.
\<close>

theorem app_reply_delivered:
  assumes "tx_holds d ps" "Wifi_DlPlayAppReply (Some msg) d = (True, d')"
    and "from_client_handler a" "curAp_bssid d = MacAddr (Data a)"
    and "Wifi_MultiplayerClientGetAIDFromMac (MacAddr d) (Data a) = of_nat aid" "1 \<le> aid" "aid \<le> 15"
    and "dlplay_active s" "dlplay_app_handler s" "length (dlplay_clients s) = 16"
  shows "\<exists>p. tx_holds d' (ps @ [p])
    \<and> (\<forall>dur seq. let air = hw_fill dur seq (take (length (snd p) - 4) (snd p));
           s' = Wifi_DlPlayFromClientHandler WIFI_MPTYPE_REPLY (int aid) (air ! 25) (0x40 # msg) s in
        from_client (Wifi_MultiplayerHandlePacketFromClient air a) =
          from_client a @ [(WIFI_MPTYPE_REPLY, of_nat aid, 0x40 # msg)]
        \<and> dlplay_app_in s' = dlplay_app_in s @ [(aid, msg)] \<and> stage (client s' aid) = DLPLAY_PSTATE_APP)"
proof -
  let ?bytes = "0x40 # msg"
  have len: "length msg \<le> 7" and tx: "tx_do (ClientReplyTx ?bytes) d = (True, d')"
    using assms(2) by (auto simp: Wifi_DlPlayAppReply_def DSWIFI_DLPLAY_REPLY_MAX_SIZE_def DLPLAY_REPLY_OP_APP_def
        split: if_splits)
  let ?frame = "tx_header WIFI_TRANSFER_RATE_2MBPS (of_nat (length ?bytes + 30))
      @ ieee_header 0x118 (curAp_bssid d) (MacAddr d) wifi_reply_mac @ [curClientAID (clients d), 0] @ ?bytes"
  have frame: "tx_frame d (ClientReplyTx ?bytes) = Some (WFLAG_SEND_AS_REPLY, ?frame)" by simp
  have "length (tx_payload (ClientReplyTx ?bytes)) < 0x0FFFFF00" using len by simp
  from tx_do_spec [OF assms(1) this tx] frame obtain fcs kind where
    p: "length fcs = 4" "tx_holds d' (ps @ [(kind, ?frame @ fcs)])"
    by (auto simp: tx_accepted_def)
  have air: "take (length (?frame @ fcs) - 4) (?frame @ fcs) = ?frame" by (rule take_fcs [OF p(1)])
  have pad: "hw_fill dur seq ?frame ! 25 = 0" for dur seq
    unfolding hw_fill_frame by (simp add: air_header_def nth_append)
  have "unat (of_nat aid :: u16) = aid" using assms(7) by (simp add: unat_of_nat)
  then have "of_nat aid \<noteq> (0 :: u16)" using assms(6) by (metis not_one_le_zero unat_0)
  then have heard: "from_client (Wifi_MultiplayerHandlePacketFromClient (hw_fill dur seq ?frame) a) =
      from_client a @ [(WIFI_MPTYPE_REPLY, of_nat aid, ?bytes)]" for dur seq
    using client_frame_heard [OF frame _ assms(3,4), of ?bytes dur seq] assms(5) by (simp add: Let_def)
  let ?s' = "Wifi_DlPlayFromClientHandler WIFI_MPTYPE_REPLY (int aid) 0 ?bytes s"
  have s': "?s' = handle_opcode aid ?bytes (reply_noted aid ?bytes s)"
    by (rule handler_opcode) (use assms len in simp_all)
  have "dlplay_app_handler (reply_noted aid ?bytes s)" "dlplay_app_in (reply_noted aid ?bytes s) = dlplay_app_in s"
    using assms(9) by (simp_all add: reply_noted_def upd_diag_def upd_client_def Wifi_DlPlayCapture_def)
  then have "dlplay_app_in ?s' = dlplay_app_in s @ [(aid, msg)] \<and> stage (client ?s' aid) = DLPLAY_PSTATE_APP"
    unfolding s' using assms(7,10)
    by (auto simp: handle_opcode_def reply_ops client_upd_client client_SetClientStage client_reply_noted Let_def
        upd_client_def Wifi_DlPlaySetClientStage_def Wifi_DlPlayUpdateSummaryState_def)
  with p(2) heard show ?thesis
    by (intro exI [of _ "(kind, ?frame @ fcs)"]) (simp only: Let_def prod.sel air pad simp_thms)
qed

text \<open>The shared structure of that host, with the console associated.\<close>

definition room_arm9 :: arm9 where
  "room_arm9 = (arm9_start (cleared\<lparr>curMaxClients := 1, clients := (clients cleared)\<lparr>clients_list :=
     [\<lparr>cl_macaddr = MacAddr cleared, cl_association_id = 1, cl_state = WIFI_CLIENT_ASSOCIATED\<rparr>]\<rparr>\<rparr>))
     \<lparr>from_client_handler := True\<rparr>"

lemma app_reply_delivered_witness:
  "\<exists>d' p. Wifi_DlPlayAppReply (Some [1, 2]) cleared = (True, d') \<and> tx_holds d' [p]
    \<and> from_client (Wifi_MultiplayerHandlePacketFromClient (hw_fill 7 8 (take (length (snd p) - 4) (snd p))) room_arm9)
        = [(WIFI_MPTYPE_REPLY, 1, [0x40, 1, 2])]"
proof -
  obtain d' where d': "Wifi_DlPlayAppReply (Some [1, 2]) cleared = (True, d')"
    by (auto simp: Wifi_DlPlayAppReply_def DSWIFI_DLPLAY_REPLY_MAX_SIZE_def Wifi_MultiplayerClientReplyTxFrame_def
        tx_queue_frame_def Wifi_TxBufferAllocBuffer_def ring_alloc_def cleared_def WIFI_TXBUFFER_SIZE_def Let_def
        split: option.splits)
  have a: "from_client_handler room_arm9" "curAp_bssid cleared = MacAddr (Data room_arm9)" "from_client room_arm9 = []"
    "Wifi_MultiplayerClientGetAIDFromMac (MacAddr cleared) (Data room_arm9) = of_nat 1"
    by (simp_all add: room_arm9_def arm9_start_def Wifi_MultiplayerClientGetAIDFromMac_def) (simp add: cleared_def)
  have "1 \<le> (1 :: nat)" "(1 :: nat) \<le> 15" "dlplay_active room_host" "dlplay_app_handler room_host"
    "length (dlplay_clients room_host) = 16" by simp_all
  from app_reply_delivered [OF tx_holds_cleared d' a(1,2,4) this] obtain p where
    p: "tx_holds d' ([] @ [p])"
    "\<forall>dur seq. let air = hw_fill dur seq (take (length (snd p) - 4) (snd p));
         s' = Wifi_DlPlayFromClientHandler WIFI_MPTYPE_REPLY (int 1) (air ! 25) [0x40, 1, 2] room_host in
       from_client (Wifi_MultiplayerHandlePacketFromClient air room_arm9) =
         from_client room_arm9 @ [(WIFI_MPTYPE_REPLY, of_nat 1, [0x40, 1, 2])]
       \<and> dlplay_app_in s' = dlplay_app_in room_host @ [(1, [1, 2])] \<and> stage (client s' 1) = DLPLAY_PSTATE_APP" by blast
  from p(2) have "from_client (Wifi_MultiplayerHandlePacketFromClient (hw_fill 7 8 (take (length (snd p) - 4) (snd p))) room_arm9)
      = from_client room_arm9 @ [(WIFI_MPTYPE_REPLY, of_nat 1, [0x40, 1, 2])]" unfolding Let_def by blast
  with d' p(1) a(3) show ?thesis by (intro exI [of _ d'] exI [of _ p]) simp
qed

end
