(* ===== verification/Spec2Isabelle.thy ===== *)
theory Spec2Isabelle
  imports Arm7_Tx Mp_Clients Arm7_Rx Mp_Packets Dlplay_Station Dlplay_Stream Dlplay_Replies
begin

text \<open>
  Placeholder header, replaced as components are added.
\<close>

end
